(* ===== verification/Prelude.thy ===== *)
theory Prelude
  imports Main "HOL-Library.AList" "HOL-Library.Char_ord" "HOL-Library.List_Lexorder"
    "HOL-Library.Sublist" "HOL-Library.Word"
begin

text \<open>
  Vocabulary shared by every component: the collections of simplification rules the component
  proofs use, Go's byte strings and the few functions of package \<open>strings\<close> the daemon calls,
  calls that may block for ever on a channel, and the interface of a keyed store (a Go map),
  with its interpretation on the two representations used in the model.
\<close>

section \<open>Collections\<close>

named_theorems code_defs \<open>definitions of straight-line operations of the model\<close>
named_theorems frame_simps \<open>which parts of the state an operation leaves alone\<close>

section \<open>Results\<close>

text \<open>
  A Go function returning \<open>(T, error)\<close> is modelled with a sum: \<open>Inl\<close> the error, \<open>Inr\<close> the value.
  A call that waits on a channel which may never be written is a \<open>call\<close>.
\<close>

datatype 'a call = Returned 'a | Blocked

fun is_ok :: "'e + 'a \<Rightarrow> bool" where
  "is_ok (Inl _) = False"
| "is_ok (Inr _) = True"

lemma is_ok_iff: "is_ok r \<longleftrightarrow> (\<exists>x. r = Inr x)"
  by (cases r) auto

lemma is_ok_fst: "is_ok (fst p) \<Longrightarrow> \<exists>x s. p = (Inr x, s)"
  by (cases p; cases "fst p") auto

section \<open>Byte strings\<close>

text \<open>A Go string is a sequence of bytes: \<open>string\<close> is a list of 8-bit characters.\<close>

definition byte_of :: "char \<Rightarrow> nat" where
  "byte_of c = of_char c"

definition is_lower :: "char \<Rightarrow> bool" where
  "is_lower c \<longleftrightarrow> 97 \<le> byte_of c \<and> byte_of c \<le> 122"

definition is_upper :: "char \<Rightarrow> bool" where
  "is_upper c \<longleftrightarrow> 65 \<le> byte_of c \<and> byte_of c \<le> 90"

definition is_digit :: "char \<Rightarrow> bool" where
  "is_digit c \<longleftrightarrow> 48 \<le> byte_of c \<and> byte_of c \<le> 57"

lemma byte_of_less [simp]: "byte_of c < 256"
  by (simp add: byte_of_def)

lemma byte_of_char_of [simp]: "byte_of (char_of n) = n mod 256"
  by (simp add: byte_of_def)

lemma char_of_byte_of [simp]: "char_of (byte_of c) = c"
  by (simp add: byte_of_def)

lemma byte_of_inject [simp]: "byte_of c = byte_of d \<longleftrightarrow> c = d"
  by (simp add: byte_of_def)

text \<open>\<open>strings.Contains(s, sub)\<close>.\<close>

fun str_contains :: "string \<Rightarrow> string \<Rightarrow> bool" where
  "str_contains [] sub = (sub = [])"
| "str_contains (c # cs) sub = (prefix sub (c # cs) \<or> str_contains cs sub)"

lemma str_contains_iff: "str_contains s sub \<longleftrightarrow> sublist sub s"
proof (induction s)
  case Nil
  then show ?case by simp
next
  case (Cons c cs)
  have "sublist sub (c # cs) \<longleftrightarrow> prefix sub (c # cs) \<or> sublist sub cs"
    by (auto simp: sublist_Cons_right)
  with Cons.IH show ?case by simp
qed

lemma str_contains_char: "str_contains s [c] \<longleftrightarrow> c \<in> set s"
  by (induction s) auto

lemma str_contains_subset: "str_contains s sub \<Longrightarrow> set sub \<subseteq> set s"
  by (auto simp: str_contains_iff dest: set_mono_sublist)

text \<open>\<open>strings.ReplaceAll\<close> for one-byte old and new.\<close>

definition replace_all :: "char \<Rightarrow> char \<Rightarrow> string \<Rightarrow> string" where
  "replace_all old new s = map (\<lambda>c. if c = old then new else c) s"

lemma replace_all_id: "old \<notin> set s \<Longrightarrow> replace_all old new s = s"
  by (induction s) (auto simp: replace_all_def)

lemma replace_all_Nil_iff [simp]: "replace_all old new s = [] \<longleftrightarrow> s = []"
  by (simp add: replace_all_def)

lemma replace_all_gone: "old \<noteq> new \<Longrightarrow> old \<notin> set (replace_all old new s)"
  by (auto simp: replace_all_def)

text \<open>
  \<open>strings.ToUpper\<close>. ASCII letters are shifted. Of the runes beyond ASCII only U+0131 (dotless i)
  and U+017F (long s) are upper-cased to an ASCII letter; the other ones stay beyond ASCII, so
  leaving their bytes alone does not change a comparison with an ASCII literal, which is the only
  use the daemon makes of the result.
\<close>

definition upper_char :: "char \<Rightarrow> char" where
  "upper_char c = (if is_lower c then char_of (byte_of c - 32) else c)"

fun to_upper :: "string \<Rightarrow> string" where
  "to_upper [] = []"
| "to_upper [c] = [upper_char c]"
| "to_upper (c # d # cs) =
     (if byte_of c = 0xC4 \<and> byte_of d = 0xB1 then CHR ''I'' # to_upper cs
      else if byte_of c = 0xC5 \<and> byte_of d = 0xBF then CHR ''S'' # to_upper cs
      else upper_char c # to_upper (d # cs))"

lemma upper_char_no_lower: "\<not> is_lower (upper_char c)"
  by (auto simp: upper_char_def is_lower_def)

lemma to_upper_no_lower: "c \<in> set (to_upper s) \<Longrightarrow> \<not> is_lower c"
proof (induction s rule: to_upper.induct)
  case (3 a b cs)
  then show ?case
    by (auto simp: upper_char_no_lower split: if_splits) (auto simp: is_lower_def byte_of_def)
qed (auto simp: upper_char_no_lower)

section \<open>Association lists as Go maps\<close>

text \<open>
  A Go map whose keys the code iterates over is an association list with distinct keys (the order
  of its entries has no meaning: an iteration visits them in an order chosen by the runtime). A
  map that is only looked up is a function into \<open>option\<close>.
\<close>

lemma dom_update_distinct [intro]:
  "distinct (map fst al) \<Longrightarrow> distinct (map fst (AList.update k v al))"
  by (rule distinct_update)

lemma map_of_update [simp]: "map_of (AList.update k v al) = (map_of al)(k \<mapsto> v)"
  by (rule update_conv')

lemma map_of_delete [simp]: "map_of (AList.delete k al) = (map_of al)(k := None)"
  by (rule delete_conv')

lemma length_update_new:
  "map_of al k = None \<Longrightarrow> length (AList.update k v al) = Suc (length al)"
  by (induction al) (auto split: if_splits)

lemma update_new: "map_of al k = None \<Longrightarrow> AList.update k v al = al @ [(k, v)]"
  by (induction al) (auto split: if_splits)

lemma length_delete_present:
  "\<lbrakk>distinct (map fst al); map_of al k = Some v\<rbrakk> \<Longrightarrow> Suc (length (AList.delete k al)) = length al"
proof (induction al)
  case Nil
  then show ?case by simp
next
  case (Cons p al)
  show ?case
  proof (cases "fst p = k")
    case True
    with Cons.prems have "k \<notin> fst ` set al" by auto
    then have "AList.delete k al = al" by (simp add: delete_idem)
    with True show ?thesis by (cases p) simp
  next
    case False
    with Cons show ?thesis by (cases p) simp
  qed
qed

lemma set_delete: "set (AList.delete k al) = {p \<in> set al. fst p \<noteq> k}"
  by (induction al) auto

subsection \<open>The interface of a keyed store\<close>

locale keyed_store =
  fixes look :: "'m \<Rightarrow> 'k \<Rightarrow> 'v option"
    and put :: "'k \<Rightarrow> 'v \<Rightarrow> 'm \<Rightarrow> 'm"
    and del :: "'k \<Rightarrow> 'm \<Rightarrow> 'm"
    and ok :: "'m \<Rightarrow> bool"
  assumes look_put: "ok m \<Longrightarrow> look (put k v m) = (look m)(k \<mapsto> v)"
    and look_del: "ok m \<Longrightarrow> look (del k m) = (look m)(k := None)"
    and ok_put: "ok m \<Longrightarrow> ok (put k v m)"
    and ok_del: "ok m \<Longrightarrow> ok (del k m)"
begin

lemma look_put_same: "ok m \<Longrightarrow> look (put k v m) k = Some v"
  by (simp add: look_put)

lemma look_put_other: "ok m \<Longrightarrow> k' \<noteq> k \<Longrightarrow> look (put k v m) k' = look m k'"
  by (simp add: look_put)

lemma look_del_same: "ok m \<Longrightarrow> look (del k m) k = None"
  by (simp add: look_del)

lemma look_del_other: "ok m \<Longrightarrow> k' \<noteq> k \<Longrightarrow> look (del k m) k' = look m k'"
  by (simp add: look_del)

lemma put_then_del: "ok m \<Longrightarrow> look m k = None \<Longrightarrow> look (del k (put k v m)) = look m"
  by (simp add: look_put look_del ok_put fun_eq_iff)

lemma dom_put: "ok m \<Longrightarrow> dom (look (put k v m)) = insert k (dom (look m))"
  by (simp add: look_put)

lemma dom_del: "ok m \<Longrightarrow> dom (look (del k m)) = dom (look m) - {k}"
  by (simp add: look_del)

lemma puts_commute:
  "ok m \<Longrightarrow> k \<noteq> k' \<Longrightarrow> look (put k v (put k' v' m)) = look (put k' v' (put k v m))"
  by (simp add: look_put ok_put fun_upd_twist)

lemma puts_other:
  "ok m \<Longrightarrow> k \<notin> fst ` set kvs \<Longrightarrow> look (fold (\<lambda>(k, v). put k v) kvs m) k = look m k"
  by (induction kvs arbitrary: m) (auto simp: ok_put look_put)

end

interpretation alist_store: keyed_store map_of AList.update AList.delete "\<lambda>al. distinct (map fst al)"
  by unfold_locales (auto simp: distinct_delete intro: distinct_update)

interpretation map_store: keyed_store "\<lambda>m. m" "\<lambda>k v m. m(k \<mapsto> v)" "\<lambda>k m. m(k := None)" "\<lambda>_. True"
  by unfold_locales auto

end
