(* ===== verification/GoPath.thy ===== *)
theory GoPath
  imports Prelude
begin

text \<open>
  The functions of \<open>path/filepath\<close> (Unix) the daemon uses: \<open>Clean\<close>, \<open>Join\<close> and \<open>Dir\<close>, and the
  directory entry a path string denotes. A path is resolved lexically from the root directory: the
  daemon is a system service whose working directory is \<open>/\<close>, and symbolic links are not modelled.
\<close>

section \<open>Splitting and joining at slashes\<close>

abbreviation slash :: char where
  "slash \<equiv> CHR ''/''"

fun split_slash :: "string \<Rightarrow> string list" where
  "split_slash [] = [[]]"
| "split_slash (c # cs) =
     (if c = slash then [] # split_slash cs
      else (case split_slash cs of [] \<Rightarrow> [[c]] | w # ws \<Rightarrow> (c # w) # ws))"

fun join_slash :: "string list \<Rightarrow> string" where
  "join_slash [] = []"
| "join_slash [w] = w"
| "join_slash (w # ws) = w @ slash # join_slash ws"

lemma split_slash_not_Nil [simp]: "split_slash s \<noteq> []"
  by (cases s) (auto split: list.split)

lemma split_slash_plain: "slash \<notin> set s \<Longrightarrow> split_slash s = [s]"
  by (induction s) auto

lemma split_slash_append: "split_slash (a @ slash # b) = split_slash a @ split_slash b"
proof (induction a)
  case Nil
  then show ?case by simp
next
  case (Cons c a)
  show ?case
  proof (cases "split_slash a")
    case Nil
    then show ?thesis by simp
  next
    case (Cons w ws)
    with Cons.IH show ?thesis by simp
  qed
qed

lemma join_slash_Cons: "ws \<noteq> [] \<Longrightarrow> join_slash (w # ws) = w @ slash # join_slash ws"
  by (cases ws) auto

lemma split_join:
  "\<lbrakk>ws \<noteq> []; \<forall>w \<in> set ws. slash \<notin> set w\<rbrakk> \<Longrightarrow> split_slash (join_slash ws) = ws"
proof (induction ws)
  case Nil
  then show ?case by simp
next
  case (Cons w ws)
  show ?case
  proof (cases "ws = []")
    case True
    with Cons.prems show ?thesis by (simp add: split_slash_plain)
  next
    case False
    with Cons show ?thesis
      by (simp add: join_slash_Cons split_slash_append split_slash_plain)
  qed
qed

lemma split_slash_elems: "w \<in> set (split_slash s) \<Longrightarrow> slash \<notin> set w"
  by (induction s arbitrary: w) (auto split: if_splits list.splits)

section \<open>Clean, Join, Dir\<close>

definition dot :: string where
  "dot = ''.''"

definition dotdot :: string where
  "dotdot = ''..''"

lemma dot_simps [simp]: "dot \<noteq> []" "dotdot \<noteq> []" "dot \<noteq> dotdot" "dotdot \<noteq> dot"
  by (simp_all add: dot_def dotdot_def)

text \<open>The stack of kept elements (innermost first) after one more element.\<close>

definition clean_step :: "bool \<Rightarrow> string list \<Rightarrow> string \<Rightarrow> string list" where
  "clean_step rooted st w =
     (if w = [] \<or> w = dot then st
      else if w = dotdot then
        (case st of
           [] \<Rightarrow> if rooted then [] else [dotdot]
         | x # xs \<Rightarrow> if x = dotdot then dotdot # st else xs)
      else w # st)"

definition clean_elems :: "bool \<Rightarrow> string list \<Rightarrow> string list" where
  "clean_elems rooted ws = rev (foldl (clean_step rooted) [] ws)"

definition is_rooted :: "string \<Rightarrow> bool" where
  "is_rooted p = (case p of [] \<Rightarrow> False | c # _ \<Rightarrow> c = slash)"

definition path_clean :: "string \<Rightarrow> string" where
  "path_clean p =
     (let ws = clean_elems (is_rooted p) (split_slash p)
      in if is_rooted p then slash # join_slash ws
         else if ws = [] then dot else join_slash ws)"

definition path_join :: "string list \<Rightarrow> string" where
  "path_join es =
     (case dropWhile (\<lambda>e. e = []) es of [] \<Rightarrow> [] | e # es' \<Rightarrow> path_clean (join_slash (e # es')))"

text \<open>\<open>Dir\<close> cleans everything up to and including the last slash.\<close>

fun upto_last_slash :: "string \<Rightarrow> string" where
  "upto_last_slash [] = []"
| "upto_last_slash (c # cs) =
     (if slash \<in> set (c # cs) then c # upto_last_slash cs else [])"

definition path_dir :: "string \<Rightarrow> string" where
  "path_dir p = path_clean (upto_last_slash p)"

lemma upto_last_slash_plain: "slash \<notin> set s \<Longrightarrow> upto_last_slash s = []"
  by (cases s) auto

lemma upto_last_slash_append:
  "slash \<notin> set b \<Longrightarrow> upto_last_slash (a @ slash # b) = a @ [slash]"
  by (induction a) (auto simp: upto_last_slash_plain)

section \<open>The directory entry a path denotes\<close>

type_synonym path = "string list"

definition resolve :: "string \<Rightarrow> path" where
  "resolve p = clean_elems True (split_slash p)"

lemma clean_step_skip [simp]: "clean_step r st [] = st" "clean_step r st dot = st"
  by (simp_all add: clean_step_def)

lemma clean_step_push: "w \<noteq> [] \<Longrightarrow> w \<noteq> dot \<Longrightarrow> w \<noteq> dotdot \<Longrightarrow> clean_step r st w = w # st"
  by (simp add: clean_step_def)

text \<open>
  In a rooted stack no element is special, and resolving a path that \<open>Clean\<close> has rewritten gives
  the same entry as resolving the path itself.
\<close>

definition plain_elem :: "string \<Rightarrow> bool" where
  "plain_elem w \<longleftrightarrow> w \<noteq> [] \<and> w \<noteq> dot \<and> w \<noteq> dotdot \<and> slash \<notin> set w"

lemma clean_step_push_plain [simp]: "plain_elem w \<Longrightarrow> clean_step r st w = w # st"
  by (simp add: plain_elem_def clean_step_def)

lemma clean_step_rooted_plain:
  "\<forall>x \<in> set st. plain_elem x \<Longrightarrow> slash \<notin> set w \<Longrightarrow> \<forall>x \<in> set (clean_step True st w). plain_elem x"
proof -
  assume st: "\<forall>x \<in> set st. plain_elem x" and w: "slash \<notin> set w"
  show ?thesis
  proof (cases "plain_elem w")
    case True
    with st show ?thesis by simp
  next
    case False
    with w have "w = [] \<or> w = dot \<or> w = dotdot" by (simp add: plain_elem_def)
    with st show ?thesis by (cases st) (auto simp: clean_step_def)
  qed
qed

lemma foldl_rooted_plain:
  "\<lbrakk>\<forall>x \<in> set st. plain_elem x; \<forall>w \<in> set ws. slash \<notin> set w\<rbrakk> \<Longrightarrow>
     \<forall>x \<in> set (foldl (clean_step True) st ws). plain_elem x"
proof (induction ws arbitrary: st)
  case Nil
  then show ?case by simp
next
  case (Cons w ws)
  have "\<forall>x \<in> set (clean_step True st w). plain_elem x"
    using Cons.prems by (intro clean_step_rooted_plain) auto
  moreover have "\<forall>w \<in> set ws. slash \<notin> set w" using Cons.prems(2) by simp
  ultimately have "\<forall>x \<in> set (foldl (clean_step True) (clean_step True st w) ws). plain_elem x"
    by (rule Cons.IH)
  then show ?case by (simp only: foldl_Cons)
qed

lemma resolve_plain: "w \<in> set (resolve p) \<Longrightarrow> plain_elem w"
  using foldl_rooted_plain [of "[]" "split_slash p"] split_slash_elems
  by (auto simp: resolve_def clean_elems_def)

lemma foldl_push_plain:
  "\<forall>w \<in> set ws. plain_elem w \<Longrightarrow> foldl (clean_step r) st ws = rev ws @ st"
  by (induction ws arbitrary: st) auto

lemma clean_elems_plain: "\<forall>w \<in> set ws. plain_elem w \<Longrightarrow> clean_elems r ws = ws"
  by (simp add: clean_elems_def foldl_push_plain)

text \<open>A relative stack is some \<open>..\<close> elements under plain ones.\<close>

definition rel_stack :: "string list \<Rightarrow> bool" where
  "rel_stack st \<longleftrightarrow> (\<exists>xs n. st = xs @ replicate n dotdot \<and> (\<forall>x \<in> set xs. plain_elem x))"

lemma plain_not_dotdot: "plain_elem x \<Longrightarrow> x \<noteq> dotdot"
  by (simp add: plain_elem_def)

lemma clean_step_rel_stack:
  assumes st: "rel_stack st" and w: "slash \<notin> set w"
  shows "rel_stack (clean_step False st w)"
proof -
  from st obtain xs n where xs: "st = xs @ replicate n dotdot" "\<forall>x \<in> set xs. plain_elem x"
    by (auto simp: rel_stack_def)
  consider "w = [] \<or> w = dot" | "w = dotdot" | "plain_elem w"
    using w by (auto simp: plain_elem_def)
  then show ?thesis
  proof cases
    case 1
    with st show ?thesis by (auto simp: clean_step_def)
  next
    case 2
    show ?thesis
    proof (cases xs)
      case Nil
      with xs 2 have "clean_step False st w = [] @ replicate (Suc n) dotdot"
        by (cases n) (auto simp: clean_step_def replicate_append_same)
      then show ?thesis unfolding rel_stack_def by (intro exI [of _ "[]"] exI [of _ "Suc n"]) simp
    next
      case (Cons x xs')
      with xs have "x \<noteq> dotdot" by (simp add: plain_not_dotdot)
      with xs 2 Cons have "clean_step False st w = xs' @ replicate n dotdot"
        by (simp add: clean_step_def)
      with xs Cons show ?thesis by (auto simp: rel_stack_def)
    qed
  next
    case 3
    then have "clean_step False st w = (w # xs) @ replicate n dotdot" by (simp add: xs)
    with 3 xs(2) show ?thesis
      unfolding rel_stack_def by (intro exI [of _ "w # xs"] exI [of _ n]) simp
  qed
qed

lemma foldl_rel_stack:
  "rel_stack st \<Longrightarrow> \<forall>w \<in> set ws. slash \<notin> set w \<Longrightarrow> rel_stack (foldl (clean_step False) st ws)"
proof (induction ws arbitrary: st)
  case Nil
  then show ?case by simp
next
  case (Cons w ws)
  have "rel_stack (clean_step False st w)"
    using Cons.prems by (intro clean_step_rel_stack) auto
  moreover have "\<forall>w \<in> set ws. slash \<notin> set w" using Cons.prems(2) by simp
  ultimately have "rel_stack (foldl (clean_step False) (clean_step False st w) ws)"
    by (rule Cons.IH)
  then show ?case by (simp only: foldl_Cons)
qed

lemma takeWhile_plain_dots:
  "\<forall>x \<in> set xs. plain_elem x \<Longrightarrow> takeWhile (\<lambda>x. x \<noteq> dotdot) (xs @ replicate n dotdot) = xs"
  by (induction xs) (auto simp: plain_not_dotdot takeWhile_replicate)

text \<open>Dropping the leading \<open>..\<close> elements of a relative stack gives the rooted stack.\<close>

lemma clean_step_rooted_of_rel:
  assumes "rel_stack st" and "slash \<notin> set w"
  shows "clean_step True (takeWhile (\<lambda>x. x \<noteq> dotdot) st) w =
     takeWhile (\<lambda>x. x \<noteq> dotdot) (clean_step False st w)"
proof -
  from assms obtain xs n where xs: "st = xs @ replicate n dotdot" "\<forall>x \<in> set xs. plain_elem x"
    by (auto simp: rel_stack_def)
  show ?thesis
  proof (cases xs)
    case Nil
    with xs show ?thesis
      by (cases n) (auto simp: clean_step_def)
  next
    case (Cons x xs')
    with xs have "x \<noteq> dotdot" by (simp add: plain_not_dotdot)
    with xs Cons show ?thesis
      by (auto simp: clean_step_def)
  qed
qed

lemma foldl_rooted_of_rel:
  "\<lbrakk>rel_stack st; \<forall>w \<in> set ws. slash \<notin> set w\<rbrakk> \<Longrightarrow>
     foldl (clean_step True) (takeWhile (\<lambda>x. x \<noteq> dotdot) st) ws =
     takeWhile (\<lambda>x. x \<noteq> dotdot) (foldl (clean_step False) st ws)"
proof (induction ws arbitrary: st)
  case Nil
  then show ?case by simp
next
  case (Cons w ws)
  from Cons.prems have w: "slash \<notin> set w" and ws: "\<forall>w \<in> set ws. slash \<notin> set w" by auto
  from Cons.prems(1) w have "rel_stack (clean_step False st w)" by (rule clean_step_rel_stack)
  from Cons.IH [OF this ws] show ?case
    by (simp only: foldl_Cons clean_step_rooted_of_rel [OF Cons.prems(1) w])
qed

lemma foldl_skip_dots:
  "foldl (clean_step True) [] (replicate n dotdot) = []"
  by (induction n) (auto simp: clean_step_def)

lemma rev_replicate_append: "rev (xs @ replicate n d) = replicate n d @ rev xs"
  by simp

lemma plain_no_slash: "plain_elem w \<Longrightarrow> slash \<notin> set w"
  by (simp add: plain_elem_def)

lemma rel_stack_no_slash: "rel_stack st \<Longrightarrow> x \<in> set st \<Longrightarrow> slash \<notin> set x"
  by (auto simp: rel_stack_def dotdot_def dest: plain_no_slash)

lemma clean_elems_slash_free:
  assumes "\<forall>w \<in> set ws. slash \<notin> set w"
  shows "\<forall>w \<in> set (clean_elems r ws). slash \<notin> set w"
proof (cases r)
  case True
  have "\<forall>x \<in> set (foldl (clean_step True) [] ws). plain_elem x"
    by (rule foldl_rooted_plain [OF _ assms]) simp
  then have "\<forall>w \<in> set (clean_elems True ws). slash \<notin> set w"
    unfolding clean_elems_def set_rev by (blast dest: plain_no_slash)
  then show ?thesis by (simp only: True)
next
  case False
  have "rel_stack (foldl (clean_step False) [] ws)"
    by (rule foldl_rel_stack [OF _ assms]) (simp add: rel_stack_def)
  then have "\<forall>w \<in> set (clean_elems False ws). slash \<notin> set w"
    unfolding clean_elems_def set_rev by (blast dest: rel_stack_no_slash)
  then show ?thesis by (simp only: False)
qed

lemma clean_elems_rooted_of_rel:
  assumes "\<forall>w \<in> set ws. slash \<notin> set w"
  shows "clean_elems True (clean_elems False ws) = clean_elems True ws"
proof -
  let ?st = "foldl (clean_step False) [] ws"
  have "rel_stack ?st" by (rule foldl_rel_stack) (auto simp: assms rel_stack_def)
  then obtain xs n where xs: "?st = xs @ replicate n dotdot" "\<forall>x \<in> set xs. plain_elem x"
    by (auto simp: rel_stack_def)
  have "foldl (clean_step True) [] ws = xs"
    using foldl_rooted_of_rel [of "[]" ws] assms xs by (auto simp: rel_stack_def takeWhile_plain_dots)
  moreover have "foldl (clean_step True) [] (rev ?st) = xs"
    using xs by (simp add: foldl_skip_dots foldl_push_plain)
  ultimately show ?thesis by (simp add: clean_elems_def)
qed

lemma clean_elems_rooted_idem:
  assumes "\<forall>w \<in> set ws. slash \<notin> set w"
  shows "clean_elems True (clean_elems True ws) = clean_elems True ws"
  using foldl_rooted_plain [of "[]" ws] assms
  by (intro clean_elems_plain) (auto simp: clean_elems_def)

lemma split_clean: "ws \<noteq> [] \<Longrightarrow> \<forall>w \<in> set ws. slash \<notin> set w \<Longrightarrow>
   split_slash (slash # join_slash ws) = [] # ws"
  by (simp add: split_join)

theorem resolve_clean: "resolve (path_clean p) = resolve p"
proof -
  let ?ws = "clean_elems (is_rooted p) (split_slash p)"
  have sf: "\<forall>w \<in> set (split_slash p). slash \<notin> set w" by (auto dest: split_slash_elems)
  then have free: "\<forall>w \<in> set ?ws. slash \<notin> set w" by (rule clean_elems_slash_free)
  have skip: "clean_elems True ([] # ws) = clean_elems True ws" for ws
    by (simp add: clean_elems_def)
  have nil: "clean_elems True [[]] = []" "clean_elems True [dot] = []"
    by (simp_all add: clean_elems_def)
  have same: "clean_elems True ?ws = clean_elems True (split_slash p)"
    using clean_elems_rooted_of_rel [OF sf] clean_elems_rooted_idem [OF sf] by (cases "is_rooted p") auto
  have dot: "split_slash dot = [dot]" by (simp add: dot_def)
  show ?thesis
  proof (cases "?ws = []")
    case True
    with same have "clean_elems True (split_slash p) = []" by (simp add: clean_elems_def)
    with True show ?thesis
      by (simp add: resolve_def path_clean_def nil dot clean_elems_def)
  next
    case False
    with free have "split_slash (join_slash ?ws) = ?ws" by (intro split_join)
    with False same show ?thesis
      by (cases "is_rooted p") (simp_all add: resolve_def path_clean_def Let_def skip)
  qed
qed

lemma resolve_append: "plain_elem w \<Longrightarrow> resolve (p @ slash # w) = resolve p @ [w]"
  by (simp add: resolve_def clean_elems_def split_slash_append split_slash_plain plain_elem_def
      clean_step_push)

lemma resolve_Nil [simp]: "resolve [] = []"
  by (simp add: resolve_def clean_elems_def)

lemma resolve_slash_end: "resolve (p @ [slash]) = resolve p"
  using split_slash_append [of p "[]"] by (simp add: resolve_def clean_elems_def)

text \<open>Joining a plain element under a directory denotes its child of that name.\<close>

lemma resolve_join: "p \<noteq> [] \<Longrightarrow> plain_elem w \<Longrightarrow> resolve (path_join [p, w]) = resolve p @ [w]"
  by (simp add: path_join_def resolve_clean resolve_append)

lemma resolve_join3:
  "p \<noteq> [] \<Longrightarrow> plain_elem v \<Longrightarrow> plain_elem w \<Longrightarrow> resolve (path_join [p, v, w]) = resolve p @ [v, w]"
  using resolve_append [of w "p @ slash # v"] by (simp add: path_join_def resolve_clean resolve_append)

text \<open>The parent directory of \<open>p/v/w\<close> is \<open>p/v\<close>, as a string too.\<close>

lemma is_rooted_append: "p \<noteq> [] \<Longrightarrow> is_rooted (p @ q) = is_rooted p"
  by (cases p) (auto simp: is_rooted_def)

lemma path_clean_slash_end: "p \<noteq> [] \<Longrightarrow> path_clean (p @ [slash]) = path_clean p"
  using split_slash_append [of p "[]"]
  by (simp add: path_clean_def is_rooted_append clean_elems_def)

lemma path_dir_child:
  "p \<noteq> [] \<Longrightarrow> slash \<notin> set w \<Longrightarrow> path_dir (p @ slash # v @ slash # w) = path_join [p, v]"
  using upto_last_slash_append [of w "p @ slash # v"] path_clean_slash_end [of "p @ slash # v"]
  by (simp add: path_dir_def path_join_def)

text \<open>A suffix of the last element can be added before or after the path is cleaned.\<close>

lemma clean_elems_snoc: "plain_elem w \<Longrightarrow> clean_elems r (ws @ [w]) = clean_elems r ws @ [w]"
  by (simp add: clean_elems_def)

lemma join_slash_snoc: "join_slash (ws @ [w]) @ x = join_slash (ws @ [w @ x])"
  by (induction ws) (simp_all add: join_slash_Cons)

lemma path_clean_suffix:
  assumes "p \<noteq> []" and "plain_elem w" and "plain_elem (w @ x)"
  shows "path_clean (p @ slash # w) @ x = path_clean (p @ slash # w @ x)"
proof -
  have sp: "split_slash (p @ slash # v) = split_slash p @ [v]" if "plain_elem v" for v
    using that by (simp add: split_slash_append split_slash_plain plain_elem_def)
  show ?thesis
    using assms join_slash_snoc sp [OF assms(2)] sp [OF assms(3)]
    by (simp add: path_clean_def is_rooted_append clean_elems_snoc Let_def)
qed

lemma resolve_join_suffix:
  "p \<noteq> [] \<Longrightarrow> plain_elem w \<Longrightarrow> plain_elem (w @ x) \<Longrightarrow> resolve (path_join [p, w] @ x) = resolve p @ [w @ x]"
  by (simp add: path_join_def path_clean_suffix resolve_clean resolve_append)

end
