(* ===== verification/Identity.thy ===== *)
theory Identity
  imports GoPath
begin

text \<open>
  \<open>daemon/internal/agent/identity.go\<close>: the checks on agent identifiers, the random tokens, and the
  names derived from an identifier (workspace directory, systemd unit). The regular expression is
  kept as a term with a backtracking matcher, and \<open>valid_id\<close> says declaratively which identifiers
  the three checks of \<open>ValidateID\<close> accept.
\<close>

section \<open>Regular expressions\<close>

text \<open>
  The fragment of RE2 the pattern uses: character classes, concatenation, alternation and the
  bounded repetition \<open>r{0,n}\<close>. The pattern is anchored at both ends, so \<open>MatchString\<close> asks
  whether the whole string matches.
\<close>

datatype rx = Eps | Cls "char \<Rightarrow> bool" | Cat rx rx | Alt rx rx

fun rx_upto :: "nat \<Rightarrow> rx \<Rightarrow> rx" where
  "rx_upto 0 r = Eps"
| "rx_upto (Suc n) r = Alt (Cat r (rx_upto n r)) Eps"

fun rx_match :: "rx \<Rightarrow> string \<Rightarrow> (string \<Rightarrow> bool) \<Rightarrow> bool" where
  "rx_match Eps s k = k s"
| "rx_match (Cls p) s k = (case s of [] \<Rightarrow> False | c # cs \<Rightarrow> p c \<and> k cs)"
| "rx_match (Cat a b) s k = rx_match a s (\<lambda>t. rx_match b t k)"
| "rx_match (Alt a b) s k = (rx_match a s k \<or> rx_match b s k)"

definition match_string :: "rx \<Rightarrow> string \<Rightarrow> bool" where
  "match_string r s = rx_match r s (\<lambda>t. t = [])"

fun rx_lang :: "rx \<Rightarrow> string set" where
  "rx_lang Eps = {[]}"
| "rx_lang (Cls p) = {[c] | c. p c}"
| "rx_lang (Cat a b) = {u @ v | u v. u \<in> rx_lang a \<and> v \<in> rx_lang b}"
| "rx_lang (Alt a b) = rx_lang a \<union> rx_lang b"

lemma split_off_one:
  "(\<exists>u v. s = u @ v \<and> (\<exists>c. u = [c] \<and> p c) \<and> k v) \<longleftrightarrow> (\<exists>c v. s = c # v \<and> p c \<and> k v)"
proof
  assume "\<exists>c v. s = c # v \<and> p c \<and> k v"
  then obtain c v where "s = [c] @ v" "p c" "k v" by auto
  then show "\<exists>u v. s = u @ v \<and> (\<exists>c. u = [c] \<and> p c) \<and> k v" by blast
qed auto

lemma rx_lang_Cls_Cat: "rx_lang (Cat (Cls p) r) = {c # v | c v. p c \<and> v \<in> rx_lang r}"
  by (simp add: set_eq_iff split_off_one)

lemma rx_lang_Cat_Cls: "rx_lang (Cat r (Cls p)) = {v @ [c] | c v. p c \<and> v \<in> rx_lang r}"
  unfolding rx_lang.simps by blast

lemma rx_match_iff: "rx_match r s k \<longleftrightarrow> (\<exists>u v. s = u @ v \<and> u \<in> rx_lang r \<and> k v)"
proof (induction r arbitrary: s k)
  case (Cls p)
  show ?case by (cases s) (auto simp: split_off_one)
next
  case (Cat a b)
  show ?case
  proof
    assume "rx_match (Cat a b) s k"
    then obtain u v w where "s = u @ v @ w" "u \<in> rx_lang a" "v \<in> rx_lang b" "k w"
      by (auto simp: Cat.IH)
    then have "s = (u @ v) @ w" "u @ v \<in> rx_lang (Cat a b)" "k w" by auto
    then show "\<exists>u v. s = u @ v \<and> u \<in> rx_lang (Cat a b) \<and> k v" by blast
  next
    assume "\<exists>u v. s = u @ v \<and> u \<in> rx_lang (Cat a b) \<and> k v"
    then obtain u v w where "s = u @ (v @ w)" "u \<in> rx_lang a" "v \<in> rx_lang b" "k w" by auto
    then show "rx_match (Cat a b) s k" by (simp only: rx_match.simps Cat.IH) blast
  qed
qed auto

lemma match_string_iff: "match_string r s \<longleftrightarrow> s \<in> rx_lang r"
  by (simp add: match_string_def rx_match_iff)

lemma rx_lang_upto: "rx_lang (rx_upto n (Cls p)) = {s. length s \<le> n \<and> (\<forall>c \<in> set s. p c)}"
proof (induction n)
  case 0
  then show ?case by auto
next
  case (Suc n)
  show ?case
  proof (rule set_eqI)
    fix s
    show "s \<in> rx_lang (rx_upto (Suc n) (Cls p)) \<longleftrightarrow>
        s \<in> {s. length s \<le> Suc n \<and> (\<forall>c \<in> set s. p c)}"
      by (cases s) (auto simp: Suc.IH rx_lang_Cls_Cat simp del: rx_lang.simps(3))
  qed
qed

section \<open>ValidateID\<close>

definition id_edge :: "char \<Rightarrow> bool" where
  "id_edge c \<longleftrightarrow> is_lower c \<or> is_digit c"

definition id_char :: "char \<Rightarrow> bool" where
  "id_char c \<longleftrightarrow> is_lower c \<or> is_digit c \<or> c = CHR ''-''"

definition valid_agent_id_pattern :: rx where
  "valid_agent_id_pattern = Cat (Cls id_edge) (Cat (rx_upto 62 (Cls id_char)) (Cls id_edge))"

datatype id_error = IDLength nat | IDPattern string | IDSeparators

definition validate_id :: "string \<Rightarrow> id_error + unit" where
  "validate_id i =
     (if length i < 2 \<or> length i > 64 then Inl (IDLength (length i))
      else if \<not> match_string valid_agent_id_pattern i then Inl (IDPattern i)
      else if str_contains i ''..'' \<or> str_contains i ''/'' then Inl IDSeparators
      else Inr ())"

text \<open>The identifiers that pass, declaratively.\<close>

definition valid_id :: "string \<Rightarrow> bool" where
  "valid_id i \<longleftrightarrow> 2 \<le> length i \<and> length i \<le> 64 \<and> id_edge (hd i) \<and> id_edge (last i) \<and>
     (\<forall>c \<in> set i. id_char c)"

lemma id_edge_char: "id_edge c \<Longrightarrow> id_char c"
  by (auto simp: id_edge_def id_char_def)

lemma id_char_not_special:
  assumes "id_char c"
  shows "c \<noteq> CHR ''/''" "c \<noteq> CHR ''.''" "c \<noteq> CHR ''_''" "c \<noteq> CHR 0x22"
  using assms by (auto simp: id_char_def is_lower_def is_digit_def byte_of_def)

lemma match_pattern_iff:
  "match_string valid_agent_id_pattern i \<longleftrightarrow> valid_id i"
proof -
  have "i \<in> rx_lang valid_agent_id_pattern \<longleftrightarrow>
      (\<exists>a m b. i = a # m @ [b] \<and> id_edge a \<and> id_edge b \<and> length m \<le> 62 \<and> (\<forall>c \<in> set m. id_char c))"
    unfolding valid_agent_id_pattern_def rx_lang_Cls_Cat rx_lang_Cat_Cls rx_lang_upto by auto
  also have "\<dots> \<longleftrightarrow> valid_id i"
  proof
    assume "\<exists>a m b. i = a # m @ [b] \<and> id_edge a \<and> id_edge b \<and> length m \<le> 62 \<and>
      (\<forall>c \<in> set m. id_char c)"
    then show "valid_id i" by (auto simp: valid_id_def id_edge_char)
  next
    assume v: "valid_id i"
    then have "2 \<le> length i" by (simp add: valid_id_def)
    then obtain a t where i: "i = a # t" "t \<noteq> []" by (cases i; cases "tl i") auto
    then obtain m b where t: "t = m @ [b]" by (metis rev_exhaust)
    with v i show "\<exists>a m b. i = a # m @ [b] \<and> id_edge a \<and> id_edge b \<and> length m \<le> 62 \<and>
      (\<forall>c \<in> set m. id_char c)"
      by (auto simp: valid_id_def)
  qed
  finally show ?thesis by (simp add: match_string_iff)
qed

lemma valid_id_chars: "valid_id i \<Longrightarrow> c \<in> set i \<Longrightarrow> id_char c"
  by (simp add: valid_id_def)

lemma valid_id_no_char:
  assumes "valid_id i"
  shows "CHR ''/'' \<notin> set i" "CHR ''.'' \<notin> set i" "CHR ''_'' \<notin> set i"
  using valid_id_chars [OF assms] id_char_not_special by blast+

lemma valid_id_no_traversal:
  assumes "valid_id i"
  shows "\<not> str_contains i ''..''" "\<not> str_contains i ''/''"
  using valid_id_no_char [OF assms] str_contains_subset [of i "''..''"] str_contains_subset [of i "''/''"]
  by auto

lemma validate_id_Inr: "validate_id i = Inr u \<longleftrightarrow> valid_id i"
  by (auto simp: validate_id_def match_pattern_iff valid_id_no_traversal) (auto simp: valid_id_def)

lemma validate_id_ok: "is_ok (validate_id i) \<longleftrightarrow> valid_id i"
  using validate_id_Inr [of i "()"] by (cases "validate_id i") auto

lemma valid_id_plain: "valid_id i \<Longrightarrow> plain_elem i"
  using valid_id_no_char [of i]
  by (auto simp: plain_elem_def dot_def dotdot_def valid_id_def)

section \<open>Tokens\<close>

text \<open>
  \<open>crypto/rand\<close> is an argument: asked for \<open>n\<close> bytes it fails or fills the buffer. The error is
  only passed on.
\<close>

datatype 'e token_error = GeneratingToken 'e

definition hex_digits :: string where
  "hex_digits = ''0123456789abcdef''"

definition hex_digit :: "nat \<Rightarrow> char" where
  "hex_digit n = hex_digits ! n"

definition hex_value :: "char \<Rightarrow> nat option" where
  "hex_value c =
     (if is_digit c then Some (byte_of c - 48)
      else if 97 \<le> byte_of c \<and> byte_of c \<le> 102 then Some (byte_of c - 87)
      else if 65 \<le> byte_of c \<and> byte_of c \<le> 70 then Some (byte_of c - 55)
      else None)"

fun hex_encode :: "8 word list \<Rightarrow> string" where
  "hex_encode [] = []"
| "hex_encode (b # bs) = hex_digit (unat (drop_bit 4 b)) # hex_digit (unat (take_bit 4 b)) # hex_encode bs"

text \<open>\<open>hex.DecodeString\<close>, the reader of such tokens.\<close>

fun hex_decode :: "string \<Rightarrow> 8 word list option" where
  "hex_decode [] = Some []"
| "hex_decode [c] = None"
| "hex_decode (c # d # cs) =
     (case (hex_value c, hex_value d, hex_decode cs) of
        (Some h, Some l, Some bs) \<Rightarrow> Some (word_of_nat (16 * h + l) # bs)
      | _ \<Rightarrow> None)"

definition generate_token :: "(nat \<Rightarrow> 'e + 8 word list) \<Rightarrow> 'e token_error + string" where
  "generate_token rand =
     (case rand 32 of Inl e \<Rightarrow> Inl (GeneratingToken e) | Inr b \<Rightarrow> Inr (hex_encode b))"

lemma hex_value_digit: "n < 16 \<Longrightarrow> hex_value (hex_digit n) = Some n"
proof -
  have "\<forall>n \<in> set [0..<16]. hex_value (hex_digit n) = Some n" by code_simp
  then show "n < 16 \<Longrightarrow> hex_value (hex_digit n) = Some n" by simp
qed

lemma length_hex_encode [simp]: "length (hex_encode bs) = 2 * length bs"
  by (induction bs) auto

lemma byte_nibbles:
  "unat (drop_bit 4 (b :: 8 word)) < 16" "unat (take_bit 4 b) < 16"
  "word_of_nat (16 * unat (drop_bit 4 b) + unat (take_bit 4 b)) = b"
proof -
  have d: "unat (drop_bit 4 b) = unat b div 16"
    unfolding unat_drop_bit_eq by (simp add: drop_bit_eq_div)
  have t: "unat (take_bit 4 b) = unat b mod 16"
    unfolding unsigned_take_bit_eq by (simp add: take_bit_eq_mod)
  have "unat b < 256" using unsigned_less [of b] by simp
  then show "unat (drop_bit 4 b) < 16" "unat (take_bit 4 b) < 16" by (simp_all add: d t)
  show "word_of_nat (16 * unat (drop_bit 4 b) + unat (take_bit 4 b)) = b"
    unfolding d t mult_div_mod_eq by simp
qed

lemma hex_decode_encode: "hex_decode (hex_encode bs) = Some bs"
  by (induction bs) (simp_all add: hex_value_digit byte_nibbles del: of_nat_add of_nat_mult)

lemma hex_encode_inject: "hex_encode bs = hex_encode cs \<Longrightarrow> bs = cs"
  by (metis hex_decode_encode option.inject)

section \<open>Derived names\<close>

definition workspace_path :: "string \<Rightarrow> string \<Rightarrow> string" where
  "workspace_path workspaceRoot agentID = workspaceRoot @ ''/'' @ agentID @ ''/workspace''"

definition systemd_unit_name :: "string \<Rightarrow> string" where
  "systemd_unit_name agentID = ''atomic-sandbox-'' @ agentID @ ''.service''"

lemma systemd_unit_name_inject [simp]: "systemd_unit_name a = systemd_unit_name b \<longleftrightarrow> a = b"
  by (simp add: systemd_unit_name_def)

lemma workspace_path_inject [simp]: "workspace_path r a = workspace_path r b \<longleftrightarrow> a = b"
  by (simp add: workspace_path_def)

lemma plain_workspace: "plain_elem ''workspace''"
  by (simp add: plain_elem_def dot_def dotdot_def)

lemma resolve_workspace_path:
  "valid_id i \<Longrightarrow> resolve (workspace_path r i) = resolve r @ [i, ''workspace'']"
  using resolve_append [OF plain_workspace, of "r @ slash # i"] resolve_append [OF valid_id_plain, of i r]
  by (simp add: workspace_path_def)

lemma dir_workspace_path:
  "r \<noteq> [] \<Longrightarrow> path_dir (workspace_path r i) = path_join [r, i]"
  using path_dir_child [of r "''workspace''" i] by (simp add: workspace_path_def)

lemma resolve_dir_workspace_path:
  "r \<noteq> [] \<Longrightarrow> valid_id i \<Longrightarrow> resolve (path_dir (workspace_path r i)) = resolve r @ [i]"
  by (simp add: dir_workspace_path resolve_join valid_id_plain)

section \<open>Properties\<close>

text \<open>
  C27. \<open>ValidateID\<close> decides exactly the documented language: 2 to 64 characters, lower-case letters,
  digits and hyphens, a letter or digit at both ends. The length is reported first, every other
  rejection is a pattern mismatch, and the last check (path separators) can never fail.
\<close>

theorem validate_id_decides:
  "validate_id i =
     (if length i < 2 \<or> length i > 64 then Inl (IDLength (length i))
      else if id_edge (hd i) \<and> id_edge (last i) \<and> (\<forall>c \<in> set i. id_char c) then Inr ()
      else Inl (IDPattern i))"
proof (cases "valid_id i")
  case True
  then have "validate_id i = Inr ()" by (simp add: validate_id_Inr)
  with True show ?thesis by (simp add: valid_id_def)
next
  case False
  then show ?thesis by (auto simp: validate_id_def match_pattern_iff) (simp_all add: valid_id_def)
qed

lemma validate_id_decides_witness:
  "validate_id ''agent-7'' = Inr () \<and> validate_id ''../x'' = Inl (IDPattern ''../x'') \<and> validate_id ''a'' = Inl (IDLength 1)"
  by (simp add: validate_id_decides id_edge_def id_char_def is_lower_def is_digit_def byte_of_def)

text \<open>
  C12. Accepted identifiers keep agents apart on disk: the workspace of an accepted identifier is the
  directory \<open>workspace\<close> of a child of the workspace root named by the identifier, whatever the root
  is, and for two different identifiers neither agent's directory contains the other's workspace.
\<close>

theorem workspaces_disjoint:
  assumes "validate_id i = Inr ()" and "validate_id j = Inr ()" and "i \<noteq> j"
  shows "resolve (workspace_path root i) = resolve root @ [i, ''workspace''] \<and>
    \<not> prefix (resolve root @ [i]) (resolve (workspace_path root j))"
  using assms by (simp add: validate_id_Inr resolve_workspace_path)

lemma workspaces_disjoint_witness:
  "\<not> prefix (resolve ''/var/lib/atomic/agents'' @ [''a1'']) (resolve (workspace_path ''/var/lib/atomic/agents'' ''b1''))"
proof -
  have "validate_id ''a1'' = Inr ()" "validate_id ''b1'' = Inr ()" by code_simp+
  from workspaces_disjoint [OF this, of "''/var/lib/atomic/agents''"] show ?thesis by simp
qed

text \<open>
  C40. An agent token is 64 lower-case hexadecimal digits that stand for the 32 random bytes: the
  token decodes to exactly the bytes drawn, so different draws give different tokens.
\<close>

theorem token_stands_for_bytes:
  assumes "generate_token rand = Inr tok" and "\<And>n b. rand n = Inr b \<Longrightarrow> length b = n"
  shows "length tok = 64 \<and> (\<exists>b. rand 32 = Inr b \<and> hex_decode tok = Some b)"
  using assms by (auto simp: generate_token_def hex_decode_encode split: sum.splits)

lemma token_stands_for_bytes_witness:
  "\<exists>tok. (generate_token (\<lambda>n. Inr (replicate n 7)) :: string token_error + string) = Inr tok \<and> length tok = 64"
proof -
  let ?rand = "\<lambda>n. Inr (replicate n 7) :: string + 8 word list"
  have "generate_token ?rand = Inr (hex_encode (replicate 32 7))" by (simp add: generate_token_def)
  with token_stands_for_bytes [of ?rand] show ?thesis by auto
qed

end
