(* ===== verification/OsModel.thy ===== *)
theory OsModel
  imports GoPath
begin

text \<open>
  The operating system as the daemon sees it through package \<open>os\<close>: a tree of directories and
  files, a log of the commands it ran, and a stream of faults. Every call consumes one fault, so a
  theorem that quantifies over the state quantifies over every pattern of failing calls. Names are
  Go strings; they are resolved lexically (there are no symbolic links under the daemon's
  directories, and its working directory is the root).
\<close>

section \<open>State\<close>

datatype io_error = ENOENT | EEXIST | ENOTDIR | EISDIR | EINVAL | EIO string

datatype node = DirNode nat | FileNode nat string

text \<open>
  A call may work, fail with an error of the environment before doing anything, or fail after \<open>n\<close>
  bytes (or entries). What the tree itself makes of a call (no such file, file exists) is not a
  fault.
\<close>

datatype fault = Works | Fails string | FailsAfter nat string

text \<open>A permission, by its octal digits.\<close>

definition oct :: "nat \<Rightarrow> nat \<Rightarrow> nat \<Rightarrow> nat" where
  "oct u g x = 64 * u + 8 * g + x"

record os =
  os_files :: "(path \<times> node) list"
  os_faults :: "nat \<Rightarrow> fault"
  os_calls :: nat
  os_cmds :: "string list list"

fun fault_error :: "fault \<Rightarrow> io_error option" where
  "fault_error Works = None"
| "fault_error (Fails e) = Some (EIO e)"
| "fault_error (FailsAfter n e) = Some (EIO e)"

definition os_look :: "os \<Rightarrow> path \<Rightarrow> node option" where
  "os_look s p = (if p = [] then Some (DirNode (oct 7 5 5)) else map_of (os_files s) p)"

definition os_wf :: "os \<Rightarrow> bool" where
  "os_wf s \<longleftrightarrow> distinct (map fst (os_files s)) \<and> [] \<notin> fst ` set (os_files s)"

fun is_dir :: "node option \<Rightarrow> bool" where
  "is_dir (Some (DirNode m)) = True"
| "is_dir _ = False"

definition tick :: "os \<Rightarrow> fault \<times> os" where
  "tick s = (os_faults s (os_calls s), s\<lparr>os_calls := Suc (os_calls s)\<rparr>)"

definition put_node :: "path \<Rightarrow> node \<Rightarrow> os \<Rightarrow> os" where
  "put_node p n s = s\<lparr>os_files := AList.update p n (os_files s)\<rparr>"

definition drop_node :: "path \<Rightarrow> os \<Rightarrow> os" where
  "drop_node p s = s\<lparr>os_files := AList.delete p (os_files s)\<rparr>"

text \<open>What is wrong with the directory a new entry would be made in.\<close>

fun walk_error :: "os \<Rightarrow> path list \<Rightarrow> io_error option" where
  "walk_error s [] = None"
| "walk_error s (p # ps) =
     (case os_look s p of
        None \<Rightarrow> Some ENOENT
      | Some (DirNode m) \<Rightarrow> walk_error s ps
      | Some (FileNode m c) \<Rightarrow> Some ENOTDIR)"

definition parent_error :: "os \<Rightarrow> path \<Rightarrow> io_error option" where
  "parent_error s p = walk_error s (prefixes (butlast p))"

section \<open>Calls\<close>

definition os_mkdir_at :: "path \<Rightarrow> nat \<Rightarrow> os \<Rightarrow> (io_error + unit) \<times> os" where
  "os_mkdir_at p mode s =
     (let (f, s1) = tick s in
      case fault_error f of Some e \<Rightarrow> (Inl e, s1)
      | None \<Rightarrow>
        if os_look s1 p \<noteq> None then (Inl EEXIST, s1)
        else (case parent_error s1 p of
            Some e \<Rightarrow> (Inl e, s1)
          | None \<Rightarrow> (Inr (), put_node p (DirNode mode) s1)))"

definition os_mkdir :: "string \<Rightarrow> nat \<Rightarrow> os \<Rightarrow> (io_error + unit) \<times> os" where
  "os_mkdir name mode s = os_mkdir_at (resolve name) mode s"

text \<open>\<open>os.MkdirAll\<close> makes the missing ones among the directory and its ancestors, outermost first.\<close>

fun os_mkdir_each :: "path list \<Rightarrow> nat \<Rightarrow> os \<Rightarrow> (io_error + unit) \<times> os" where
  "os_mkdir_each [] mode s = (Inr (), s)"
| "os_mkdir_each (p # ps) mode s =
     (case os_look s p of
        Some (DirNode m) \<Rightarrow> os_mkdir_each ps mode s
      | Some (FileNode m c) \<Rightarrow> (Inl ENOTDIR, s)
      | None \<Rightarrow> (case os_mkdir_at p mode s of
          (Inl e, s1) \<Rightarrow> (Inl e, s1)
        | (Inr _, s1) \<Rightarrow> os_mkdir_each ps mode s1))"

definition os_mkdir_all :: "string \<Rightarrow> nat \<Rightarrow> os \<Rightarrow> (io_error + unit) \<times> os" where
  "os_mkdir_all name mode s = os_mkdir_each (tl (prefixes (resolve name))) mode s"

text \<open>\<open>os.WriteFile\<close> truncates the file, then writes: a late fault leaves a shorter file.\<close>

definition file_mode :: "nat \<Rightarrow> node option \<Rightarrow> nat" where
  "file_mode mode n = (case n of Some (FileNode m c) \<Rightarrow> m | _ \<Rightarrow> mode)"

definition os_write_file :: "string \<Rightarrow> string \<Rightarrow> nat \<Rightarrow> os \<Rightarrow> (io_error + unit) \<times> os" where
  "os_write_file name data mode s =
     (let (f, s1) = tick s; p = resolve name; m = file_mode mode (os_look s1 p) in
      if is_dir (os_look s1 p) then (Inl EISDIR, s1)
      else (case parent_error s1 p of Some e \<Rightarrow> (Inl e, s1)
        | None \<Rightarrow> (case f of
            Works \<Rightarrow> (Inr (), put_node p (FileNode m data) s1)
          | Fails e \<Rightarrow> (Inl (EIO e), s1)
          | FailsAfter n e \<Rightarrow> (Inl (EIO e), put_node p (FileNode m (take n data)) s1))))"

definition os_read_file :: "string \<Rightarrow> os \<Rightarrow> (io_error + string) \<times> os" where
  "os_read_file name s =
     (let (f, s1) = tick s in
      case os_look s1 (resolve name) of
        None \<Rightarrow> (Inl (case parent_error s1 (resolve name) of Some e \<Rightarrow> e | None \<Rightarrow> ENOENT), s1)
      | Some (DirNode m) \<Rightarrow> (Inl EISDIR, s1)
      | Some (FileNode m c) \<Rightarrow> (case fault_error f of Some e \<Rightarrow> (Inl e, s1) | None \<Rightarrow> (Inr c, s1)))"

text \<open>\<open>os.Rename\<close> of a file, the only kind the daemon renames.\<close>

definition os_rename :: "string \<Rightarrow> string \<Rightarrow> os \<Rightarrow> (io_error + unit) \<times> os" where
  "os_rename old new s =
     (let (f, s1) = tick s in
      case fault_error f of Some e \<Rightarrow> (Inl e, s1)
      | None \<Rightarrow> (case os_look s1 (resolve old) of
          Some (FileNode m c) \<Rightarrow>
            if is_dir (os_look s1 (resolve new)) then (Inl EEXIST, s1)
            else (case parent_error s1 (resolve new) of
                Some e \<Rightarrow> (Inl e, s1)
              | None \<Rightarrow> (Inr (), put_node (resolve new) (FileNode m c) (drop_node (resolve old) s1)))
        | Some (DirNode m) \<Rightarrow> (Inl EISDIR, s1)
        | None \<Rightarrow> (Inl ENOENT, s1)))"

text \<open>
  \<open>os.RemoveAll\<close>: nothing for the empty name, \<open>EINVAL\<close> for a name that ends in a dot element. A
  late fault has removed some of the entries below, newest first.
\<close>

definition ends_with_dot :: "string \<Rightarrow> bool" where
  "ends_with_dot name \<longleftrightarrow> name = dot \<or> suffix (slash # dot) name"

definition below :: "path \<Rightarrow> os \<Rightarrow> path list" where
  "below p s = filter (prefix p) (map fst (os_files s))"

definition remove_paths :: "path list \<Rightarrow> os \<Rightarrow> os" where
  "remove_paths ps s = s\<lparr>os_files := filter (\<lambda>e. fst e \<notin> set ps) (os_files s)\<rparr>"

definition os_remove_all :: "string \<Rightarrow> os \<Rightarrow> (io_error + unit) \<times> os" where
  "os_remove_all name s =
     (if name = [] then (Inr (), s)
      else if ends_with_dot name then (Inl EINVAL, s)
      else (let (f, s1) = tick s; ps = below (resolve name) s1 in
        case f of
          Works \<Rightarrow> (Inr (), remove_paths ps s1)
        | Fails e \<Rightarrow> (Inl (EIO e), s1)
        | FailsAfter n e \<Rightarrow> (Inl (EIO e), remove_paths (take n (rev ps)) s1)))"

text \<open>\<open>os.Remove\<close>: a file or an empty directory.\<close>

definition os_remove :: "string \<Rightarrow> os \<Rightarrow> (io_error + unit) \<times> os" where
  "os_remove name s =
     (let (f, s1) = tick s; p = resolve name in
      case fault_error f of Some e \<Rightarrow> (Inl e, s1)
      | None \<Rightarrow>
          if name = [] \<or> os_look s1 p = None then (Inl ENOENT, s1)
          else if p = [] then (Inl (EIO ''device or resource busy''), s1)
          else if filter (\<lambda>q. q \<noteq> p) (below p s1) \<noteq> [] then (Inl (EIO ''directory not empty''), s1)
          else (Inr (), drop_node p s1))"

definition os_stat :: "string \<Rightarrow> os \<Rightarrow> (io_error + node) \<times> os" where
  "os_stat name s =
     (let (f, s1) = tick s in
      case fault_error f of Some e \<Rightarrow> (Inl e, s1)
      | None \<Rightarrow> (case os_look s1 (resolve name) of None \<Rightarrow> (Inl ENOENT, s1) | Some n \<Rightarrow> (Inr n, s1)))"

text \<open>\<open>os.OpenFile\<close> with \<open>O_APPEND|O_CREATE|O_WRONLY\<close>.\<close>

definition os_open_append :: "string \<Rightarrow> nat \<Rightarrow> os \<Rightarrow> (io_error + unit) \<times> os" where
  "os_open_append name mode s =
     (let (f, s1) = tick s; p = resolve name in
      case fault_error f of Some e \<Rightarrow> (Inl e, s1)
      | None \<Rightarrow> (case os_look s1 p of
          Some (DirNode m) \<Rightarrow> (Inl EISDIR, s1)
        | Some (FileNode m c) \<Rightarrow> (Inr (), s1)
        | None \<Rightarrow> (case parent_error s1 p of
            Some e \<Rightarrow> (Inl e, s1)
          | None \<Rightarrow> (Inr (), put_node p (FileNode mode []) s1))))"

text \<open>\<open>exec.Command\<close>: the argument vector is recorded; the result is only logged.\<close>

definition os_exec :: "string list \<Rightarrow> os \<Rightarrow> (io_error + unit) \<times> os" where
  "os_exec argv s =
     (let (f, s1) = tick s; s2 = s1\<lparr>os_cmds := os_cmds s1 @ [argv]\<rparr> in
      case fault_error f of Some e \<Rightarrow> (Inl e, s2) | None \<Rightarrow> (Inr (), s2))"

text \<open>
  \<open>filepath.Glob\<close> for the two patterns the daemon uses, in a directory whose name has no pattern
  characters: the entries of one directory, sorted, that end in \<open>.rego\<close>, and those of each
  entry of a directory (the doubled star is a star to this library). It ignores the errors of reading a
  directory: then it sees only some of the entries, or none.
\<close>

definition dir_names :: "path \<Rightarrow> os \<Rightarrow> string list" where
  "dir_names p s =
     (if is_dir (os_look s p)
      then sort (map (last \<circ> fst) (filter (\<lambda>e. fst e \<noteq> [] \<and> butlast (fst e) = p) (os_files s))) else [])"

fun entries_read :: "fault \<Rightarrow> 'a list \<Rightarrow> 'a list" where
  "entries_read Works xs = xs"
| "entries_read (Fails e) xs = []"
| "entries_read (FailsAfter n e) xs = take n xs"

definition glob_dir :: "string \<Rightarrow> os \<Rightarrow> string list \<times> os" where
  "glob_dir dir s =
     (let (f, s1) = tick s in
      (map (\<lambda>n. path_join [dir, n]) (entries_read f (dir_names (resolve dir) s1)), s1))"

definition glob_rego :: "string \<Rightarrow> os \<Rightarrow> string list \<times> os" where
  "glob_rego dir s = (let (fs, s1) = glob_dir dir s in (filter (suffix ''.rego'') fs, s1))"

fun glob_each :: "string list \<Rightarrow> os \<Rightarrow> string list \<times> os" where
  "glob_each [] s = ([], s)"
| "glob_each (d # ds) s =
     (let (fs, s1) = glob_rego d s; (gs, s2) = glob_each ds s1 in (fs @ gs, s2))"

definition glob_rego_below :: "string \<Rightarrow> os \<Rightarrow> string list \<times> os" where
  "glob_rego_below dir s = (let (ds, s1) = glob_dir dir s in glob_each ds s1)"

section \<open>What the calls do to the tree\<close>

lemma put_node_wf [intro]: "os_wf s \<Longrightarrow> p \<noteq> [] \<Longrightarrow> os_wf (put_node p n s)"
  by (auto simp: os_wf_def put_node_def distinct_update dom_update)

lemma drop_node_wf [intro]: "os_wf s \<Longrightarrow> os_wf (drop_node p s)"
  by (auto simp: os_wf_def drop_node_def distinct_delete set_delete)

lemma remove_paths_wf [intro]: "os_wf s \<Longrightarrow> os_wf (remove_paths ps s)"
  by (auto simp: os_wf_def remove_paths_def distinct_map_filter)

lemma tick_files [simp]: "os_files (snd (tick s)) = os_files s"
  by (simp add: tick_def)

lemma os_wf_more [simp]:
  "os_wf (s\<lparr>os_calls := n\<rparr>) = os_wf s" "os_wf (s\<lparr>os_cmds := cs\<rparr>) = os_wf s"
  by (simp_all add: os_wf_def)

lemma os_look_more [simp]:
  "os_look (s\<lparr>os_calls := n\<rparr>) = os_look s" "os_look (s\<lparr>os_cmds := cs\<rparr>) = os_look s"
  by (simp_all add: os_look_def fun_eq_iff)

lemma os_look_put [simp]: "p \<noteq> [] \<Longrightarrow> os_look (put_node p n s) = (os_look s)(p \<mapsto> n)"
  by (auto simp: os_look_def put_node_def)

lemma os_look_drop [simp]: "p \<noteq> [] \<Longrightarrow> os_look (drop_node p s) = (os_look s)(p := None)"
  by (auto simp: os_look_def drop_node_def)

lemma map_of_filter_key: "map_of (filter (\<lambda>e. P (fst e)) al) k = (if P k then map_of al k else None)"
  by (induction al) auto

lemma os_look_remove [simp]:
  "os_look (remove_paths ps s) p = (if p \<noteq> [] \<and> p \<in> set ps then None else os_look s p)"
  using map_of_filter_key [of "\<lambda>p. p \<notin> set ps" "os_files s" p] by (simp add: os_look_def remove_paths_def)

lemma os_look_Nil [simp]: "os_look s [] = Some (DirNode (oct 7 5 5))"
  by (simp add: os_look_def)

lemma not_dir_not_Nil: "\<not> is_dir (os_look s p) \<Longrightarrow> p \<noteq> []"
  by auto

lemma tick_simps [simp]:
  "os_look (snd (tick s)) = os_look s" "os_wf (snd (tick s)) = os_wf s"
  "os_cmds (snd (tick s)) = os_cmds s"
  by (simp_all add: tick_def)

lemma walk_error_cong: "os_look s = os_look t \<Longrightarrow> walk_error s ps = walk_error t ps"
  by (induction ps) (auto split: option.splits node.splits)

lemma walk_error_kind: "walk_error s ps = Some e \<Longrightarrow> e = ENOENT \<or> e = ENOTDIR"
  by (induction ps) (auto split: option.splits node.splits)

lemma parent_error_kind: "parent_error s p = Some e \<Longrightarrow> e = ENOENT \<or> e = ENOTDIR"
  unfolding parent_error_def by (rule walk_error_kind)

lemma parent_error_tick [simp]: "parent_error (snd (tick s)) p = parent_error s p"
  using walk_error_cong [of "snd (tick s)" s] by (simp add: parent_error_def)

lemmas os_splits = prod.splits option.splits node.splits fault.splits if_splits

lemma write_result:
  assumes "os_write_file n d m s = (r, s')"
  obtains (unchanged) e where "r = Inl e" "os_look s' = os_look s"
  | (partial) e k where "r = Inl e" "resolve n \<noteq> []"
      "os_look s' = (os_look s)(resolve n \<mapsto> FileNode (file_mode m (os_look s (resolve n))) (take k d))"
  | (written) "r = Inr ()" "resolve n \<noteq> []"
      "os_look s' = (os_look s)(resolve n \<mapsto> FileNode (file_mode m (os_look s (resolve n))) d)"
proof (cases "is_dir (os_look s (resolve n)) \<or> parent_error s (resolve n) \<noteq> None")
  case True
  with assms obtain e where "r = Inl e" "s' = snd (tick s)"
    by (auto simp: os_write_file_def Let_def case_prod_unfold split: if_splits)
  then show ?thesis using unchanged [of e] by simp
next
  case False
  then have "resolve n \<noteq> []" by (auto dest: not_dir_not_Nil)
  with False assms show ?thesis
    by (cases "fst (tick s)")
      (auto simp: os_write_file_def Let_def case_prod_unfold intro: unchanged partial written)
qed

lemma write_wf: "os_wf s \<Longrightarrow> os_wf (snd (os_write_file n d m s))"
  by (auto simp: os_write_file_def Let_def case_prod_unfold dest: not_dir_not_Nil
      split: option.splits fault.splits)

lemma write_other:
  assumes "q \<noteq> resolve n"
  shows "os_look (snd (os_write_file n d m s)) q = os_look s q"
proof (cases "os_write_file n d m s")
  case (Pair r s')
  then show ?thesis by (rule write_result) (use Pair assms in simp_all)
qed

lemma rename_result:
  assumes "os_rename a b s = (r, s')"
  obtains (failed) e where "r = Inl e" "os_look s' = os_look s"
  | (renamed) m c where "r = Inr ()" "os_look s (resolve a) = Some (FileNode m c)"
      "resolve a \<noteq> []" "resolve b \<noteq> []"
      "os_look s' = (os_look s)(resolve a := None, resolve b \<mapsto> FileNode m c)"
proof (cases "resolve a = [] \<or> resolve b = []")
  case True
  with assms failed show ?thesis
    by (auto simp: os_rename_def Let_def case_prod_unfold split: os_splits)
next
  case False
  with assms show ?thesis
    by (auto simp: os_rename_def Let_def case_prod_unfold intro: failed renamed split: os_splits)
qed

lemma rename_wf: "os_wf s \<Longrightarrow> os_wf (snd (os_rename a b s))"
  by (cases "resolve b = []")
    (auto simp: os_rename_def Let_def case_prod_unfold intro!: put_node_wf drop_node_wf
      split: option.splits node.splits)

lemma rename_other:
  assumes "q \<noteq> resolve a" and "q \<noteq> resolve b"
  shows "os_look (snd (os_rename a b s)) q = os_look s q"
proof (cases "os_rename a b s")
  case (Pair r s')
  then show ?thesis by (rule rename_result) (use Pair assms in simp_all)
qed

lemma read_look [simp]: "os_look (snd (os_read_file n s)) = os_look s"
  by (simp add: os_read_file_def Let_def case_prod_unfold split: option.splits node.splits)

lemma read_wf [simp]: "os_wf (snd (os_read_file n s)) = os_wf s"
  by (simp add: os_read_file_def Let_def case_prod_unfold split: option.splits node.splits)

lemma read_content:
  "os_read_file n s = (Inr c, s') \<Longrightarrow> \<exists>m. os_look s (resolve n) = Some (FileNode m c)"
  by (auto simp: os_read_file_def Let_def case_prod_unfold split: option.splits node.splits)

lemma mkdir_at_wf: "os_wf s \<Longrightarrow> os_wf (snd (os_mkdir_at p m s))"
  by (auto simp: os_mkdir_at_def Let_def case_prod_unfold split: option.splits)

lemma mkdir_at_look:
  "os_look (snd (os_mkdir_at p m s)) = os_look s \<or>
     os_look s p = None \<and> os_look (snd (os_mkdir_at p m s)) = (os_look s)(p \<mapsto> DirNode m)"
  by (cases "p = []") (auto simp: os_mkdir_at_def Let_def case_prod_unfold split: option.splits)

lemma mkdir_each_Cons:
  "snd (os_mkdir_each (p # ps) m s) = s \<or>
   snd (os_mkdir_each (p # ps) m s) = snd (os_mkdir_each ps m s) \<or>
   snd (os_mkdir_each (p # ps) m s) = snd (os_mkdir_at p m s) \<or>
   snd (os_mkdir_each (p # ps) m s) = snd (os_mkdir_each ps m (snd (os_mkdir_at p m s)))"
proof (cases "os_look s p")
  case None
  then show ?thesis
    by (cases "os_mkdir_at p m s"; cases "fst (os_mkdir_at p m s)") simp_all
next
  case (Some n)
  then show ?thesis by (cases n) simp_all
qed

lemma mkdir_each_wf: "os_wf s \<Longrightarrow> os_wf (snd (os_mkdir_each ps m s))"
proof (induction ps arbitrary: s)
  case (Cons p ps)
  then show ?case using mkdir_at_wf [OF Cons.prems, of p m] mkdir_each_Cons [of p ps m s]
    by (metis Cons.IH)
qed simp

lemma mkdir_each_keeps: "os_look s q = Some n \<Longrightarrow> os_look (snd (os_mkdir_each ps m s)) q = Some n"
proof (induction ps arbitrary: s)
  case (Cons p ps)
  have "os_look (snd (os_mkdir_at p m s)) q = Some n"
    using mkdir_at_look [of p m s] Cons.prems by auto
  then show ?case using Cons.IH Cons.prems mkdir_each_Cons [of p ps m s] by metis
qed simp

lemma mkdir_each_new:
  "q \<notin> set ps \<Longrightarrow> os_look (snd (os_mkdir_each ps m s)) q = os_look s q"
proof (induction ps arbitrary: s)
  case (Cons p ps)
  have "os_look (snd (os_mkdir_at p m s)) q = os_look s q"
    using mkdir_at_look [of p m s] Cons.prems by auto
  then show ?case using Cons.IH Cons.prems mkdir_each_Cons [of p ps m s]
    by (metis list.set_intros(2))
qed simp

lemma mkdir_each_fresh:
  "os_look s q = None \<Longrightarrow>
     os_look (snd (os_mkdir_each ps m s)) q = None \<or> os_look (snd (os_mkdir_each ps m s)) q = Some (DirNode m)"
proof (induction ps arbitrary: s)
  case (Cons p ps)
  have "os_look (snd (os_mkdir_at p m s)) q = None \<or> os_look (snd (os_mkdir_at p m s)) q = Some (DirNode m)"
    using mkdir_at_look [of p m s] Cons.prems by auto
  then show ?case
    using Cons mkdir_each_Cons [of p ps m s] mkdir_each_keeps [of "snd (os_mkdir_at p m s)" q "DirNode m" ps m] by metis
qed simp

lemma remove_all_wf: "os_wf s \<Longrightarrow> os_wf (snd (os_remove_all n s))"
  by (auto simp: os_remove_all_def Let_def case_prod_unfold split: fault.splits)

lemma remove_all_outside:
  assumes "\<not> prefix (resolve n) q"
  shows "os_look (snd (os_remove_all n s)) q = os_look s q"
  using assms
  by (auto simp: os_remove_all_def Let_def case_prod_unfold below_def dest: in_set_takeD split: fault.splits)

lemma remove_all_gone:
  assumes "os_remove_all n s = (Inr u, s')" and "n \<noteq> []" and "q \<noteq> []" and "prefix (resolve n) q"
  shows "os_look s' q = None"
  using assms
  by (auto simp: os_remove_all_def Let_def case_prod_unfold below_def os_look_def map_of_eq_None_iff remove_paths_def image_iff
      split: fault.splits if_splits) auto

section \<open>The interface of a file store\<close>

text \<open>
  What the registry needs of the file system: a completed write is read back, a rename moves the
  contents or does nothing, and neither touches other files. Writing to a temporary name and
  renaming it then replaces a file in one step.
\<close>

locale file_store =
  fixes content :: "'s \<Rightarrow> 'p \<Rightarrow> string option"
    and loc :: "'n \<Rightarrow> 'p"
    and put_file :: "'n \<Rightarrow> string \<Rightarrow> 's \<Rightarrow> ('e + unit) \<times> 's"
    and ren_file :: "'n \<Rightarrow> 'n \<Rightarrow> 's \<Rightarrow> ('e + unit) \<times> 's"
  assumes write_done: "put_file n d s = (Inr u, s') \<Longrightarrow> content s' (loc n) = Some d"
    and write_frame: "q \<noteq> loc n \<Longrightarrow> content (snd (put_file n d s)) q = content s q"
    and rename_done:
      "ren_file a b s = (Inr u, s') \<Longrightarrow> loc a \<noteq> loc b \<Longrightarrow> content s' (loc b) = content s (loc a)"
    and rename_failed: "ren_file a b s = (Inl e, s') \<Longrightarrow> content s' = content s"
    and rename_frame: "q \<noteq> loc a \<Longrightarrow> q \<noteq> loc b \<Longrightarrow> content (snd (ren_file a b s)) q = content s q"
begin

lemma replace_write_keeps:
  "loc t \<noteq> loc f \<Longrightarrow> content (snd (put_file t d s)) (loc f) = content s (loc f)"
  by (rule write_frame) simp

lemma replace_done:
  "put_file t d s = (Inr u, s1) \<Longrightarrow> ren_file t f s1 = (Inr v, s2) \<Longrightarrow> loc t \<noteq> loc f
    \<Longrightarrow> content s2 (loc f) = Some d"
  by (simp add: rename_done write_done)

lemma replace_failed:
  "put_file t d s = (r, s1) \<Longrightarrow> ren_file t f s1 = (Inl e, s2) \<Longrightarrow> loc t \<noteq> loc f
    \<Longrightarrow> content s2 (loc f) = content s (loc f)"
  using replace_write_keeps [of t f d s] by (simp add: rename_failed)

lemma replace_frame:
  "put_file t d s = (r, s1) \<Longrightarrow> ren_file t f s1 = (r', s2) \<Longrightarrow> q \<noteq> loc t \<Longrightarrow> q \<noteq> loc f
    \<Longrightarrow> content s2 q = content s q"
  using write_frame [of q t d s] rename_frame [of q t f s1] by simp

end

definition os_content :: "os \<Rightarrow> path \<Rightarrow> string option" where
  "os_content s p = (case os_look s p of Some (FileNode m c) \<Rightarrow> Some c | _ \<Rightarrow> None)"

lemma os_content_cong: "os_look s' q = os_look s q \<Longrightarrow> os_content s' q = os_content s q"
  by (simp add: os_content_def)

interpretation os_store: file_store os_content resolve "\<lambda>n d. os_write_file n d m" os_rename for m
proof unfold_locales
  fix n d u and s s' :: os
  assume "os_write_file n d m s = (Inr u, s')"
  then show "os_content s' (resolve n) = Some d"
    by (rule write_result) (simp_all add: os_content_def)
next
  fix q n d and s :: os
  assume "q \<noteq> resolve n"
  then show "os_content (snd (os_write_file n d m s)) q = os_content s q"
    by (intro os_content_cong write_other)
next
  fix a b u and s s' :: os
  assume "os_rename a b s = (Inr u, s')" and "resolve a \<noteq> resolve b"
  then show "os_content s' (resolve b) = os_content s (resolve a)"
    by (elim rename_result) (simp_all add: os_content_def)
next
  fix a b e and s s' :: os
  assume "os_rename a b s = (Inl e, s')"
  then show "os_content s' = os_content s"
    by (rule rename_result) (simp_all add: os_content_def fun_eq_iff)
next
  fix q a b and s :: os
  assume "q \<noteq> resolve a" and "q \<noteq> resolve b"
  then show "os_content (snd (os_rename a b s)) q = os_content s q"
    by (intro os_content_cong rename_other)
qed

lemma read_file_content:
  "os_read_file n s = (Inr c, s') \<Longrightarrow> os_content s (resolve n) = Some c"
  by (drule read_content) (auto simp: os_content_def)

end
