(* ===== verification/Sandbox.thy ===== *)
theory Sandbox
  imports Identity OsModel
begin

text \<open>
  \<open>daemon/internal/agent/sandbox.go\<close>: the transient systemd unit an agent runs in, and the agent's
  directory. systemd and the D-Bus library are outside the program: \<open>dbus_conn\<close> holds the calls the
  code makes as functions of an unknown state of the system, and nothing is assumed of them. A
  started job reports its result on a channel; if the report never comes the caller is blocked.
\<close>

section \<open>Unit properties\<close>

record sandbox_config =
  sc_agent_id :: string
  sc_exec_start :: string
  sc_workspace_path :: string
  sc_profile :: string
  sc_memory_max_mb :: int
  sc_cpu_quota_pct :: int
  sc_tasks_max :: int
  sc_allow_network :: bool

definition default_sandbox_config :: "string \<Rightarrow> string \<Rightarrow> string \<Rightarrow> string \<Rightarrow> sandbox_config" where
  "default_sandbox_config agentID execStart workspacePath profile =
     \<lparr>sc_agent_id = agentID, sc_exec_start = execStart, sc_workspace_path = workspacePath,
      sc_profile = profile, sc_memory_max_mb = 512, sc_cpu_quota_pct = 100, sc_tasks_max = 64,
      sc_allow_network = False\<rparr>"

record address_family_restriction =
  af_is_allow_list :: bool
  af_families :: "string list"

record bind_path_entry =
  bp_source :: string
  bp_destination :: string
  bp_ignore_enoent :: bool
  bp_flags :: "64 word"

datatype variant =
    VBool bool
  | VUint64 "64 word"
  | VString string
  | VStrings "string list"
  | VBindPaths "bind_path_entry list"
  | VFamilies address_family_restriction

text \<open>The first two are made by constructors of the D-Bus library.\<close>

datatype unit_property =
    PropDescription string
  | PropExecStart "string list" bool
  | Prop string variant

fun prop_name :: "unit_property \<Rightarrow> string" where
  "prop_name (PropDescription d) = ''Description''"
| "prop_name (PropExecStart c u) = ''ExecStart''"
| "prop_name (Prop n v) = n"

text \<open>Go's conversion \<open>uint64(n)\<close> of an \<open>int\<close>; products wrap around.\<close>

definition uint64 :: "int \<Rightarrow> 64 word" where
  "uint64 n = word_of_int n"

definition unit_properties :: "sandbox_config \<Rightarrow> unit_property list" where
  "unit_properties cfg =
     [PropDescription (''Atomic Agent: '' @ sc_agent_id cfg @ '' ['' @ sc_profile cfg @ '']''),
      PropExecStart [sc_exec_start cfg] False,
      Prop ''MemoryMax'' (VUint64 (uint64 (sc_memory_max_mb cfg) * 1024 * 1024)),
      Prop ''CPUQuotaPerSecUSec'' (VUint64 (uint64 (sc_cpu_quota_pct cfg) * 10000)),
      Prop ''TasksMax'' (VUint64 (uint64 (sc_tasks_max cfg))),
      Prop ''LimitNOFILE'' (VUint64 (uint64 1024)),
      Prop ''BindPaths'' (VBindPaths [\<lparr>bp_source = sc_workspace_path cfg,
        bp_destination = sc_workspace_path cfg, bp_ignore_enoent = False, bp_flags = 0\<rparr>]),
      Prop ''Environment'' (VStrings
        [''ATOMIC_AGENT_ID='' @ sc_agent_id cfg, ''ATOMIC_AGENT_PROFILE='' @ sc_profile cfg,
         ''ATOMIC_POLICY_SOCKET=/run/atomic/policy.sock'', ''ATOMIC_AUDIT_SOCKET=/run/atomic/audit.sock'']),
      Prop ''DynamicUser'' (VBool True),
      Prop ''PrivateNetwork'' (VBool (\<not> sc_allow_network cfg)),
      Prop ''RestrictAddressFamilies'' (VFamilies \<lparr>af_is_allow_list = True,
        af_families = [''AF_UNIX'', ''AF_INET'', ''AF_INET6'']\<rparr>),
      Prop ''PrivateTmp'' (VBool True),
      Prop ''PrivateDevices'' (VBool True),
      Prop ''PrivateIPC'' (VBool True),
      Prop ''ProtectSystem'' (VString ''strict''),
      Prop ''ProtectHome'' (VString ''yes''),
      Prop ''ProtectKernelTunables'' (VBool True),
      Prop ''ProtectKernelModules'' (VBool True),
      Prop ''ProtectClock'' (VBool True),
      Prop ''ProtectHostname'' (VBool True),
      Prop ''ProtectProc'' (VString ''invisible''),
      Prop ''CapabilityBoundingSet'' (VUint64 (uint64 0)),
      Prop ''NoNewPrivileges'' (VBool True),
      Prop ''MemoryDenyWriteExecute'' (VBool True),
      Prop ''RestrictSUIDSGID'' (VBool True),
      Prop ''LockPersonality'' (VBool True),
      Prop ''RestrictRealtime'' (VBool True)]"

section \<open>The bus\<close>

record ('s, 'e) dbus_conn =
  cn_get_unit_properties :: "string \<Rightarrow> 's \<Rightarrow> ('e + (string \<times> variant) list) \<times> 's"
  cn_reset_failed_unit :: "string \<Rightarrow> 's \<Rightarrow> ('e + unit) \<times> 's"
  cn_start_transient_unit :: "string \<Rightarrow> string \<Rightarrow> unit_property list \<Rightarrow> 's \<Rightarrow> ('e + string call) \<times> 's"
  cn_stop_unit :: "string \<Rightarrow> string \<Rightarrow> 's \<Rightarrow> ('e + string call) \<times> 's"
  cn_kill_unit :: "string \<Rightarrow> nat \<Rightarrow> 's \<Rightarrow> ('e + unit) \<times> 's"

datatype 'e sandbox_error =
    StartingTransientUnit string 'e
  | JobFinishedWith string string
  | StoppingUnit string 'e
  | KillingUnit 'e
  | GettingProperties string 'e

text \<open>A unit left over from an earlier run is reset first, if it is not active.\<close>

definition reset_stale :: "('s, 'e) dbus_conn \<Rightarrow> string \<Rightarrow> 's \<Rightarrow> 's" where
  "reset_stale conn unitName s =
     (case cn_get_unit_properties conn unitName s of
        (Inl _, s1) \<Rightarrow> s1
      | (Inr props, s1) \<Rightarrow>
          (let activeState = (case map_of props ''ActiveState'' of Some (VString x) \<Rightarrow> x | _ \<Rightarrow> [])
           in if activeState = ''failed'' \<or> activeState = ''inactive''
              then snd (cn_reset_failed_unit conn unitName s1) else s1))"

definition start_agent ::
    "('s, 'e) dbus_conn \<Rightarrow> sandbox_config \<Rightarrow> 's \<Rightarrow> ('e sandbox_error + unit) call \<times> 's" where
  "start_agent conn cfg s =
     (let unitName = systemd_unit_name (sc_agent_id cfg);
          s1 = reset_stale conn unitName s
      in case cn_start_transient_unit conn unitName ''fail'' (unit_properties cfg) s1 of
           (Inl err, s2) \<Rightarrow> (Returned (Inl (StartingTransientUnit unitName err)), s2)
         | (Inr Blocked, s2) \<Rightarrow> (Blocked, s2)
         | (Inr (Returned result), s2) \<Rightarrow>
             (if result \<noteq> ''done'' then (Returned (Inl (JobFinishedWith unitName result)), s2)
              else (Returned (Inr ()), s2)))"

definition stop_agent :: "('s, 'e) dbus_conn \<Rightarrow> string \<Rightarrow> 's \<Rightarrow> ('e sandbox_error + unit) call \<times> 's" where
  "stop_agent conn agentID s =
     (let unitName = systemd_unit_name agentID
      in case cn_stop_unit conn unitName ''replace'' s of
           (Inl err, s1) \<Rightarrow> (Returned (Inl (StoppingUnit unitName err)), s1)
         | (Inr Blocked, s1) \<Rightarrow> (Blocked, s1)
         | (Inr (Returned _), s1) \<Rightarrow> (Returned (Inr ()), s1))"

text \<open>
  \<open>KillAgent\<close> leaves a goroutine behind that resets the unit two seconds later: the unit to reset
  is the second component; \<open>late_reset\<close> is the goroutine's work.
\<close>

definition kill_agent ::
    "('s, 'e) dbus_conn \<Rightarrow> string \<Rightarrow> 's \<Rightarrow> ('e sandbox_error + unit) \<times> string list \<times> 's" where
  "kill_agent conn agentID s =
     (let unitName = systemd_unit_name agentID
      in case cn_kill_unit conn unitName 9 s of
           (Inl err, s1) \<Rightarrow> (Inl (KillingUnit err), [], s1)
         | (Inr _, s1) \<Rightarrow> (Inr (), [unitName], s1))"

definition late_reset :: "('s, 'e) dbus_conn \<Rightarrow> string \<Rightarrow> 's \<Rightarrow> 's" where
  "late_reset conn unitName s = snd (cn_reset_failed_unit conn unitName s)"

definition agent_status :: "('s, 'e) dbus_conn \<Rightarrow> string \<Rightarrow> 's \<Rightarrow> ('e sandbox_error + string) \<times> 's" where
  "agent_status conn agentID s =
     (let unitName = systemd_unit_name agentID
      in case cn_get_unit_properties conn unitName s of
           (Inl err, s1) \<Rightarrow> (Inl (GettingProperties unitName err), s1)
         | (Inr props, s1) \<Rightarrow>
             (case map_of props ''ActiveState'' of
                Some (VString x) \<Rightarrow> (Inr x, s1) | _ \<Rightarrow> (Inr ''unknown'', s1)))"

section \<open>The agent's directory\<close>

datatype provision_error =
    CreatingAgentDir string io_error
  | CreatingWorkspace string io_error
  | WritingMetadata io_error

definition agent_meta :: "string \<Rightarrow> string \<Rightarrow> string" where
  "agent_meta root agentID = path_join [root, agentID, ''agent.id'']"

definition provision_workspace :: "string \<Rightarrow> string \<Rightarrow> os \<Rightarrow> (provision_error + string) \<times> os" where
  "provision_workspace root agentID s =
     (let agentRoot = path_join [root, agentID]; path = workspace_path root agentID in
      case os_mkdir_all agentRoot (oct 7 5 5) s of
        (Inl e, s1) \<Rightarrow> (Inl (CreatingAgentDir agentRoot e), s1)
      | (Inr _, s1) \<Rightarrow>
          (let (r, s2) = os_mkdir path (oct 7 5 0) s1 in
           if (case r of Inl e \<Rightarrow> e \<noteq> EEXIST | Inr _ \<Rightarrow> False)
           then (Inl (CreatingWorkspace path (projl r)), s2)
           else (case os_write_file (agent_meta root agentID) agentID (oct 6 4 0) s2 of
                   (Inl e, s3) \<Rightarrow> (Inl (WritingMetadata e), s3)
                 | (Inr _, s3) \<Rightarrow> (Inr path, snd (os_exec [''restorecon'', ''-R'', agentRoot] s3)))))"

lemma plain_agent_id: "plain_elem ''agent.id''"
  by (simp add: plain_elem_def dot_def dotdot_def)

lemma resolve_agent_meta:
  "root \<noteq> [] \<Longrightarrow> valid_id i \<Longrightarrow> resolve (agent_meta root i) = resolve root @ [i, ''agent.id'']"
  by (simp add: agent_meta_def resolve_join3 valid_id_plain plain_agent_id)

lemma resolve_agent_root: "root \<noteq> [] \<Longrightarrow> valid_id i \<Longrightarrow> resolve (path_join [root, i]) = resolve root @ [i]"
  by (simp add: resolve_join valid_id_plain)

lemma exec_look [simp]: "os_look (snd (os_exec argv s)) = os_look s"
  by (simp add: os_exec_def Let_def case_prod_unfold split: option.split)

lemma exec_wf [simp]: "os_wf (snd (os_exec argv s)) = os_wf s"
  by (simp add: os_exec_def Let_def case_prod_unfold split: option.split)

text \<open>The intermediate states of provisioning.\<close>

lemma provision_cases:
  assumes "provision_workspace root i s = (r, s')"
  obtains (dir) s1 e where "os_mkdir_all (path_join [root, i]) (oct 7 5 5) s = (Inl e, s1)" "s' = s1"
      "r = Inl (CreatingAgentDir (path_join [root, i]) e)"
  | (workspace) s1 s2 u e where "os_mkdir_all (path_join [root, i]) (oct 7 5 5) s = (Inr u, s1)"
      "os_mkdir (workspace_path root i) (oct 7 5 0) s1 = (Inl e, s2)" "s' = s2"
      "r = Inl (CreatingWorkspace (workspace_path root i) e)"
  | (meta) s1 s2 s3 u x e where "os_mkdir_all (path_join [root, i]) (oct 7 5 5) s = (Inr u, s1)"
      "os_mkdir (workspace_path root i) (oct 7 5 0) s1 = (x, s2)"
      "os_write_file (agent_meta root i) i (oct 6 4 0) s2 = (Inl e, s3)" "s' = s3" "r = Inl (WritingMetadata e)"
  | (fine) s1 s2 s3 u x v where "os_mkdir_all (path_join [root, i]) (oct 7 5 5) s = (Inr u, s1)"
      "os_mkdir (workspace_path root i) (oct 7 5 0) s1 = (x, s2)" "x = Inl EEXIST \<or> x = Inr ()"
      "os_write_file (agent_meta root i) i (oct 6 4 0) s2 = (Inr v, s3)"
      "s' = snd (os_exec [''restorecon'', ''-R'', path_join [root, i]] s3)" "r = Inr (workspace_path root i)"
proof (cases "os_mkdir_all (path_join [root, i]) (oct 7 5 5) s")
  case (Pair r1 s1)
  show ?thesis
  proof (cases r1)
    case (Inl e)
    with Pair assms dir show ?thesis by (simp add: provision_workspace_def Let_def)
  next
    case u: (Inr u)
    obtain x s2 where x: "os_mkdir (workspace_path root i) (oct 7 5 0) s1 = (x, s2)" by fastforce
    obtain w s3 where w: "os_write_file (agent_meta root i) i (oct 6 4 0) s2 = (w, s3)" by fastforce
    show ?thesis
    proof (cases "\<exists>e. x = Inl e \<and> e \<noteq> EEXIST")
      case True
      with Pair u x assms workspace show ?thesis by (auto simp: provision_workspace_def Let_def)
    next
      case False
      then have "x = Inl EEXIST \<or> x = Inr ()" by (cases x) auto
      with Pair u x w assms meta fine show ?thesis
        by (cases w) (auto simp: provision_workspace_def Let_def)
    qed
  qed
qed

lemma mkdir_all_wf: "os_wf s \<Longrightarrow> os_wf (snd (os_mkdir_all n m s))"
  unfolding os_mkdir_all_def by (rule mkdir_each_wf)

lemma mkdir_all_keeps: "os_look s q = Some n \<Longrightarrow> os_look (snd (os_mkdir_all p m s)) q = Some n"
  unfolding os_mkdir_all_def by (rule mkdir_each_keeps)

lemma mkdir_all_frame:
  "\<not> prefix q (resolve p) \<Longrightarrow> os_look (snd (os_mkdir_all p m s)) q = os_look s q"
  unfolding os_mkdir_all_def by (rule mkdir_each_new) (cases "prefixes (resolve p)"; auto simp flip: in_set_prefixes)

lemma mkdir_keeps: "os_look s q = Some n \<Longrightarrow> os_look (snd (os_mkdir p m s)) q = Some n"
  using mkdir_at_look [of "resolve p" m s] by (auto simp: os_mkdir_def)

lemma mkdir_frame: "q \<noteq> resolve p \<Longrightarrow> os_look (snd (os_mkdir p m s)) q = os_look s q"
  using mkdir_at_look [of "resolve p" m s] by (auto simp: os_mkdir_def)

lemma mkdir_wf: "os_wf s \<Longrightarrow> os_wf (snd (os_mkdir p m s))"
  unfolding os_mkdir_def by (rule mkdir_at_wf)

lemma mkdir_result:
  assumes "os_mkdir p m s = (x, s')" and "x = Inl EEXIST \<or> x = Inr u"
  shows "os_look s' (resolve p) \<noteq> None"
proof (cases "os_look s (resolve p)")
  case None
  then have "resolve p \<noteq> []" by auto
  with None assms show ?thesis
    by (cases "fst (tick s)")
      (auto simp: os_mkdir_def os_mkdir_at_def Let_def case_prod_unfold split: option.splits
        dest: parent_error_kind)
next
  case (Some n)
  then show ?thesis using mkdir_keeps [OF Some, of p m] assms(1) by simp
qed

lemma write_keeps:
  "os_look s q = Some n \<Longrightarrow> q \<noteq> resolve p \<Longrightarrow> os_look (snd (os_write_file p d m s)) q = Some n"
  by (simp add: write_other)

lemma provision_wf: "os_wf s \<Longrightarrow> os_wf (snd (provision_workspace root i s))"
proof (cases "provision_workspace root i s")
  case (Pair r s')
  assume w: "os_wf s"
  from Pair show ?thesis
    by (rule provision_cases)
      (use Pair w mkdir_all_wf [of s "path_join [root, i]" "oct 7 5 5"] mkdir_wf write_wf in \<open>metis exec_wf snd_conv\<close>)+
qed

lemma provision_keeps:
  assumes "provision_workspace root i s = (r, s')" and "os_look s q = Some n"
    and "q \<noteq> resolve (agent_meta root i)"
  shows "os_look s' q = Some n"
  using assms(1)
  by (rule provision_cases)
    (use assms(2,3) mkdir_all_keeps [of s q n "path_join [root, i]" "oct 7 5 5"] mkdir_keeps [of _ q n "workspace_path root i" "oct 7 5 0"]
      write_keeps [of _ q n "agent_meta root i" i "oct 6 4 0"] in \<open>metis exec_look snd_conv\<close>)+

lemma provision_frame:
  assumes "provision_workspace root i s = (r, s')" and "root \<noteq> []" and "valid_id i"
    and "\<not> prefix q (resolve root @ [i])"
    and "q \<noteq> resolve root @ [i, ''workspace'']" and "q \<noteq> resolve root @ [i, ''agent.id'']"
  shows "os_look s' q = os_look s q"
proof -
  have q: "\<not> prefix q (resolve (path_join [root, i]))" "q \<noteq> resolve (workspace_path root i)"
    "q \<noteq> resolve (agent_meta root i)"
    using assms by (simp_all add: resolve_agent_root resolve_workspace_path resolve_agent_meta)
  show ?thesis
    using assms(1)
    by (rule provision_cases)
      (use q mkdir_all_frame [of q "path_join [root, i]" "oct 7 5 5" s] mkdir_frame [of q "workspace_path root i" "oct 7 5 0"]
        write_other [of q "agent_meta root i" i "oct 6 4 0"] in \<open>metis exec_look snd_conv\<close>)+
qed

lemma mkdir_all_fresh:
  assumes "os_look s q = None"
  shows "os_look (snd (os_mkdir_all n m s)) q = None
    \<or> prefix q (resolve n) \<and> os_look (snd (os_mkdir_all n m s)) q = Some (DirNode m)"
proof (cases "prefix q (resolve n)")
  case True
  with mkdir_each_fresh [OF assms] show ?thesis by (auto simp: os_mkdir_all_def)
qed (simp add: mkdir_all_frame assms)

lemma mkdir_fresh:
  "os_look (snd (os_mkdir n m t)) q = os_look t q
   \<or> q = resolve n \<and> os_look t q = None \<and> os_look (snd (os_mkdir n m t)) q = Some (DirNode m)"
  using mkdir_at_look [of "resolve n" m t] by (auto simp: os_mkdir_def split: if_splits)

text \<open>Besides the metadata file, only missing directories come into being.\<close>

lemma provision_fresh:
  assumes "provision_workspace root i s = (r, s')" and "os_look s q = None" and "q \<noteq> resolve (agent_meta root i)"
  shows "os_look s' q = None
    \<or> prefix q (resolve (path_join [root, i])) \<and> os_look s' q = Some (DirNode (oct 7 5 5))
    \<or> q = resolve (workspace_path root i) \<and> os_look s' q = Some (DirNode (oct 7 5 0))"
  using assms(1)
  by (rule provision_cases)
    (use assms(3) mkdir_all_fresh [OF assms(2), of "path_join [root, i]" "oct 7 5 5"]
      mkdir_fresh [of "workspace_path root i" "oct 7 5 0" _ q] write_other [of q "agent_meta root i" i "oct 6 4 0"]
      in \<open>metis exec_look snd_conv\<close>)+

lemma provision_done:
  assumes "provision_workspace root i s = (Inr p, s')" and "root \<noteq> []" and "valid_id i"
  shows "p = workspace_path root i" and "os_look s' (resolve root @ [i, ''workspace'']) \<noteq> None"
    and "os_content s' (resolve root @ [i, ''agent.id'']) = Some i"
    and "[''restorecon'', ''-R'', path_join [root, i]] \<in> set (os_cmds s')"
proof -
  have e: "os_cmds (snd (os_exec argv t)) = os_cmds t @ [argv]" for argv t
    by (simp add: os_exec_def Let_def case_prod_unfold split: option.split)
  from assms(1) obtain s1 s2 s3 x v where
    d: "os_mkdir (workspace_path root i) (oct 7 5 0) s1 = (x, s2)" "x = Inl EEXIST \<or> x = Inr ()"
    and w: "os_write_file (agent_meta root i) i (oct 6 4 0) s2 = (Inr v, s3)"
    and f: "s' = snd (os_exec [''restorecon'', ''-R'', path_join [root, i]] s3)" "p = workspace_path root i"
    by (rule provision_cases) auto
  have c: "os_content s' = os_content s3" by (simp add: f os_content_def fun_eq_iff)
  show "p = workspace_path root i" by (rule f)
  show "[''restorecon'', ''-R'', path_join [root, i]] \<in> set (os_cmds s')" by (simp add: f e)
  show "os_content s' (resolve root @ [i, ''agent.id'']) = Some i"
    using os_store.write_done [OF w] resolve_agent_meta [OF assms(2,3)] by (simp add: c)
  have "os_look s3 (resolve (workspace_path root i)) = os_look s2 (resolve (workspace_path root i))"
    using write_other [of "resolve (workspace_path root i)" "agent_meta root i" i "oct 6 4 0" s2] w assms(2,3)
    by (simp add: resolve_workspace_path resolve_agent_meta)
  then show "os_look s' (resolve root @ [i, ''workspace'']) \<noteq> None"
    using mkdir_result [OF d] assms(3) by (simp add: f resolve_workspace_path)
qed

section \<open>Properties\<close>

definition per_agent_properties :: "string list" where
  "per_agent_properties = [''Description'', ''ExecStart'', ''MemoryMax'', ''CPUQuotaPerSecUSec'', ''TasksMax'',
     ''BindPaths'', ''Environment'', ''PrivateNetwork'']"

text \<open>
  The hardening of a sandbox does not depend on the agent: no property is set twice, two
  configurations differ at most in the eight properties that carry the agent's own data, and in
  every one the unit runs without capabilities, without new privileges, under a dynamic user, on a
  read-only system, and with a private network unless the configuration allows the network.
\<close>

lemma hardening_uniform:
  "distinct (map prop_name (unit_properties cfg)) \<and>
   filter (\<lambda>p. prop_name p \<notin> set per_agent_properties) (unit_properties cfg)
     = filter (\<lambda>p. prop_name p \<notin> set per_agent_properties) (unit_properties cfg') \<and>
   {Prop ''CapabilityBoundingSet'' (VUint64 0), Prop ''NoNewPrivileges'' (VBool True), Prop ''DynamicUser'' (VBool True),
    Prop ''ProtectSystem'' (VString ''strict''), Prop ''ProtectHome'' (VString ''yes''),
    Prop ''PrivateNetwork'' (VBool (\<not> sc_allow_network cfg))} \<subseteq> set (unit_properties cfg)"
proof (intro conjI)
  show "distinct (map prop_name (unit_properties cfg))" by (simp add: unit_properties_def)
  show "filter (\<lambda>p. prop_name p \<notin> set per_agent_properties) (unit_properties cfg)
     = filter (\<lambda>p. prop_name p \<notin> set per_agent_properties) (unit_properties cfg')"
    by (simp add: unit_properties_def per_agent_properties_def)
qed (simp add: unit_properties_def uint64_def)

text \<open>
  \<open>StartAgent\<close> reports success exactly when systemd accepted the unit, under the name derived
  from the agent and with its full list of properties, and the job then finished with \<open>done\<close>; it
  waits for ever exactly when the job never reports.
\<close>

lemma start_agent_outcome:
  "(fst (start_agent conn cfg s) = Returned (Inr ()) \<longleftrightarrow>
     (\<exists>s2. cn_start_transient_unit conn (systemd_unit_name (sc_agent_id cfg)) ''fail'' (unit_properties cfg)
             (reset_stale conn (systemd_unit_name (sc_agent_id cfg)) s) = (Inr (Returned ''done''), s2)))
   \<and> (fst (start_agent conn cfg s) = Blocked \<longleftrightarrow>
     (\<exists>s2. cn_start_transient_unit conn (systemd_unit_name (sc_agent_id cfg)) ''fail'' (unit_properties cfg)
             (reset_stale conn (systemd_unit_name (sc_agent_id cfg)) s) = (Inr Blocked, s2)))"
  by (auto simp: start_agent_def Let_def split: prod.split sum.split call.split)

text \<open>
  A unit that is active, or in any state but failed and inactive, is never reset: asking for its
  state is then all that happens before the start.
\<close>

lemma active_unit_not_reset:
  assumes "cn_get_unit_properties conn u s = (Inr props, s1)"
    and "map_of props ''ActiveState'' = Some (VString st)" and "st \<noteq> ''failed''" and "st \<noteq> ''inactive''"
  shows "reset_stale conn u s = s1"
  using assms by (simp add: reset_stale_def)

definition sample_conn :: "(nat, string) dbus_conn" where
  "sample_conn = \<lparr>cn_get_unit_properties = (\<lambda>u s. (Inr [(''ActiveState'', VString ''active'')], s)),
     cn_reset_failed_unit = (\<lambda>u s. (Inr (), s + 100)),
     cn_start_transient_unit = (\<lambda>u m ps s. (Inr (Returned ''done''), s + 1)),
     cn_stop_unit = (\<lambda>u m s. (Inr (Returned ''done''), s + 1)),
     cn_kill_unit = (\<lambda>u n s. (Inr (), s + 1))\<rparr>"

text \<open>
  C13. What provisioning for an accepted identifier does to the disk, whether it succeeds or fails. The
  metadata file of the agent apart, nothing that existed is removed or replaced, and nothing comes into
  being but missing directories: the agent's directory and the ancestors of it (the workspace root and
  those above it, with mode 0755), and its workspace (0750). On success the workspace exists, the
  metadata file holds the identifier and the directory was relabelled.
\<close>

theorem provision_contained:
  assumes "provision_workspace root i s = (r, s')" and "root \<noteq> []" and "validate_id i = Inr ()"
  shows "(\<forall>q. q \<noteq> resolve root @ [i, ''agent.id''] \<longrightarrow>
        os_look s' q = os_look s q
        \<or> os_look s q = None \<and> prefix q (resolve root @ [i]) \<and> os_look s' q = Some (DirNode (oct 7 5 5))
        \<or> os_look s q = None \<and> q = resolve root @ [i, ''workspace''] \<and> os_look s' q = Some (DirNode (oct 7 5 0)))
    \<and> (\<forall>p. r = Inr p \<longrightarrow> p = workspace_path root i \<and> os_look s' (resolve p) \<noteq> None \<and>
            os_content s' (resolve root @ [i, ''agent.id'']) = Some i \<and>
            [''restorecon'', ''-R'', path_join [root, i]] \<in> set (os_cmds s'))"
proof -
  have v: "valid_id i" using assms(3) by (simp add: validate_id_Inr)
  note paths = resolve_agent_meta [OF assms(2) v] resolve_agent_root [OF assms(2) v]
    resolve_workspace_path [OF v]
  have "p = workspace_path root i \<and> os_look s' (resolve p) \<noteq> None \<and>
      os_content s' (resolve root @ [i, ''agent.id'']) = Some i \<and>
      [''restorecon'', ''-R'', path_join [root, i]] \<in> set (os_cmds s')" if "r = Inr p" for p
    using provision_done [of root i s p s'] assms(1,2) v that by (simp add: paths)
  moreover have "os_look s' q = os_look s q
      \<or> os_look s q = None \<and> prefix q (resolve root @ [i]) \<and> os_look s' q = Some (DirNode (oct 7 5 5))
      \<or> os_look s q = None \<and> q = resolve root @ [i, ''workspace''] \<and> os_look s' q = Some (DirNode (oct 7 5 0))"
    if q: "q \<noteq> resolve root @ [i, ''agent.id'']" for q
  proof (cases "os_look s q")
    case None
    with provision_fresh [OF assms(1) None] q show ?thesis by (auto simp: paths)
  next
    case (Some n)
    with provision_keeps [OF assms(1) Some] q show ?thesis by (simp add: paths)
  qed
  ultimately show ?thesis by blast
qed

definition empty_os :: os where
  "empty_os = \<lparr>os_files = [], os_faults = (\<lambda>_. Works), os_calls = 0, os_cmds = []\<rparr>"

lemma provision_contained_witness:
  "os_content (snd (provision_workspace ''/v'' ''a1'' empty_os)) [''v'', ''a1'', ''agent.id''] = Some ''a1''"
proof -
  let ?r = "provision_workspace ''/v'' ''a1'' empty_os"
  have v: "validate_id ''a1'' = Inr ()" by code_simp
  have r: "resolve ''/v'' = [''v'']" by code_simp
  have "is_ok (fst ?r)" by code_simp
  then obtain p where p: "fst ?r = Inr p" by (auto simp: is_ok_iff)
  have "?r = (Inr p, snd ?r)" using p by (metis prod.collapse)
  from provision_contained [OF this _ v] show ?thesis by (simp add: r)
qed

end
