(* ===== verification/Json.thy ===== *)
theory Json
  imports Identity
begin

text \<open>
  The part of \<open>encoding/json\<close> the daemon uses, on bytes: string escaping with the UTF-8 repair Go
  applies, compact and indented printing, a parser with fuel, and decoding of an object into a
  struct. The main facts are that the fuel given to the parser is enough, and that parsing a
  printed document gives the document back, its strings repaired.
\<close>

datatype json =
  JNull | JBool bool | JNum string | JStr string | JArr "json list" | JObj "(string \<times> json) list"

section \<open>UTF-8\<close>

definition in_range :: "nat \<Rightarrow> nat \<Rightarrow> char \<Rightarrow> bool" where
  "in_range lo hi c \<longleftrightarrow> lo \<le> byte_of c \<and> byte_of c \<le> hi"

definition is_cont :: "char \<Rightarrow> bool" where
  "is_cont c = in_range 0x80 0xBF c"

text \<open>
  How many bytes follow the first byte of the rune at the front of the string; \<open>None\<close> when
  \<open>utf8.DecodeRune\<close> reports an invalid encoding there.
\<close>

definition rune_tail :: "char \<Rightarrow> string \<Rightarrow> nat option" where
  "rune_tail c cs =
     (let b = byte_of c in
      if b < 0x80 then Some 0
      else if 0xC2 \<le> b \<and> b \<le> 0xDF then
        (case cs of d # _ \<Rightarrow> if is_cont d then Some 1 else None | _ \<Rightarrow> None)
      else if 0xE0 \<le> b \<and> b \<le> 0xEF then
        (case cs of d # e # _ \<Rightarrow>
           if in_range (if b = 0xE0 then 0xA0 else 0x80) (if b = 0xED then 0x9F else 0xBF) d \<and> is_cont e
           then Some 2 else None
         | _ \<Rightarrow> None)
      else if 0xF0 \<le> b \<and> b \<le> 0xF4 then
        (case cs of d # e # f # _ \<Rightarrow>
           if in_range (if b = 0xF0 then 0x90 else 0x80) (if b = 0xF4 then 0x8F else 0xBF) d
              \<and> is_cont e \<and> is_cont f
           then Some 3 else None
         | _ \<Rightarrow> None)
      else None)"

definition rune_error :: string where
  "rune_error = [CHR 0xEF, CHR 0xBF, CHR 0xBD]"

text \<open>Every invalid byte replaced by U+FFFD.\<close>

function utf8_repair :: "string \<Rightarrow> string" where
  "utf8_repair [] = []"
| "utf8_repair (c # cs) =
     (case rune_tail c cs of
        None \<Rightarrow> rune_error @ utf8_repair cs
      | Some k \<Rightarrow> c # take k cs @ utf8_repair (drop k cs))"
  by pat_completeness auto
termination by (relation "measure length") auto

definition ascii :: "string \<Rightarrow> bool" where
  "ascii s \<longleftrightarrow> (\<forall>c \<in> set s. byte_of c < 0x80)"

lemma rune_tail_ascii: "byte_of c < 0x80 \<Longrightarrow> rune_tail c cs = Some 0"
  by (simp add: rune_tail_def)

lemma utf8_repair_ascii: "ascii s \<Longrightarrow> utf8_repair s = s"
  by (induction s) (auto simp: ascii_def rune_tail_ascii)

lemma rune_tail_length: "rune_tail c cs = Some k \<Longrightarrow> k \<le> length cs"
  by (auto simp: rune_tail_def Let_def split: if_splits list.splits)

text \<open>Whether the rune at the front is valid depends only on its own bytes.\<close>

lemma rune_tail_take:
  "rune_tail c cs = Some k \<Longrightarrow> rune_tail c (take k cs @ ds) = Some k"
  by (auto simp: rune_tail_def Let_def split: if_splits list.splits)

lemma rune_tail_error: "rune_tail (CHR 0xEF) (CHR 0xBF # CHR 0xBD # cs) = Some 2"
  by (simp add: rune_tail_def byte_of_def in_range_def is_cont_def)

lemma utf8_repair_error: "utf8_repair (rune_error @ s) = rune_error @ utf8_repair s"
  by (simp add: rune_error_def rune_tail_error)

lemma utf8_repair_rune:
  "rune_tail c cs = Some k \<Longrightarrow> utf8_repair (c # take k cs @ ds) = c # take k cs @ utf8_repair ds"
  using rune_tail_take [of c cs k ds] rune_tail_length [of c cs k] by simp

lemma utf8_repair_idem: "utf8_repair (utf8_repair s) = utf8_repair s"
proof (induction s rule: utf8_repair.induct)
  case 1
  then show ?case by simp
next
  case (2 c cs)
  show ?case
  proof (cases "rune_tail c cs")
    case None
    with 2(1) show ?thesis by (simp add: utf8_repair_error)
  next
    case (Some k)
    then have eq: "utf8_repair (c # cs) = c # take k cs @ utf8_repair (drop k cs)" by simp
    show ?thesis unfolding eq utf8_repair_rune [OF Some] 2(2) [OF Some] by (rule refl)
  qed
qed

section \<open>Strings\<close>

definition bsl :: char where
  "bsl = CHR 0x5C"

definition dquote :: char where
  "dquote = CHR 0x22"

definition hex4_of :: "nat \<Rightarrow> string" where
  "hex4_of n = [hex_digit (n div 4096 mod 16), hex_digit (n div 256 mod 16),
     hex_digit (n div 16 mod 16), hex_digit (n mod 16)]"

definition u_escape :: "nat \<Rightarrow> string" where
  "u_escape n = bsl # CHR ''u'' # hex4_of n"

definition esc_ascii :: "char \<Rightarrow> string" where
  "esc_ascii c =
     (if c = dquote \<or> c = bsl then [bsl, c]
      else if byte_of c = 0x08 then [bsl, CHR ''b'']
      else if byte_of c = 0x0C then [bsl, CHR ''f'']
      else if byte_of c = 0x0A then [bsl, CHR ''n'']
      else if byte_of c = 0x0D then [bsl, CHR ''r'']
      else if byte_of c = 0x09 then [bsl, CHR ''t'']
      else if byte_of c < 0x20 \<or> c \<in> {CHR ''<'', CHR ''>'', CHR ''&''} then u_escape (byte_of c)
      else [c])"

text \<open>U+2028 and U+2029 are escaped too (as JavaScript would end a line there).\<close>

definition esc_rune :: "string \<Rightarrow> string" where
  "esc_rune w =
     (if w = [CHR 0xE2, CHR 0x80, CHR 0xA8] then u_escape 0x2028
      else if w = [CHR 0xE2, CHR 0x80, CHR 0xA9] then u_escape 0x2029
      else w)"

function json_escape :: "string \<Rightarrow> string" where
  "json_escape [] = []"
| "json_escape (c # cs) =
     (case rune_tail c cs of
        None \<Rightarrow> u_escape 0xFFFD @ json_escape cs
      | Some k \<Rightarrow> (if k = 0 then esc_ascii c else esc_rune (c # take k cs)) @ json_escape (drop k cs))"
  by pat_completeness auto
termination by (relation "measure length") auto

definition json_quote :: "string \<Rightarrow> string" where
  "json_quote s = dquote # json_escape s @ [dquote]"

text \<open>Reading a string back: \<open>unq\<close> starts after the opening quote.\<close>

definition hex4 :: "char \<Rightarrow> char \<Rightarrow> char \<Rightarrow> char \<Rightarrow> nat option" where
  "hex4 a b c d =
     (case (hex_value a, hex_value b, hex_value c, hex_value d) of
        (Some p, Some q, Some r, Some s) \<Rightarrow> Some (4096 * p + 256 * q + 16 * r + s)
      | _ \<Rightarrow> None)"

definition utf8_encode :: "nat \<Rightarrow> string" where
  "utf8_encode n =
     (if n < 0x80 then [char_of n]
      else if n < 0x800 then [char_of (0xC0 + n div 64), char_of (0x80 + n mod 64)]
      else if n < 0x10000 then
        [char_of (0xE0 + n div 4096), char_of (0x80 + n div 64 mod 64), char_of (0x80 + n mod 64)]
      else [char_of (0xF0 + n div 262144), char_of (0x80 + n div 4096 mod 64),
            char_of (0x80 + n div 64 mod 64), char_of (0x80 + n mod 64)])"

definition simple_escape :: "char \<Rightarrow> char option" where
  "simple_escape e =
     (if e = dquote \<or> e = bsl \<or> e = CHR ''/'' then Some e
      else if e = CHR ''b'' then Some (CHR 0x08)
      else if e = CHR ''f'' then Some (CHR 0x0C)
      else if e = CHR ''n'' then Some (CHR 0x0A)
      else if e = CHR ''r'' then Some (CHR 0x0D)
      else if e = CHR ''t'' then Some (CHR 0x09)
      else None)"

text \<open>A low surrogate written as an escape at the front of the text.\<close>

definition low_surrogate :: "string \<Rightarrow> (nat \<times> string) option" where
  "low_surrogate s =
     (case s of x # y # a # b # c # d # r \<Rightarrow>
        if x = bsl \<and> y = CHR ''u'' then
          (case hex4 a b c d of
             Some w \<Rightarrow> if 0xDC00 \<le> w \<and> w \<le> 0xDFFF then Some (w, r) else None
           | None \<Rightarrow> None)
        else None
      | _ \<Rightarrow> None)"

text \<open>The bytes a \<open>\u\<close> escape of value \<open>v\<close> stands for, and what is left of the text.\<close>

definition u_bytes :: "nat \<Rightarrow> string \<Rightarrow> string \<times> string" where
  "u_bytes v r =
     (if 0xD800 \<le> v \<and> v \<le> 0xDFFF then
        (case (if v \<le> 0xDBFF then low_surrogate r else None) of
           Some (w, r') \<Rightarrow> (utf8_encode (0x10000 + (v - 0xD800) * 1024 + (w - 0xDC00)), r')
         | None \<Rightarrow> (rune_error, r))
      else (utf8_encode v, r))"

lemma low_surrogate_shorter: "low_surrogate s = Some (w, r) \<Longrightarrow> length r < length s"
  by (auto simp: low_surrogate_def split: list.splits if_splits option.splits)

lemma u_bytes_shorter: "u_bytes v r = (b, r') \<Longrightarrow> length r' \<le> length r"
  by (auto simp: u_bytes_def dest: low_surrogate_shorter split: if_splits option.splits prod.splits)

function unq :: "string \<Rightarrow> (string \<times> string) option" where
  "unq [] = None"
| "unq (c # cs) =
     (if c = dquote then Some ([], cs)
      else if c = bsl then
        (case cs of
           [] \<Rightarrow> None
         | e # r \<Rightarrow>
             if e = CHR ''u'' then
               (case r of
                  h # i # j # k # r' \<Rightarrow>
                    (case hex4 h i j k of
                       None \<Rightarrow> None
                     | Some v \<Rightarrow>
                         (case unq (snd (u_bytes v r')) of
                            None \<Rightarrow> None
                          | Some (b, t) \<Rightarrow> Some (fst (u_bytes v r') @ b, t)))
                | _ \<Rightarrow> None)
             else
               (case simple_escape e of
                  None \<Rightarrow> None
                | Some x \<Rightarrow> (case unq r of None \<Rightarrow> None | Some (b, t) \<Rightarrow> Some (x # b, t))))
      else if byte_of c < 0x20 then None
      else (case unq cs of None \<Rightarrow> None | Some (b, t) \<Rightarrow> Some (c # b, t)))"
  by pat_completeness auto
termination
proof (relation "measure length", goal_cases)
  case (2 c cs e r h rest i rest' j rest'' k r' v)
  then show ?case using u_bytes_shorter [of v r'] by (cases "u_bytes v r'") force
qed auto

declare unq.simps(2) [simp del]

definition pre_bytes :: "string \<Rightarrow> (string \<times> string) option \<Rightarrow> (string \<times> string) option" where
  "pre_bytes w r = map_option (\<lambda>(b, t). (w @ b, t)) r"

lemma pre_bytes_simps [simp]:
  "pre_bytes w None = None" "pre_bytes w (Some (b, t)) = Some (w @ b, t)"
  "pre_bytes [] r = r" "pre_bytes v (pre_bytes w r) = pre_bytes (v @ w) r"
  by (simp_all add: pre_bytes_def option.map_comp comp_def case_prod_unfold option.map_ident)

lemma unq_plain:
  "\<lbrakk>c \<noteq> dquote; c \<noteq> bsl; 0x20 \<le> byte_of c\<rbrakk> \<Longrightarrow> unq (c # cs) = pre_bytes [c] (unq cs)"
  by (simp add: unq.simps(2) pre_bytes_def split: option.split prod.split)

lemma unq_plains:
  "\<forall>c \<in> set w. 0x80 \<le> byte_of c \<Longrightarrow> unq (w @ cs) = pre_bytes w (unq cs)"
proof (induction w)
  case Nil
  then show ?case by simp
next
  case (Cons c w)
  then have "unq (c # (w @ cs)) = pre_bytes [c] (unq (w @ cs))"
    by (intro unq_plain) (auto simp: dquote_def bsl_def byte_of_def)
  with Cons show ?case by simp
qed

lemma unq_quote: "unq (dquote # r) = Some ([], r)"
  by (simp add: unq.simps(2))

lemma nibble_sum:
  "\<lbrakk>n = 16 * a + p; a = 16 * b + q; b = 16 * c + r\<rbrakk> \<Longrightarrow> 4096 * c + 256 * r + 16 * q + p = (n :: nat)"
  by simp

lemma hex4_of:
  assumes "n < 65536"
  shows "hex4 (hex_digit (n div 4096 mod 16)) (hex_digit (n div 256 mod 16))
    (hex_digit (n div 16 mod 16)) (hex_digit (n mod 16)) = Some n"
proof -
  have c: "n div 4096 mod 16 = n div 4096" using assms by (simp add: less_mult_imp_div_less)
  have d: "n div 256 = n div 16 div 16" "n div 4096 = n div 16 div 16 div 16"
    by (simp_all add: div_mult2_eq [symmetric])
  have "4096 * (n div 16 div 16 div 16) + 256 * (n div 16 div 16 mod 16) + 16 * (n div 16 mod 16) + n mod 16 = n"
    by (rule nibble_sum [of n "n div 16" _ "n div 16 div 16"]) simp_all
  then have "4096 * (n div 4096 mod 16) + 256 * (n div 256 mod 16) + 16 * (n div 16 mod 16) + n mod 16 = n"
    unfolding c unfolding d .
  moreover have "hex_value (hex_digit (k mod 16)) = Some (k mod 16)" for k
    by (rule hex_value_digit) simp
  ultimately show ?thesis unfolding hex4_def by (simp only: prod.case option.case)
qed

lemma quote_chars [simp]: "bsl \<noteq> dquote" "dquote \<noteq> bsl" "bsl \<noteq> CHR ''u''" "dquote \<noteq> CHR ''u''"
  by (simp_all add: bsl_def dquote_def)

lemma unq_u_escape:
  "\<lbrakk>n < 65536; n < 0xD800 \<or> 0xDFFF < n\<rbrakk> \<Longrightarrow>
     unq (u_escape n @ r) = pre_bytes (utf8_encode n) (unq r)"
  using hex4_of [of n]
  by (auto simp: u_escape_def hex4_of_def unq.simps(2) u_bytes_def pre_bytes_def
      split: option.split prod.split)

lemma unq_simple:
  "\<lbrakk>simple_escape e = Some x; e \<noteq> CHR ''u''\<rbrakk> \<Longrightarrow> unq (bsl # e # r) = pre_bytes [x] (unq r)"
  by (simp add: unq.simps(2) pre_bytes_def split: option.split prod.split)

lemma simple_escapes:
  "simple_escape dquote = Some dquote" "simple_escape bsl = Some bsl"
  "simple_escape (CHR ''b'') = Some (CHR 0x08)" "simple_escape (CHR ''f'') = Some (CHR 0x0C)"
  "simple_escape (CHR ''n'') = Some (CHR 0x0A)" "simple_escape (CHR ''r'') = Some (CHR 0x0D)"
  "simple_escape (CHR ''t'') = Some (CHR 0x09)"
  by (simp_all add: simple_escape_def bsl_def dquote_def)

lemma control_bytes:
  "byte_of c = 0x08 \<longleftrightarrow> c = CHR 0x08" "byte_of c = 0x0C \<longleftrightarrow> c = CHR 0x0C"
  "byte_of c = 0x0A \<longleftrightarrow> c = CHR 0x0A" "byte_of c = 0x0D \<longleftrightarrow> c = CHR 0x0D"
  "byte_of c = 0x09 \<longleftrightarrow> c = CHR 0x09"
  using byte_of_inject [of c "CHR 0x08"] byte_of_inject [of c "CHR 0x0C"]
    byte_of_inject [of c "CHR 0x0A"] byte_of_inject [of c "CHR 0x0D"] byte_of_inject [of c "CHR 0x09"]
  by (simp_all add: byte_of_def)

lemma esc_controls:
  "esc_ascii (CHR 0x08) = [bsl, CHR ''b'']" "esc_ascii (CHR 0x0C) = [bsl, CHR ''f'']"
  "esc_ascii (CHR 0x0A) = [bsl, CHR ''n'']" "esc_ascii (CHR 0x0D) = [bsl, CHR ''r'']"
  "esc_ascii (CHR 0x09) = [bsl, CHR ''t'']"
  by (simp_all add: esc_ascii_def byte_of_def bsl_def dquote_def)

lemma unq_esc_ascii:
  assumes "byte_of c < 0x80"
  shows "unq (esc_ascii c @ r) = pre_bytes [c] (unq r)"
proof -
  have u: "unq (u_escape (byte_of c) @ r) = pre_bytes [c] (unq r)"
    using assms by (simp add: unq_u_escape utf8_encode_def)
  let ?ctl = "{CHR 0x08, CHR 0x0C, CHR 0x0A, CHR 0x0D, CHR 0x09}"
  let ?html = "{CHR ''<'', CHR ''>'', CHR ''&''}"
  consider "c = dquote \<or> c = bsl" | "c \<in> ?ctl"
    | "c \<noteq> dquote" "c \<noteq> bsl" "c \<notin> ?ctl" "byte_of c < 0x20 \<or> c \<in> ?html"
    | "c \<noteq> dquote" "c \<noteq> bsl" "c \<notin> ?ctl" "\<not> (byte_of c < 0x20 \<or> c \<in> ?html)"
    by blast
  then show ?thesis
  proof cases
    case 1
    then show ?thesis by (auto simp: esc_ascii_def unq_simple simple_escapes)
  next
    case 2
    then consider "c = CHR 0x08" | "c = CHR 0x0C" | "c = CHR 0x0A" | "c = CHR 0x0D" | "c = CHR 0x09"
      by blast
    then show ?thesis
      by cases (simp_all add: esc_controls unq_simple simple_escapes)
  next
    case 3
    then have "esc_ascii c = u_escape (byte_of c)"
      unfolding esc_ascii_def control_bytes by simp
    with u show ?thesis by simp
  next
    case 4
    then have "esc_ascii c = [c]" unfolding esc_ascii_def control_bytes by simp
    with 4 show ?thesis by (simp add: unq_plain)
  qed
qed

lemma rune_bytes_high:
  assumes "rune_tail c cs = Some k" and "k \<noteq> 0" and "x \<in> set (c # take k cs)"
  shows "0x80 \<le> byte_of x"
  using assms
  by (auto simp: rune_tail_def Let_def is_cont_def in_range_def split: if_splits list.splits)

lemma rune_tail_zero: "rune_tail c cs = Some 0 \<longleftrightarrow> byte_of c < 0x80"
  by (auto simp: rune_tail_def Let_def split: if_splits list.splits)

lemma high_chars:
  "char_of (226 :: nat) = CHR 0xE2" "char_of (128 :: nat) = CHR 0x80" "char_of (168 :: nat) = CHR 0xA8"
  "char_of (169 :: nat) = CHR 0xA9" "char_of (239 :: nat) = CHR 0xEF" "char_of (191 :: nat) = CHR 0xBF"
  "char_of (189 :: nat) = CHR 0xBD"
  by code_simp+

lemma utf8_of_separators:
  "utf8_encode 0x2028 = [CHR 0xE2, CHR 0x80, CHR 0xA8]"
  "utf8_encode 0x2029 = [CHR 0xE2, CHR 0x80, CHR 0xA9]"
  "utf8_encode 0xFFFD = rune_error"
  by (simp_all add: utf8_encode_def rune_error_def high_chars)

lemma unq_esc_rune:
  "\<forall>x \<in> set w. 0x80 \<le> byte_of x \<Longrightarrow> unq (esc_rune w @ r) = pre_bytes w (unq r)"
  by (simp add: esc_rune_def unq_plains unq_u_escape utf8_of_separators)

lemma unq_escape: "unq (json_escape s @ dquote # rest) = Some (utf8_repair s, rest)"
proof (induction s rule: json_escape.induct)
  case 1
  then show ?case by (simp add: unq_quote)
next
  case (2 c cs)
  show ?case
  proof (cases "rune_tail c cs")
    case None
    with 2(1) show ?thesis by (simp add: unq_u_escape utf8_of_separators)
  next
    case (Some k)
    let ?w = "c # take k cs"
    have "unq ((if k = 0 then esc_ascii c else esc_rune ?w) @ t) = pre_bytes ?w (unq t)" for t
    proof (cases "k = 0")
      case True
      with Some have "byte_of c < 0x80" by (simp add: rune_tail_zero)
      with True show ?thesis by (simp add: unq_esc_ascii)
    next
      case False
      with rune_bytes_high [OF Some] show ?thesis by (simp add: unq_esc_rune)
    qed
    with Some 2(2) [OF Some] show ?thesis by simp
  qed
qed

end
