(* ===== verification/JsonText.thy ===== *)
theory JsonText
  imports Json "HOL-Library.Monad_Syntax"
begin

text \<open>
  Documents: \<open>json.Marshal\<close> and \<open>json.MarshalIndent\<close> as one printer over a layout, and the parser
  behind \<open>json.Unmarshal\<close> and \<open>Decoder.Decode\<close>. The parser runs on fuel, \<open>parse_fuel\<close> of it is
  always enough. (The nesting limit of 10000 of the Go parser is not modelled.)
\<close>

section \<open>Printing\<close>

fun join_with :: "string \<Rightarrow> string list \<Rightarrow> string" where
  "join_with sep [] = []"
| "join_with sep [x] = x"
| "join_with sep (x # y # xs) = x @ sep @ join_with sep (y # xs)"

text \<open>A layout: what ends a line at a nesting depth, and what follows a key's colon.\<close>

type_synonym layout = "(nat \<Rightarrow> string) \<times> string"

definition compact :: layout where
  "compact = (\<lambda>_. [], [])"

definition indented :: layout where
  "indented = (\<lambda>d. CHR 0x0A # replicate (2 * d) CHR '' '', '' '')"

fun render :: "layout \<Rightarrow> nat \<Rightarrow> json \<Rightarrow> string" where
  "render l d JNull = ''null''"
| "render l d (JBool b) = (if b then ''true'' else ''false'')"
| "render l d (JNum n) = n"
| "render l d (JStr s) = json_quote s"
| "render l d (JArr xs) =
     (if xs = [] then ''[]''
      else ''['' @ fst l (Suc d) @ join_with ('','' @ fst l (Suc d)) (map (render l (Suc d)) xs)
        @ fst l d @ '']'')"
| "render l d (JObj kvs) =
     (if kvs = [] then ''{}''
      else ''{'' @ fst l (Suc d)
        @ join_with ('','' @ fst l (Suc d))
            (map (\<lambda>kv. json_quote (fst kv) @ '':'' @ snd l @ render l (Suc d) (snd kv)) kvs)
        @ fst l d @ ''}'')"

definition json_marshal :: "json \<Rightarrow> string" where
  "json_marshal j = render compact 0 j"

definition json_marshal_indent :: "json \<Rightarrow> string" where
  "json_marshal_indent j = render indented 0 j"

section \<open>Parsing\<close>

definition is_ws :: "char \<Rightarrow> bool" where
  "is_ws c \<longleftrightarrow> byte_of c = 0x20 \<or> byte_of c = 0x09 \<or> byte_of c = 0x0A \<or> byte_of c = 0x0D"

definition skip_ws :: "string \<Rightarrow> string" where
  "skip_ws s = dropWhile is_ws s"

definition strip_prefix :: "string \<Rightarrow> string \<Rightarrow> string option" where
  "strip_prefix p s = (if prefix p s then Some (drop (length p) s) else None)"

text \<open>The number literal at the front: sign, integer part, fraction, exponent.\<close>

definition span_digits :: "string \<Rightarrow> string \<times> string" where
  "span_digits s = (takeWhile is_digit s, dropWhile is_digit s)"

definition scan_sign :: "string \<Rightarrow> string \<times> string" where
  "scan_sign s = (case s of c # r \<Rightarrow> if c = CHR ''-'' then ([c], r) else ([], s) | [] \<Rightarrow> ([], []))"

definition scan_int :: "string \<Rightarrow> (string \<times> string) option" where
  "scan_int s =
     (case s of [] \<Rightarrow> None
      | c # r \<Rightarrow> if c = CHR ''0'' then Some ([c], r)
               else if is_digit c then Some (c # fst (span_digits r), snd (span_digits r)) else None)"

definition scan_frac :: "string \<Rightarrow> (string \<times> string) option" where
  "scan_frac s =
     (case s of [] \<Rightarrow> Some ([], [])
      | c # r \<Rightarrow> if c = CHR ''.'' then
                   (if fst (span_digits r) = [] then None
                    else Some (c # fst (span_digits r), snd (span_digits r)))
               else Some ([], s))"

definition exp_sign :: "string \<Rightarrow> string \<times> string" where
  "exp_sign s =
     (case s of c # r \<Rightarrow> if c = CHR ''+'' \<or> c = CHR ''-'' then ([c], r) else ([], s) | [] \<Rightarrow> ([], []))"

definition scan_exp :: "string \<Rightarrow> (string \<times> string) option" where
  "scan_exp s =
     (case s of [] \<Rightarrow> Some ([], [])
      | c # r \<Rightarrow> if c = CHR ''e'' \<or> c = CHR ''E'' then
                   (let (sg, q) = exp_sign r; (ds, t) = span_digits q
                    in if ds = [] then None else Some (c # sg @ ds, t))
               else Some ([], s))"

definition scan_number :: "string \<Rightarrow> (string \<times> string) option" where
  "scan_number s =
     (let (a, s1) = scan_sign s in
      case scan_int s1 of None \<Rightarrow> None
      | Some (b, s2) \<Rightarrow> (case scan_frac s2 of None \<Rightarrow> None
        | Some (c, s3) \<Rightarrow> (case scan_exp s3 of None \<Rightarrow> None
          | Some (d, s4) \<Rightarrow> Some (a @ b @ c @ d, s4))))"

text \<open>The next character that is not white space.\<close>

definition token :: "string \<Rightarrow> (char \<times> string) option" where
  "token s = (case skip_ws s of [] \<Rightarrow> None | c # r \<Rightarrow> Some (c, r))"

text \<open>A value that is neither an array nor an object and starts with \<open>c\<close>.\<close>

definition p_scalar :: "char \<Rightarrow> string \<Rightarrow> (json \<times> string) option" where
  "p_scalar c r =
     (if c = dquote then do { (b, t) \<leftarrow> unq r; Some (JStr (utf8_repair b), t) }
      else if c = CHR ''n'' then do { t \<leftarrow> strip_prefix ''null'' (c # r); Some (JNull, t) }
      else if c = CHR ''t'' then do { t \<leftarrow> strip_prefix ''true'' (c # r); Some (JBool True, t) }
      else if c = CHR ''f'' then do { t \<leftarrow> strip_prefix ''false'' (c # r); Some (JBool False, t) }
      else do { (l, t) \<leftarrow> scan_number (c # r); Some (JNum l, t) })"

text \<open>A key and its colon.\<close>

definition p_key :: "string \<Rightarrow> (string \<times> string) option" where
  "p_key s =
     do { (q, s1) \<leftarrow> token s;
          if q \<noteq> dquote then None
          else do { (b, s2) \<leftarrow> unq s1;
                    (c, s3) \<leftarrow> token s2;
                    if c = CHR '':'' then Some (utf8_repair b, s3) else None } }"

fun p_val :: "nat \<Rightarrow> string \<Rightarrow> (json \<times> string) option"
  and p_elems :: "nat \<Rightarrow> string \<Rightarrow> (json list \<times> string) option"
  and p_members :: "nat \<Rightarrow> string \<Rightarrow> ((string \<times> json) list \<times> string) option" where
  "p_val 0 s = None"
| "p_val (Suc n) s =
     do { (c, r) \<leftarrow> token s;
          if c = CHR ''['' then
            do { (d, t) \<leftarrow> token r;
                 if d = CHR '']'' then Some (JArr [], t)
                 else do { (xs, u) \<leftarrow> p_elems n r; Some (JArr xs, u) } }
          else if c = CHR ''{'' then
            do { (d, t) \<leftarrow> token r;
                 if d = CHR ''}'' then Some (JObj [], t)
                 else do { (kvs, u) \<leftarrow> p_members n r; Some (JObj kvs, u) } }
          else p_scalar c r }"
| "p_elems 0 s = None"
| "p_elems (Suc n) s =
     do { (v, r) \<leftarrow> p_val n s;
          (c, t) \<leftarrow> token r;
          if c = CHR '']'' then Some ([v], t)
          else if c = CHR '','' then do { (vs, u) \<leftarrow> p_elems n t; Some (v # vs, u) }
          else None }"
| "p_members 0 s = None"
| "p_members (Suc n) s =
     do { (k, r) \<leftarrow> p_key s;
          (v, t) \<leftarrow> p_val n r;
          (c, u) \<leftarrow> token t;
          if c = CHR ''}'' then Some ([(k, v)], u)
          else if c = CHR '','' then do { (kvs, w) \<leftarrow> p_members n u; Some ((k, v) # kvs, w) }
          else None }"

definition parse_fuel :: "string \<Rightarrow> nat" where
  "parse_fuel s = 2 * length s + 2"

text \<open>
  \<open>Decoder.Decode\<close> reads the first value and leaves the rest of the stream; \<open>Unmarshal\<close> wants
  nothing but white space after it.
\<close>

definition json_decode_first :: "string \<Rightarrow> json option" where
  "json_decode_first s = map_option fst (p_val (parse_fuel s) s)"

definition json_unmarshal :: "string \<Rightarrow> json option" where
  "json_unmarshal s =
     (case p_val (parse_fuel s) s of None \<Rightarrow> None
      | Some (v, r) \<Rightarrow> if skip_ws r = [] then Some v else None)"

section \<open>The fuel is enough\<close>

lemma skip_ws_length: "length (skip_ws s) \<le> length s"
  by (simp add: skip_ws_def length_dropWhile_le)

lemma token_length: "token s = Some (c, r) \<Longrightarrow> length r < length s"
  using skip_ws_length [of s] by (auto simp: token_def split: list.splits)

lemma span_digits_length: "length (snd (span_digits s)) \<le> length s"
  by (simp add: span_digits_def length_dropWhile_le)

lemma strip_prefix_length: "strip_prefix p s = Some t \<Longrightarrow> length t \<le> length s"
  by (auto simp: strip_prefix_def split: if_splits)

lemma unq_length: "unq s = Some (b, t) \<Longrightarrow> length t < length s"
proof (induction s arbitrary: b t rule: unq.induct)
  case 1
  then show ?case by simp
next
  case (2 c cs)
  have u: "length (snd (u_bytes v r)) \<le> length r" for v r
    using u_bytes_shorter [of v r] by (cases "u_bytes v r") auto
  from 2 show ?case
    apply (subst (asm) unq.simps(2))
    apply (auto split: if_splits list.splits option.splits prod.splits)
     apply (meson u le_less_trans less_SucI less_imp_le order_trans le_imp_less_Suc)
    apply force+
    done
qed

lemma scan_sign_length: "length (snd (scan_sign s)) \<le> length s"
  by (auto simp: scan_sign_def split: list.splits)

lemma scan_int_length: "scan_int s = Some (b, r) \<Longrightarrow> length r < length s"
  by (auto simp: scan_int_def less_Suc_eq_le span_digits_length split: list.splits if_splits)

lemma scan_frac_length: "scan_frac s = Some (b, r) \<Longrightarrow> length r \<le> length s"
  by (auto simp: scan_frac_def intro: le_SucI span_digits_length split: list.splits if_splits)

lemma exp_sign_length: "length (snd (exp_sign s)) \<le> length s"
  by (auto simp: exp_sign_def split: list.splits)

lemma scan_exp_length: "scan_exp s = Some (b, r) \<Longrightarrow> length r \<le> length s"
  using le_trans [OF span_digits_length exp_sign_length]
  by (auto simp: scan_exp_def case_prod_unfold Let_def intro: le_SucI split: list.splits if_splits)

lemma scan_number_length: "scan_number s = Some (b, r) \<Longrightarrow> length r < length s"
  using scan_sign_length [of s]
  by (fastforce simp: scan_number_def split: prod.splits option.splits
      dest!: scan_int_length scan_frac_length scan_exp_length)

lemma p_scalar_length: "p_scalar c r = Some (v, t) \<Longrightarrow> length t \<le> length r"
  by (auto simp: p_scalar_def bind_eq_Some_conv strip_prefix_def split: if_splits
      dest!: unq_length scan_number_length)

lemma p_key_length: "p_key s = Some (k, r) \<Longrightarrow> length r < length s"
  by (auto simp: p_key_def bind_eq_Some_conv split: if_splits dest!: unq_length token_length)

lemma parse_shorter:
  "p_val n s = Some (v, r) \<Longrightarrow> length r < length s"
  "p_elems n s = Some (xs, r) \<Longrightarrow> length r < length s"
  "p_members n s = Some (kvs, r) \<Longrightarrow> length r < length s"
proof (induction n s and n s and n s arbitrary: v r and xs r and kvs r
    rule: p_val_p_elems_p_members.induct)
  case (2 n s)
  then show ?case
    by (fastforce simp: bind_eq_Some_conv split: if_splits dest: token_length p_scalar_length)
next
  case (4 n s)
  then show ?case
    by (fastforce simp: bind_eq_Some_conv split: if_splits dest: token_length)
next
  case (6 n s)
  then show ?case
    by (fastforce simp: bind_eq_Some_conv split: if_splits dest: token_length p_key_length)
qed simp_all

lemma parse_enough:
  "2 * length s < n \<Longrightarrow> p_val (Suc n) s = p_val n s"
  "2 * length s + 1 < n \<Longrightarrow> p_elems (Suc n) s = p_elems n s"
  "2 * length s + 1 < n \<Longrightarrow> p_members (Suc n) s = p_members n s"
proof (induction n s and n s and n s rule: p_val_p_elems_p_members.induct)
  case (2 n s)
  have len: "2 * length r + 1 < n" if "token s = Some (c, r)" for c r
    using token_length [OF that] "2.prems" by linarith
  have e: "p_elems (Suc n) r = p_elems n r"
    if "token s = Some (CHR ''['', r)" "token r = Some (d, t)" "d \<noteq> CHR '']''" for r d t
    using 2(1) that len [OF that(1)] by auto
  have m: "p_members (Suc n) r = p_members n r"
    if "token s = Some (CHR ''{'', r)" "token r = Some (d, t)" "d \<noteq> CHR ''}''" for r d t
    using 2(2) that len [OF that(1)] by auto
  show ?case unfolding p_val.simps(2)
    by (auto intro!: Option.bind_cong simp: e m cong: if_cong simp del: p_elems.simps p_members.simps)
next
  case (4 n s)
  have v: "p_val (Suc n) s = p_val n s" using 4 by simp
  have len: "2 * length t + 1 < n" if "p_val n s = Some (w, r)" "token r = Some (c, t)" for w r c t
    using parse_shorter(1) [OF that(1)] token_length [OF that(2)] "4.prems" by linarith
  have e: "p_elems (Suc n) t = p_elems n t"
    if "p_val n s = Some (w, r)" "token r = Some (CHR '','', t)" for w r t
    using 4(2) that len [OF that] by auto
  show ?case unfolding p_elems.simps(2) [of "Suc n" s] p_elems.simps(2) [of n s] v
    by (auto intro!: Option.bind_cong simp: e cong: if_cong simp del: p_elems.simps p_val.simps)
next
  case (6 n s)
  have "2 * length r < n" if "p_key s = Some (k, r)" for k r
    using p_key_length [OF that] "6.prems" by linarith
  then have v: "p_val (Suc n) r = p_val n r" if "p_key s = Some (k, r)" for k r
    using 6(1) that by simp
  have len: "2 * length u + 1 < n"
    if "p_key s = Some (k, r)" "p_val n r = Some (w, t)" "token t = Some (c, u)" for k r w t c u
    using p_key_length [OF that(1)] parse_shorter(1) [OF that(2)] token_length [OF that(3)] "6.prems"
    by linarith
  have m: "p_members (Suc n) u = p_members n u"
    if "p_key s = Some (k, r)" "p_val n r = Some (w, t)" "token t = Some (CHR '','', u)" for k r w t u
    using 6(2) that len [OF that] by auto
  show ?case unfolding p_members.simps(2) [of "Suc n" s] p_members.simps(2) [of n s]
    by (auto intro!: Option.bind_cong simp: v m cong: if_cong simp del: p_members.simps p_val.simps)
qed simp_all

text \<open>More fuel than \<open>parse_fuel\<close> changes nothing, so \<open>None\<close> always means a syntax error.\<close>

lemma parse_fuel_enough: "parse_fuel s \<le> n \<Longrightarrow> p_val n s = p_val (parse_fuel s) s"
proof (induction n rule: dec_induct)
  case base
  show ?case by (rule refl)
next
  case (step n)
  then have "2 * length s < n" by (simp add: parse_fuel_def)
  then show ?case using step.IH by (simp only: parse_enough(1))
qed

section \<open>Parsing what was printed\<close>

text \<open>What may follow a value inside a printed document.\<close>

definition delim :: "string \<Rightarrow> bool" where
  "delim r \<longleftrightarrow> (case r of [] \<Rightarrow> True | c # _ \<Rightarrow> c \<in> {CHR '','', CHR '']'', CHR ''}''} \<or> is_ws c)"

definition ws_only :: "string \<Rightarrow> bool" where
  "ws_only s \<longleftrightarrow> (\<forall>c \<in> set s. is_ws c)"

definition ws_layout :: "layout \<Rightarrow> bool" where
  "ws_layout l \<longleftrightarrow> (\<forall>d. ws_only (fst l d)) \<and> ws_only (snd l)"

lemma ws_layouts: "ws_layout compact" "ws_layout indented"
  by (simp_all add: ws_layout_def ws_only_def compact_def indented_def is_ws_def byte_of_def)

lemma skip_ws_append: "ws_only w \<Longrightarrow> skip_ws (w @ s) = skip_ws s"
  by (simp add: skip_ws_def ws_only_def dropWhile_append2)

lemma token_ws: "ws_only w \<Longrightarrow> token (w @ s) = token s"
  by (simp add: token_def skip_ws_append)

lemma token_Cons: "\<not> is_ws c \<Longrightarrow> token (c # s) = Some (c, s)"
  by (simp add: token_def skip_ws_def)

lemma not_ws:
  "\<not> is_ws dquote" "\<not> is_ws (CHR ''['')" "\<not> is_ws (CHR '']'')" "\<not> is_ws (CHR ''{'')" "\<not> is_ws (CHR ''}'')"
  "\<not> is_ws (CHR '','')" "\<not> is_ws (CHR '':'')" "\<not> is_ws (CHR ''n'')" "\<not> is_ws (CHR ''t'')" "\<not> is_ws (CHR ''f'')"
  by (simp_all add: is_ws_def byte_of_def dquote_def)

lemma dquote_neq:
  "dquote \<noteq> CHR ''[''" "dquote \<noteq> CHR ''{''" "dquote \<noteq> CHR '']''" "dquote \<noteq> CHR ''}''"
  "dquote \<noteq> CHR '','' " "CHR ''['' \<noteq> dquote" "CHR ''{'' \<noteq> dquote" "CHR ''n'' \<noteq> dquote"
  "CHR ''t'' \<noteq> dquote" "CHR ''f'' \<noteq> dquote"
  by (simp_all add: dquote_def)

text \<open>Number literals: what the scanner takes whole, and takes again in front of a delimiter.\<close>

definition num_lit :: "string \<Rightarrow> bool" where
  "num_lit l \<longleftrightarrow> scan_number l = Some (l, [])"

lemma delim_not:
  "delim (c # r) \<Longrightarrow> \<not> is_digit c \<and> c \<noteq> CHR ''.'' \<and> c \<noteq> CHR ''e'' \<and> c \<noteq> CHR ''E''"
  by (auto simp: delim_def is_ws_def is_digit_def byte_of_def)

lemma span_digits_delim:
  "delim r \<Longrightarrow> span_digits (s @ r) = (fst (span_digits s), snd (span_digits s) @ r)"
proof (induction s)
  case Nil
  then show ?case by (cases r) (auto simp: span_digits_def dest: delim_not)
next
  case (Cons c s)
  then show ?case by (simp add: span_digits_def)
qed

lemma scan_sign_delim:
  "s \<noteq> [] \<Longrightarrow> scan_sign (s @ r) = (fst (scan_sign s), snd (scan_sign s) @ r)"
  by (cases s) (auto simp: scan_sign_def)

lemma scan_int_delim: "delim r \<Longrightarrow> scan_int s = Some (a, t) \<Longrightarrow> scan_int (s @ r) = Some (a, t @ r)"
  by (auto simp: scan_int_def span_digits_delim split: list.splits if_splits)

lemma scan_frac_delim: "delim r \<Longrightarrow> scan_frac s = Some (a, t) \<Longrightarrow> scan_frac (s @ r) = Some (a, t @ r)"
  by (cases s; cases r) (auto simp: scan_frac_def span_digits_delim dest: delim_not split: if_splits)

lemma exp_sign_delim: "delim r \<Longrightarrow> exp_sign (s @ r) = (fst (exp_sign s), snd (exp_sign s) @ r)"
  by (cases s; cases r) (auto simp: exp_sign_def delim_def is_ws_def byte_of_def)

lemma scan_exp_delim: "delim r \<Longrightarrow> scan_exp s = Some (a, t) \<Longrightarrow> scan_exp (s @ r) = Some (a, t @ r)"
  by (cases s; cases r)
    (auto simp: scan_exp_def case_prod_unfold Let_def exp_sign_delim span_digits_delim
      dest: delim_not split: if_splits)

lemma scan_number_delim:
  assumes "delim r" and "num_lit l"
  shows "scan_number (l @ r) = Some (l, r)"
proof -
  let ?sg = "scan_sign l"
  have "l \<noteq> []" using assms(2) by (auto simp: num_lit_def scan_number_def scan_sign_def scan_int_def)
  then have sg: "scan_sign (l @ r) = (fst ?sg, snd ?sg @ r)" by (rule scan_sign_delim)
  from assms(2) obtain i s2 f s3 e where i: "scan_int (snd ?sg) = Some (i, s2)"
    and f: "scan_frac s2 = Some (f, s3)" and e: "scan_exp s3 = Some (e, [])"
    and l: "fst ?sg @ i @ f @ e = l"
    by (auto simp: num_lit_def scan_number_def case_prod_unfold Let_def split: option.splits)
  show ?thesis
    using scan_int_delim [OF assms(1) i] scan_frac_delim [OF assms(1) f] scan_exp_delim [OF assms(1) e]
    by (simp add: scan_number_def sg l)
qed

text \<open>A document as it is read back: its strings repaired.\<close>

fun json_repair :: "json \<Rightarrow> json" where
  "json_repair JNull = JNull"
| "json_repair (JBool b) = JBool b"
| "json_repair (JNum n) = JNum n"
| "json_repair (JStr s) = JStr (utf8_repair s)"
| "json_repair (JArr xs) = JArr (map json_repair xs)"
| "json_repair (JObj kvs) = JObj (map (\<lambda>kv. (utf8_repair (fst kv), json_repair (snd kv))) kvs)"

fun json_nums :: "json \<Rightarrow> bool" where
  "json_nums (JNum n) = num_lit n"
| "json_nums (JArr xs) = list_all json_nums xs"
| "json_nums (JObj kvs) = list_all (\<lambda>kv. json_nums (snd kv)) kvs"
| "json_nums _ = True"

fun fuel_of :: "json \<Rightarrow> nat" where
  "fuel_of (JArr xs) = 2 + length xs + sum_list (map fuel_of xs)"
| "fuel_of (JObj kvs) = 2 + length kvs + sum_list (map (\<lambda>kv. fuel_of (snd kv)) kvs)"
| "fuel_of _ = 1"

lemma delim_ws: "ws_only w \<Longrightarrow> delim (w @ c # r) \<longleftrightarrow> w \<noteq> [] \<or> delim (c # r)"
  by (cases w) (auto simp: ws_only_def delim_def)

lemma p_val_ws: "ws_only w \<Longrightarrow> p_val n (w @ s) = p_val n s"
  by (cases n) (simp_all add: token_ws)

lemma p_elems_ws: "ws_only w \<Longrightarrow> p_elems n (w @ s) = p_elems n s"
  by (cases n) (simp_all add: p_val_ws)

lemma p_members_ws: "ws_only w \<Longrightarrow> p_members n (w @ s) = p_members n s"
  by (cases n) (simp_all add: p_key_def token_ws)

lemma p_key_quote:
  "p_key (json_quote k @ CHR '':'' # s) = Some (utf8_repair k, s)"
  by (simp add: p_key_def json_quote_def token_Cons not_ws unq_escape utf8_repair_idem)

lemma delim_close:
  "ws_only w \<Longrightarrow> delim (w @ CHR '']'' # r)" "ws_only w \<Longrightarrow> delim (w @ CHR ''}'' # r)"
  by (cases w; simp add: delim_def ws_only_def)+

lemma p_elems_join:
  assumes "\<And>t v n r. (t, v) \<in> set tvs \<Longrightarrow> delim r \<Longrightarrow> m \<le> n \<Longrightarrow> p_val n (t @ r) = Some (v, r)"
    and "ws_only w" and "ws_only w'" and "tvs \<noteq> []" and "m + length tvs \<le> n"
  shows "p_elems n (join_with (CHR '','' # w) (map fst tvs) @ w' @ CHR '']'' # r) = Some (map snd tvs, r)"
  using assms
proof (induction tvs arbitrary: n)
  case Nil
  then show ?case by simp
next
  case (Cons tv tvs)
  obtain t v where tv: "tv = (t, v)" by (cases tv)
  obtain k where n: "n = Suc k" "m + length tvs \<le> k" using Cons.prems(5) by (cases n) auto
  have hd: "p_val k (t @ q) = Some (v, q)" if "delim q" for q
    using Cons.prems(1) [of t v q k] that n by (simp add: tv)
  show ?case
  proof (cases tvs)
    case Nil
    have "delim (w' @ CHR '']'' # r)" using Cons.prems(3) by (rule delim_close)
    with Nil Cons.prems(3) show ?thesis by (simp add: n tv hd token_ws token_Cons not_ws)
  next
    case (Cons tv' tvs')
    have "delim (CHR '','' # w @ q)" for q by (simp add: delim_def)
    moreover have "p_elems k (join_with (CHR '','' # w) (map fst tvs) @ w' @ CHR '']'' # r)
        = Some (map snd tvs, r)"
      using Cons.prems n Cons by (intro Cons.IH) auto
    ultimately show ?thesis using Cons.prems(2) Cons
      by (simp add: n tv hd token_Cons not_ws p_elems_ws)
  qed
qed

lemma p_members_join:
  assumes "\<And>k t v n r. (k, t, v) \<in> set tvs \<Longrightarrow> delim r \<Longrightarrow> m \<le> n \<Longrightarrow> p_val n (t @ r) = Some (v, r)"
    and "ws_only w" and "ws_only w'" and "ws_only sp" and "tvs \<noteq> []" and "m + length tvs \<le> n"
  shows "p_members n (join_with (CHR '','' # w)
        (map (\<lambda>(k, t, v). json_quote k @ CHR '':'' # sp @ t) tvs) @ w' @ CHR ''}'' # r) =
      Some (map (\<lambda>(k, t, v). (utf8_repair k, v)) tvs, r)"
  using assms
proof (induction tvs arbitrary: n)
  case Nil
  then show ?case by simp
next
  case (Cons tv tvs)
  obtain key t v where tv: "tv = (key, t, v)" by (cases tv)
  obtain k where n: "n = Suc k" "m + length tvs \<le> k" using Cons.prems(6) by (cases n) auto
  have hd: "p_val k (sp @ t @ q) = Some (v, q)" if "delim q" for q
    using Cons.prems(1) [of key t v q k] Cons.prems(4) that n by (simp add: tv p_val_ws)
  show ?case
  proof (cases tvs)
    case Nil
    have "delim (w' @ CHR ''}'' # r)" using Cons.prems(3) by (rule delim_close)
    with Nil Cons.prems(3) show ?thesis by (simp add: n tv hd p_key_quote token_ws token_Cons not_ws)
  next
    case (Cons tv' tvs')
    have "delim (CHR '','' # w @ q)" for q by (simp add: delim_def)
    moreover have "p_members k (join_with (CHR '','' # w)
        (map (\<lambda>(k, t, v). json_quote k @ CHR '':'' # sp @ t) tvs) @ w' @ CHR ''}'' # r)
        = Some (map (\<lambda>(k, t, v). (utf8_repair k, v)) tvs, r)"
    proof (rule Cons.IH)
      fix k t v n r
      assume "(k, t, v) \<in> set tvs" "delim r" "m \<le> n"
      then show "p_val n (t @ r) = Some (v, r)" by (intro Cons.prems(1)) auto
    qed (use Cons.prems n Cons in simp_all)
    ultimately show ?thesis using Cons.prems(2) Cons
      by (simp add: n tv hd p_key_quote token_Cons not_ws p_members_ws)
  qed
qed

lemma num_lit_first: "num_lit l \<Longrightarrow> \<exists>c t. l = c # t \<and> (c = CHR ''-'' \<or> is_digit c)"
  by (cases l)
    (auto simp: num_lit_def scan_number_def scan_sign_def scan_int_def is_digit_def byte_of_def
      split: if_splits option.splits prod.splits)

lemma num_first:
  "c = CHR ''-'' \<or> is_digit c \<Longrightarrow>
     \<not> is_ws c \<and> c \<noteq> CHR '']'' \<and> c \<noteq> CHR ''['' \<and> c \<noteq> CHR ''{'' \<and> c \<noteq> dquote \<and> c \<noteq> CHR ''n''
     \<and> c \<noteq> CHR ''t'' \<and> c \<noteq> CHR ''f''"
  by (auto simp: is_ws_def is_digit_def byte_of_def dquote_def)

lemma render_first:
  "json_nums j \<Longrightarrow> \<exists>c t. render l d j = c # t \<and> \<not> is_ws c \<and> c \<noteq> CHR '']''"
proof (cases j)
  case (JNum m)
  assume "json_nums j"
  then have "num_lit m" by (simp add: JNum)
  then obtain c t where "m = c # t" "c = CHR ''-'' \<or> is_digit c" using num_lit_first by blast
  with JNum num_first [of c] show ?thesis by auto
qed (simp_all add: json_quote_def not_ws dquote_neq)

lemma p_val_number: "num_lit l \<Longrightarrow> delim r \<Longrightarrow> p_val (Suc n) (l @ r) = Some (JNum l, r)"
proof -
  assume l: "num_lit l" and r: "delim r"
  obtain c t where c: "l = c # t" "c = CHR ''-'' \<or> is_digit c" using num_lit_first [OF l] by blast
  have "token (l @ r) = Some (c, t @ r)" using num_first [OF c(2)] by (simp add: c(1) token_Cons)
  moreover have "p_scalar c (t @ r) = Some (JNum l, r)"
    using num_first [OF c(2)] scan_number_delim [OF r l] by (simp add: c(1) p_scalar_def)
  ultimately show ?thesis using num_first [OF c(2)] by simp
qed

lemma p_val_string: "p_val (Suc n) (json_quote s @ r) = Some (JStr (utf8_repair s), r)"
  by (simp add: json_quote_def token_Cons not_ws dquote_neq p_scalar_def unq_escape utf8_repair_idem)

lemma p_val_array:
  assumes layout: "ws_layout l" and nums: "json_nums (JArr xs)" and fuel: "fuel_of (JArr xs) \<le> n"
    and IH: "\<And>y d r n. y \<in> set xs \<Longrightarrow> json_nums y \<Longrightarrow> delim r \<Longrightarrow> fuel_of y \<le> n \<Longrightarrow>
      p_val n (render l d y @ r) = Some (json_repair y, r)"
  shows "p_val n (render l d (JArr xs) @ r) = Some (json_repair (JArr xs), r)"
proof -
  from layout have w: "ws_only (fst l k)" for k by (simp add: ws_layout_def)
  from fuel obtain k where n: "n = Suc k" "sum_list (map fuel_of xs) + length xs \<le> k"
    by (cases n) auto
  show ?thesis
  proof (cases xs)
    case Nil
    then show ?thesis by (simp add: n token_Cons not_ws)
  next
    case (Cons x ys)
    let ?tvs = "map (\<lambda>x. (render l (Suc d) x, json_repair x)) xs"
    let ?body = "join_with (CHR '','' # fst l (Suc d)) (map (render l (Suc d)) xs) @ fst l d @ CHR '']'' # r"
    have "p_elems k (join_with (CHR '','' # fst l (Suc d)) (map fst ?tvs) @ fst l d @ CHR '']'' # r)
        = Some (map snd ?tvs, r)"
    proof (rule p_elems_join [where m = "sum_list (map fuel_of xs)"])
      fix t v n' q
      assume "(t, v) \<in> set ?tvs" and q: "delim q" and n': "sum_list (map fuel_of xs) \<le> n'"
      then obtain y where y: "y \<in> set xs" "t = render l (Suc d) y" "v = json_repair y" by auto
      have "fuel_of y \<le> n'" using member_le_sum_list [of "fuel_of y" "map fuel_of xs"] y(1) n' by simp
      moreover have "json_nums y" using nums y(1) by (simp add: list_all_iff)
      ultimately show "p_val n' (t @ q) = Some (v, q)" using IH y q by simp
    qed (use w Cons n in auto)
    then have e: "p_elems k ?body = Some (map json_repair xs, r)" by (simp add: comp_def)
    obtain c t where ct: "?body = c # t" "\<not> is_ws c" "c \<noteq> CHR '']''"
    proof -
      have "json_nums x" using nums Cons by simp
      with that show ?thesis using render_first [of x l "Suc d"] Cons by (cases ys) auto
    qed
    have "token (fst l (Suc d) @ ?body) = Some (c, t)" using ct w by (simp add: token_ws token_Cons)
    with e ct(3) w show ?thesis using Cons
      by (simp add: n(1) token_Cons not_ws p_elems_ws del: p_elems.simps)
  qed
qed

lemma p_val_object:
  assumes layout: "ws_layout l" and nums: "json_nums (JObj kvs)" and fuel: "fuel_of (JObj kvs) \<le> n"
    and IH: "\<And>kv d r n. kv \<in> set kvs \<Longrightarrow> json_nums (snd kv) \<Longrightarrow> delim r \<Longrightarrow> fuel_of (snd kv) \<le> n \<Longrightarrow>
      p_val n (render l d (snd kv) @ r) = Some (json_repair (snd kv), r)"
  shows "p_val n (render l d (JObj kvs) @ r) = Some (json_repair (JObj kvs), r)"
proof -
  from layout have w: "ws_only (fst l k)" and sp: "ws_only (snd l)" for k
    by (simp_all add: ws_layout_def)
  from fuel obtain k
    where n: "n = Suc k" "sum_list (map (\<lambda>kv. fuel_of (snd kv)) kvs) + length kvs \<le> k"
    by (cases n) auto
  show ?thesis
  proof (cases kvs)
    case Nil
    then show ?thesis by (simp add: n token_Cons not_ws)
  next
    case (Cons x ys)
    let ?tvs = "map (\<lambda>kv. (fst kv, render l (Suc d) (snd kv), json_repair (snd kv))) kvs"
    let ?item = "\<lambda>kv. json_quote (fst kv) @ '':'' @ snd l @ render l (Suc d) (snd kv)"
    let ?body = "join_with (CHR '','' # fst l (Suc d)) (map ?item kvs) @ fst l d @ CHR ''}'' # r"
    have "p_members k (join_with (CHR '','' # fst l (Suc d))
          (map (\<lambda>(k, t, v). json_quote k @ CHR '':'' # snd l @ t) ?tvs) @ fst l d @ CHR ''}'' # r)
        = Some (map (\<lambda>(k, t, v). (utf8_repair k, v)) ?tvs, r)"
    proof (rule p_members_join [where m = "sum_list (map (\<lambda>kv. fuel_of (snd kv)) kvs)"])
      fix key t v n' q
      assume "(key, t, v) \<in> set ?tvs" and q: "delim q"
        and n': "sum_list (map (\<lambda>kv. fuel_of (snd kv)) kvs) \<le> n'"
      then obtain y where y: "y \<in> set kvs" "t = render l (Suc d) (snd y)" "v = json_repair (snd y)"
        by auto
      have "fuel_of (snd y) \<le> n'"
        using member_le_sum_list [of "fuel_of (snd y)" "map (\<lambda>kv. fuel_of (snd kv)) kvs"] y(1) n'
        by simp
      moreover have "json_nums (snd y)" using nums y(1) by (simp add: list_all_iff)
      ultimately show "p_val n' (t @ q) = Some (v, q)" using IH y q by simp
    qed (use w sp Cons n in auto)
    then have e: "p_members k ?body = Some (map (\<lambda>kv. (utf8_repair (fst kv), json_repair (snd kv))) kvs, r)"
      by (simp add: comp_def)
    obtain t where "?body = dquote # t" using Cons by (cases ys) (auto simp: json_quote_def)
    then have "token (fst l (Suc d) @ ?body) = Some (dquote, t)"
      using w by (simp add: token_ws token_Cons not_ws)
    with e w show ?thesis using Cons
      by (simp add: n(1) token_Cons not_ws dquote_neq p_members_ws del: p_members.simps)
  qed
qed

theorem p_val_render:
  assumes "ws_layout l"
  shows "json_nums j \<Longrightarrow> delim r \<Longrightarrow> fuel_of j \<le> n
    \<Longrightarrow> p_val n (render l d j @ r) = Some (json_repair j, r)"
proof (induction j arbitrary: d r n rule: json_repair.induct)
  case (3 m)
  then show ?case by (cases n) (simp_all add: p_val_number del: p_val.simps(2))
next
  case (4 s)
  then show ?case by (cases n) (simp_all add: p_val_string del: p_val.simps(2))
next
  case (5 xs)
  show ?case using assms "5.prems"(1,3) by (rule p_val_array) (rule "5.IH")
next
  case (6 kvs)
  show ?case using assms "6.prems"(1,3) by (rule p_val_object) (rule "6.IH")
next
  case 1
  then show ?case
    by (cases n) (simp_all add: token_Cons not_ws p_scalar_def strip_prefix_def dquote_neq)
next
  case (2 b)
  then show ?case
    by (cases n; cases b) (simp_all add: token_Cons not_ws p_scalar_def strip_prefix_def dquote_neq)
qed

lemma length_join_with:
  "sep \<noteq> [] \<Longrightarrow> xs \<noteq> [] \<Longrightarrow>
     sum_list (map length xs) + length xs \<le> Suc (length (join_with sep xs))"
  by (induction sep xs rule: join_with.induct) (auto simp: Suc_le_eq simp flip: length_greater_0_conv)

lemma sum_list_le_double:
  "(\<And>x. x \<in> set xs \<Longrightarrow> f x \<le> 2 * length (g x)) \<Longrightarrow>
     sum_list (map f xs) \<le> 2 * sum_list (map length (map g xs))" for f :: "'a \<Rightarrow> nat"
  by (induction xs) (auto simp: comp_def intro!: add_mono)

lemma fuel_of_le: "json_nums j \<Longrightarrow> fuel_of j \<le> 2 * length (render l d j)"
proof (induction j arbitrary: d rule: json_repair.induct)
  case (3 m)
  then show ?case using num_lit_first [of m] by auto
next
  case (5 xs)
  have "sum_list (map fuel_of xs) \<le> 2 * sum_list (map length (map (render l (Suc d)) xs))"
    using 5 by (intro sum_list_le_double) (simp add: list_all_iff)
  then show ?case
    using length_join_with [of "'','' @ fst l (Suc d)" "map (render l (Suc d)) xs"]
    by (cases "xs = []") simp_all
next
  case (6 kvs)
  let ?item = "\<lambda>kv. json_quote (fst kv) @ '':'' @ snd l @ render l (Suc d) (snd kv)"
  have "sum_list (map (\<lambda>kv. fuel_of (snd kv)) kvs) \<le> 2 * sum_list (map length (map ?item kvs))"
  proof (rule sum_list_le_double)
    fix kv
    assume "kv \<in> set kvs"
    with 6 have "fuel_of (snd kv) \<le> 2 * length (render l (Suc d) (snd kv))" by (simp add: list_all_iff)
    then show "fuel_of (snd kv) \<le> 2 * length (?item kv)" by simp
  qed
  then show ?case using length_join_with [of "'','' @ fst l (Suc d)" "map ?item kvs"]
    by (cases "kvs = []") simp_all
qed (simp_all add: json_quote_def)

lemma p_val_render_fuel:
  assumes "ws_layout l" and "json_nums j" and "ws_only w"
  shows "p_val (parse_fuel (render l d j @ w)) (render l d j @ w) = Some (json_repair j, w)"
proof (rule p_val_render [OF assms(1,2)])
  show "delim w" using assms(3) by (cases w) (auto simp: delim_def ws_only_def)
  show "fuel_of j \<le> parse_fuel (render l d j @ w)"
    using fuel_of_le [OF assms(2), of l d] by (simp add: parse_fuel_def)
qed

lemma skip_ws_only: "ws_only w \<Longrightarrow> skip_ws w = []"
  by (simp add: skip_ws_def ws_only_def)

theorem unmarshal_render:
  "ws_layout l \<Longrightarrow> json_nums j \<Longrightarrow> ws_only w \<Longrightarrow>
     json_unmarshal (render l d j @ w) = Some (json_repair j)"
  by (simp add: json_unmarshal_def p_val_render_fuel skip_ws_only)

theorem decode_first_render:
  "ws_layout l \<Longrightarrow> json_nums j \<Longrightarrow> ws_only w \<Longrightarrow>
     json_decode_first (render l d j @ w) = Some (json_repair j)"
  by (simp add: json_decode_first_def p_val_render_fuel)

lemma ws_only_simps: "ws_only []" "ws_only [CHR 0x0A]"
  by (simp_all add: ws_only_def is_ws_def byte_of_def)

lemma unmarshal_marshal: "json_nums j \<Longrightarrow> json_unmarshal (json_marshal j) = Some (json_repair j)"
  using unmarshal_render [OF ws_layouts(1), of j "[]" 0] by (simp add: json_marshal_def ws_only_simps)

lemma unmarshal_marshal_indent:
  "json_nums j \<Longrightarrow> json_unmarshal (json_marshal_indent j) = Some (json_repair j)"
  using unmarshal_render [OF ws_layouts(2), of j "[]" 0]
  by (simp add: json_marshal_indent_def ws_only_simps)

lemma decode_marshal:
  "json_nums j \<Longrightarrow> json_decode_first (json_marshal j @ [CHR 0x0A]) = Some (json_repair j)"
  using decode_first_render [OF ws_layouts(1), of j "[CHR 0x0A]" 0]
  by (simp add: json_marshal_def ws_only_simps)

end
