(* ===== verification/GoTime.thy ===== *)
theory GoTime
  imports Prelude "HOL-Library.Monad_Syntax"
begin

text \<open>
  The part of package \<open>time\<close> the daemon relies on: a \<open>time.Time\<close> by its civil fields and the
  offset of its zone, \<open>MarshalJSON\<close> (RFC 3339 with nanoseconds, trailing zeros dropped, an error
  for years and offsets the format has no room for) and \<open>UnmarshalJSON\<close>, with the leniency the
  library has towards RFC 3339: one-digit hours, a comma before the fraction, offsets up to 24:60.
\<close>

record gotime =
  t_year :: int
  t_month :: nat
  t_day :: nat
  t_hour :: nat
  t_min :: nat
  t_sec :: nat
  t_nsec :: nat
  t_off :: int

text \<open>The zero value of \<open>time.Time\<close>.\<close>

definition zero_time :: gotime where
  "zero_time = \<lparr>t_year = 1, t_month = 1, t_day = 1, t_hour = 0, t_min = 0, t_sec = 0, t_nsec = 0, t_off = 0\<rparr>"

definition leap_year :: "int \<Rightarrow> bool" where
  "leap_year y \<longleftrightarrow> 4 dvd y \<and> (\<not> 100 dvd y \<or> 400 dvd y)"

definition days_in :: "nat \<Rightarrow> int \<Rightarrow> nat" where
  "days_in m y =
     (if m = 2 then (if leap_year y then 29 else 28)
      else if m \<in> {4, 6, 9, 11} then 30 else 31)"

text \<open>Values \<open>time.Time\<close> can take, the zone offset being whole minutes.\<close>

definition time_wf :: "gotime \<Rightarrow> bool" where
  "time_wf t \<longleftrightarrow> 1 \<le> t_month t \<and> t_month t \<le> 12 \<and> 1 \<le> t_day t \<and> t_day t \<le> days_in (t_month t) (t_year t)
     \<and> t_hour t < 24 \<and> t_min t < 60 \<and> t_sec t < 60 \<and> t_nsec t < 1000000000"

text \<open>Values \<open>MarshalJSON\<close> accepts.\<close>

definition time_printable :: "gotime \<Rightarrow> bool" where
  "time_printable t \<longleftrightarrow> 0 \<le> t_year t \<and> t_year t \<le> 9999 \<and> \<bar>t_off t\<bar> < 24 * 60"

section \<open>Decimal numerals of fixed width\<close>

definition digit_char :: "nat \<Rightarrow> char" where
  "digit_char d = char_of (48 + d)"

fun pad_num :: "nat \<Rightarrow> nat \<Rightarrow> string" where
  "pad_num 0 n = []"
| "pad_num (Suc w) n = pad_num w (n div 10) @ [digit_char (n mod 10)]"

definition digit_val :: "char \<Rightarrow> nat" where
  "digit_val c = byte_of c - 48"

definition num_val :: "string \<Rightarrow> nat" where
  "num_val s = foldl (\<lambda>n c. 10 * n + digit_val c) 0 s"

lemma is_digit_char [simp]: "d < 10 \<Longrightarrow> is_digit (digit_char d)"
  by (simp add: is_digit_def digit_char_def)

lemma digit_val_char [simp]: "d < 10 \<Longrightarrow> digit_val (digit_char d) = d"
  by (simp add: digit_val_def digit_char_def)

lemma length_pad_num [simp]: "length (pad_num w n) = w"
  by (induction w arbitrary: n) auto

lemma pad_num_digits: "list_all is_digit (pad_num w n)"
  by (induction w arbitrary: n) auto

lemma num_val_snoc: "num_val (s @ [c]) = 10 * num_val s + digit_val c"
  by (simp add: num_val_def)

lemma num_val_pad: "num_val (pad_num w n) = n mod 10 ^ w"
proof (induction w arbitrary: n)
  case 0
  then show ?case by (simp add: num_val_def)
next
  case (Suc w)
  have "10 * (n div 10 mod 10 ^ w) + n mod 10 = n mod (10 * 10 ^ w)"
    using mod_mult2_eq [of n 10 "10 ^ w"] by simp
  then show ?case using Suc by (simp add: num_val_snoc)
qed

text \<open>Taking a numeral of exactly \<open>w\<close> digits off the front, within bounds.\<close>

definition take_num :: "nat \<Rightarrow> string \<Rightarrow> (nat \<times> string) option" where
  "take_num w s =
     (if w \<le> length s \<and> list_all is_digit (take w s) then Some (num_val (take w s), drop w s) else None)"

definition bounded :: "nat \<Rightarrow> nat \<Rightarrow> nat \<times> string \<Rightarrow> (nat \<times> string) option" where
  "bounded lo hi p = (if lo \<le> fst p \<and> fst p \<le> hi then Some p else None)"

definition take_char :: "char \<Rightarrow> string \<Rightarrow> string option" where
  "take_char c s = (case s of d # r \<Rightarrow> if d = c then Some r else None | [] \<Rightarrow> None)"

lemma take_num_pad: "n < 10 ^ w \<Longrightarrow> take_num w (pad_num w n @ r) = Some (n, r)"
  by (simp add: take_num_def pad_num_digits num_val_pad)

lemma take_char_Cons [simp]: "take_char c (c # r) = Some r"
  by (simp add: take_char_def)

section \<open>Printing\<close>

definition trim_zeros :: "string \<Rightarrow> string" where
  "trim_zeros s = rev (dropWhile (\<lambda>c. c = CHR ''0'') (rev s))"

definition print_frac :: "nat \<Rightarrow> string" where
  "print_frac ns = (if ns = 0 then [] else CHR ''.'' # trim_zeros (pad_num 9 ns))"

definition print_zone :: "int \<Rightarrow> string" where
  "print_zone off =
     (if off = 0 then ''Z''
      else (if off < 0 then CHR ''-'' else CHR ''+'')
        # pad_num 2 (nat \<bar>off\<bar> div 60) @ '':'' @ pad_num 2 (nat \<bar>off\<bar> mod 60))"

definition format_time :: "gotime \<Rightarrow> string" where
  "format_time t =
     pad_num 4 (nat (t_year t)) @ ''-'' @ pad_num 2 (t_month t) @ ''-'' @ pad_num 2 (t_day t) @ ''T''
     @ pad_num 2 (t_hour t) @ '':'' @ pad_num 2 (t_min t) @ '':'' @ pad_num 2 (t_sec t)
     @ print_frac (t_nsec t) @ print_zone (t_off t)"

text \<open>\<open>Time.MarshalJSON\<close>, without the quotes.\<close>

definition time_marshal :: "gotime \<Rightarrow> string option" where
  "time_marshal t = (if time_printable t then Some (format_time t) else None)"

section \<open>Parsing\<close>

text \<open>Hours may have one digit.\<close>

definition take_hour :: "string \<Rightarrow> (nat \<times> string) option" where
  "take_hour s = (case take_num 2 s of Some p \<Rightarrow> Some p | None \<Rightarrow> take_num 1 s)"

text \<open>A fraction: separator, then digits, of which nine count.\<close>

definition take_frac :: "string \<Rightarrow> nat \<times> string" where
  "take_frac s =
     (case s of
        c # d # r \<Rightarrow>
          if (c = CHR ''.'' \<or> c = CHR '','') \<and> is_digit d then
            (let ds = takeWhile is_digit (d # r)
             in (num_val (take 9 (ds @ replicate 9 (CHR ''0''))), dropWhile is_digit (d # r)))
          else (0, s)
      | _ \<Rightarrow> (0, s))"

definition take_zone :: "string \<Rightarrow> int option" where
  "take_zone s =
     (if s = ''Z'' then Some 0
      else case s of [] \<Rightarrow> None
      | sg # r \<Rightarrow>
          do { (h, r1) \<leftarrow> take_num 2 r;
               _ \<leftarrow> bounded 0 24 (h, r1);
               r2 \<leftarrow> take_char (CHR '':'') r1;
               (m, r3) \<leftarrow> take_num 2 r2;
               _ \<leftarrow> bounded 0 60 (m, r3);
               if r3 \<noteq> [] then None
               else if sg = CHR ''+'' then Some (int (60 * h + m))
               else if sg = CHR ''-'' then Some (- int (60 * h + m)) else None })"

text \<open>\<open>Time.UnmarshalJSON\<close> on the text between the quotes.\<close>

definition parse_time :: "string \<Rightarrow> gotime option" where
  "parse_time s =
     do { (y, s) \<leftarrow> take_num 4 s;
          s \<leftarrow> take_char (CHR ''-'') s;
          (mo, s) \<leftarrow> take_num 2 s \<bind> bounded 1 12;
          s \<leftarrow> take_char (CHR ''-'') s;
          (d, s) \<leftarrow> take_num 2 s \<bind> bounded 1 (days_in mo (int y));
          s \<leftarrow> take_char (CHR ''T'') s;
          (h, s) \<leftarrow> take_hour s \<bind> bounded 0 23;
          s \<leftarrow> take_char (CHR '':'') s;
          (mi, s) \<leftarrow> take_num 2 s \<bind> bounded 0 59;
          s \<leftarrow> take_char (CHR '':'') s;
          (sec, s) \<leftarrow> take_num 2 s \<bind> bounded 0 59;
          off \<leftarrow> take_zone (snd (take_frac s));
          Some \<lparr>t_year = int y, t_month = mo, t_day = d, t_hour = h, t_min = mi, t_sec = sec,
                t_nsec = fst (take_frac s), t_off = off\<rparr> }"

section \<open>Round trip\<close>

lemma take_hour_pad: "n < 100 \<Longrightarrow> take_hour (pad_num 2 n @ r) = Some (n, r)"
  by (simp add: take_hour_def take_num_pad)

lemma trim_zeros_fill:
  "\<exists>k. s = trim_zeros s @ replicate k (CHR ''0'')"
proof -
  let ?z = "\<lambda>c. c = CHR ''0''"
  have "takeWhile ?z (rev s) = replicate (length (takeWhile ?z (rev s))) (CHR ''0'')"
    by (rule replicate_eqI) (auto dest: set_takeWhileD)
  moreover have "s = rev (dropWhile ?z (rev s)) @ rev (takeWhile ?z (rev s))"
    by (metis rev_append rev_rev_ident takeWhile_dropWhile_id)
  ultimately show ?thesis unfolding trim_zeros_def by (metis rev_replicate)
qed

lemma trim_zeros_subset: "set (trim_zeros s) \<subseteq> set s"
  by (auto simp: trim_zeros_def dest: set_dropWhileD)

lemma num_val_zeros: "num_val (replicate k (CHR ''0'')) = 0"
  by (induction k) (simp_all add: num_val_def digit_val_def byte_of_def)

lemma take_frac_print:
  assumes ns: "ns < 1000000000" and r: "r \<noteq> []" "\<not> is_digit (hd r)" "hd r \<noteq> CHR ''.''" "hd r \<noteq> CHR '',''"
  shows "take_frac (print_frac ns @ r) = (ns, r)"
proof (cases "ns = 0")
  case True
  with r show ?thesis by (cases r; cases "tl r") (auto simp: print_frac_def take_frac_def)
next
  case False
  let ?t = "trim_zeros (pad_num 9 ns)"
  obtain k where k: "pad_num 9 ns = ?t @ replicate k (CHR ''0'')" using trim_zeros_fill by blast
  have v: "num_val (pad_num 9 ns) = ns" using ns by (simp add: num_val_pad)
  have "?t \<noteq> []"
  proof
    assume "?t = []"
    with k v num_val_zeros [of k] False show False by simp
  qed
  then obtain d ds where t: "?t = d # ds" by (cases ?t) auto
  have dig: "\<forall>c \<in> set ?t. is_digit c"
    using pad_num_digits [of 9 ns] trim_zeros_subset by (fastforce simp: list_all_iff)
  have len: "length ?t + k = 9" using arg_cong [OF k, of length] by simp
  have tw: "takeWhile is_digit (?t @ r) = ?t" "dropWhile is_digit (?t @ r) = r"
    using dig r(1,2) by (cases r; simp add: takeWhile_append2 dropWhile_append2)+
  have "take 9 (?t @ replicate 9 (CHR ''0'')) = ?t @ replicate k (CHR ''0'')"
    using len by (auto simp: take_replicate min_def)
  also have "\<dots> = pad_num 9 ns" by (rule k [symmetric])
  finally have "num_val (take 9 (?t @ replicate 9 (CHR ''0''))) = ns" using v by simp
  with tw dig False show ?thesis
    by (simp add: print_frac_def take_frac_def t Let_def del: replicate.simps replicate_Suc take_append)
qed

lemma print_zone_hd:
  "print_zone off \<noteq> []" "\<not> is_digit (hd (print_zone off))"
  "hd (print_zone off) \<noteq> CHR ''.''" "hd (print_zone off) \<noteq> CHR '',''"
  by (simp_all add: print_zone_def is_digit_def byte_of_def)

lemma take_zone_print:
  assumes "\<bar>off\<bar> < 24 * 60"
  shows "take_zone (print_zone off) = Some off"
proof (cases "off = 0")
  case True
  then show ?thesis by (simp add: print_zone_def take_zone_def)
next
  case False
  let ?a = "nat \<bar>off\<bar>"
  have a: "?a div 60 < 24" "?a mod 60 < 60" "int (60 * (?a div 60) + ?a mod 60) = \<bar>off\<bar>"
    using assms by auto
  have p: "take_num 2 (pad_num 2 (?a div 60) @ r) = Some (?a div 60, r)"
    "take_num 2 (pad_num 2 (?a mod 60)) = Some (?a mod 60, [])" for r
    using a(1,2) take_num_pad [of "?a mod 60" 2 "[]"] by (simp_all add: take_num_pad)
  show ?thesis
    using False a(1,2) a(3) by (simp add: print_zone_def take_zone_def p bounded_def)
qed

theorem parse_format:
  assumes "time_wf t" and "time_printable t"
  shows "parse_time (format_time t) = Some t"
proof -
  have d: "days_in (t_month t) (t_year t) \<le> 31" by (simp add: days_in_def)
  have y: "take_num 4 (pad_num 4 (nat (t_year t)) @ r) = Some (nat (t_year t), r)" for r
    using assms(2) by (intro take_num_pad) (auto simp: time_printable_def)
  have n: "take_num 2 (pad_num 2 k @ r) = Some (k, r)" if "k < 100" for k r
    using that by (simp add: take_num_pad)
  have b: "t_month t < 100" "t_day t < 100" "t_hour t < 100" "t_min t < 100" "t_sec t < 100"
    using assms(1) d by (auto simp: time_wf_def)
  have o: "\<bar>t_off t\<bar> < 24 * 60" "0 \<le> t_year t" using assms(2) by (auto simp: time_printable_def)
  show ?thesis
    using assms(1) b o
    by (simp add: parse_time_def format_time_def time_wf_def y n take_hour_pad bounded_def
        take_frac_print print_zone_hd take_zone_print)
qed

lemma marshal_parse: "time_wf t \<Longrightarrow> time_marshal t = Some s \<Longrightarrow> parse_time s = Some t"
  by (auto simp: time_marshal_def parse_format split: if_splits)

end
