(* ===== verification/Decode.thy ===== *)
theory Decode
  imports JsonText GoTime
begin

text \<open>
  How \<open>encoding/json\<close> stores a parsed document into a Go value. A decoder maps a document and the
  current value to the new value and a flag that says whether the library reports an error; like
  the library it goes on after a mismatch, so that the flag is all that tells a partly filled
  value from a complete one. (Not modelled: escapes inside a time stamp, which the library compares
  unescaped, and array storage left over from a longer duplicate of the same key.)
\<close>

type_synonym 'a decoder = "json \<Rightarrow> 'a \<Rightarrow> 'a \<times> bool"

section \<open>Scalars, slices and maps\<close>

definition dec_string :: "string decoder" where
  "dec_string j old = (case j of JStr s \<Rightarrow> (s, False) | JNull \<Rightarrow> (old, False) | _ \<Rightarrow> (old, True))"

definition dec_time :: "gotime decoder" where
  "dec_time j old =
     (case j of
        JNull \<Rightarrow> (old, False)
      | JStr s \<Rightarrow> (case parse_time s of Some t \<Rightarrow> (t, False) | None \<Rightarrow> (old, True))
      | _ \<Rightarrow> (old, True))"

text \<open>Element \<open>i\<close> of a slice is decoded over the element already there, if there is one.\<close>

definition nth_or :: "'a \<Rightarrow> 'a list \<Rightarrow> nat \<Rightarrow> 'a" where
  "nth_or z xs i = (if i < length xs then xs ! i else z)"

definition dec_slice :: "'a \<Rightarrow> 'a decoder \<Rightarrow> 'a list decoder" where
  "dec_slice zero dec j old =
     (case j of
        JNull \<Rightarrow> ([], False)
      | JArr xs \<Rightarrow>
          (let rs = map (\<lambda>(i, x). dec x (nth_or zero old i)) (enumerate 0 xs)
           in (map fst rs, list_ex snd rs))
      | _ \<Rightarrow> (old, True))"

definition dec_string_map :: "(string \<times> string) list decoder" where
  "dec_string_map j old =
     (case j of
        JNull \<Rightarrow> ([], False)
      | JObj kvs \<Rightarrow>
          foldl (\<lambda>(m, e) (k, v). let (s, e') = dec_string v [] in (AList.update k s m, e \<or> e')) (old, False) kvs
      | _ \<Rightarrow> (old, True))"

section \<open>Structs\<close>

text \<open>
  The library compares a key with the field names, first as it is, then with both folded: letters
  to upper case, the Kelvin sign to K and the long s to S (no other rune folds to ASCII).
\<close>

fun fold_name :: "string \<Rightarrow> string" where
  "fold_name [] = []"
| "fold_name (c # cs) =
     (if prefix [CHR 0xE2, CHR 0x84, CHR 0xAA] (c # cs) then CHR ''K'' # fold_name (drop 2 cs)
      else if prefix [CHR 0xC5, CHR 0xBF] (c # cs) then CHR ''S'' # fold_name (drop 1 cs)
      else upper_char c # fold_name cs)"

type_synonym 'a fields = "(string \<times> 'a decoder) list"

definition find_field :: "'a fields \<Rightarrow> string \<Rightarrow> 'a decoder option" where
  "find_field fs k =
     (case map_of fs k of
        Some d \<Rightarrow> Some d
      | None \<Rightarrow> map_option snd (List.find (\<lambda>f. fold_name (fst f) = fold_name k) fs))"

fun dec_members :: "'a fields \<Rightarrow> (string \<times> json) list \<Rightarrow> 'a \<Rightarrow> 'a \<times> bool" where
  "dec_members fs [] a = (a, False)"
| "dec_members fs ((k, v) # kvs) a =
     (case find_field fs k of
        None \<Rightarrow> dec_members fs kvs a
      | Some d \<Rightarrow> (let (b, e) = d v a; (c, e') = dec_members fs kvs b in (c, e \<or> e')))"

definition dec_struct :: "'a fields \<Rightarrow> 'a decoder" where
  "dec_struct fs j old =
     (case j of JNull \<Rightarrow> (old, False) | JObj kvs \<Rightarrow> dec_members fs kvs old | _ \<Rightarrow> (old, True))"

text \<open>A field of a record, by its selector and its update.\<close>

definition in_field :: "('a \<Rightarrow> 'b) \<Rightarrow> (('b \<Rightarrow> 'b) \<Rightarrow> 'a \<Rightarrow> 'a) \<Rightarrow> 'b decoder \<Rightarrow> 'a decoder" where
  "in_field get upd dec j a = (let (b, e) = dec j (get a) in (upd (\<lambda>_. b) a, e))"

text \<open>The value, or nothing when an error is reported (the code then drops the value).\<close>

definition decoded :: "'a decoder \<Rightarrow> 'a \<Rightarrow> json option \<Rightarrow> 'a option" where
  "decoded dec zero j =
     (case j of None \<Rightarrow> None | Some d \<Rightarrow> (let (a, e) = dec d zero in if e then None else Some a))"

section \<open>Rules\<close>

lemma dec_scalars [simp]:
  "dec_string (JStr s) old = (s, False)" "dec_string JNull old = (old, False)"
  "dec_time JNull t = (t, False)"
  by (simp_all add: dec_string_def dec_time_def)

lemma dec_time_str: "parse_time s = Some t \<Longrightarrow> dec_time (JStr s) old = (t, False)"
  by (simp add: dec_time_def)

lemma dec_slice_map:
  assumes "\<And>x old. x \<in> set xs \<Longrightarrow> dec (enc x) old = (x, False)"
  shows "dec_slice zero dec (JArr (map enc xs)) old = (xs, False)"
proof -
  have "map (\<lambda>(i, x). dec x (nth_or zero old i)) (enumerate n (map enc xs)) = map (\<lambda>x. (x, False)) xs" for n
    using assms
  proof (induction xs arbitrary: n)
    case (Cons x xs)
    have "dec (enc x) (nth_or zero old n) = (x, False)" by (rule Cons.prems) simp
    moreover have "map (\<lambda>(i, x). dec x (nth_or zero old i)) (enumerate (Suc n) (map enc xs)) = map (\<lambda>x. (x, False)) xs"
      by (rule Cons.IH) (simp add: Cons.prems)
    ultimately show ?case by simp
  qed simp
  then show ?thesis by (simp add: dec_slice_def comp_def list_ex_iff)
qed

lemma dec_string_slice: "dec_slice [] dec_string (JArr (map JStr xs)) old = (xs, False)"
  by (rule dec_slice_map) simp

lemma find_field_exact: "map_of fs k = Some d \<Longrightarrow> find_field fs k = Some d"
  by (simp add: find_field_def)

lemma dec_members_exact:
  "map_of fs k = Some d \<Longrightarrow> d v a = (b, False) \<Longrightarrow> dec_members fs ((k, v) # kvs) a = dec_members fs kvs b"
  by (simp add: find_field_exact split: prod.splits)

lemma dec_struct_obj [simp]: "dec_struct fs (JObj kvs) a = dec_members fs kvs a"
  by (simp add: dec_struct_def)

lemma decoded_Some: "dec j zero = (a, False) \<Longrightarrow> decoded dec zero (Some j) = Some a"
  by (simp add: decoded_def)

lemma decoded_None [simp]: "decoded dec zero None = None"
  by (simp add: decoded_def)

text \<open>Keys that match no field are skipped, whatever their value.\<close>

lemma dec_members_unknown: "find_field fs k = None \<Longrightarrow> dec_members fs ((k, v) # kvs) a = dec_members fs kvs a"
  by simp

section \<open>Building documents\<close>

text \<open>Numbers, and struct members marked \<open>omitempty\<close>.\<close>

fun nat_lit :: "nat \<Rightarrow> string" where
  "nat_lit n = (if n < 10 then [digit_char n] else nat_lit (n div 10) @ [digit_char (n mod 10)])"

declare nat_lit.simps [simp del]

definition int_lit :: "int \<Rightarrow> string" where
  "int_lit i = (if i < 0 then CHR ''-'' # nat_lit (nat (- i)) else nat_lit (nat i))"

text \<open>Members marked \<open>omitempty\<close>.\<close>

definition omit_str :: "string \<Rightarrow> string \<Rightarrow> (string \<times> json) list" where
  "omit_str k s = (if s = [] then [] else [(k, JStr s)])"

definition omit_strs :: "string \<Rightarrow> string list \<Rightarrow> (string \<times> json) list" where
  "omit_strs k xs = (if xs = [] then [] else [(k, JArr (map JStr xs))])"

definition omit_int :: "string \<Rightarrow> int \<Rightarrow> (string \<times> json) list" where
  "omit_int k i = (if i = 0 then [] else [(k, JNum (int_lit i))])"

definition obj_get :: "string \<Rightarrow> json \<Rightarrow> json option" where
  "obj_get k j = (case j of JObj kvs \<Rightarrow> map_of kvs k | _ \<Rightarrow> None)"

lemma nat_lit_digits: "list_all is_digit (nat_lit n) \<and> nat_lit n \<noteq> []"
  by (induction n rule: nat_lit.induct) (subst nat_lit.simps, subst (2) nat_lit.simps, simp)

lemma nat_lit_hd: "0 < n \<Longrightarrow> hd (nat_lit n) \<noteq> CHR ''0''"
proof (induction n rule: nat_lit.induct)
  case (1 n)
  show ?case
  proof (cases "n < 10")
    case True
    have "digit_char n \<noteq> CHR ''0''"
    proof
      assume "digit_char n = CHR ''0''"
      then have "byte_of (digit_char n) = 48" by (simp add: byte_of_def)
      with True "1.prems" show False by (simp add: digit_char_def)
    qed
    with True show ?thesis by (subst nat_lit.simps) simp
  next
    case False
    then have "hd (nat_lit (n div 10)) \<noteq> CHR ''0''" using "1.IH" by simp
    with False show ?thesis using nat_lit_digits [of "n div 10"] by (subst nat_lit.simps) simp
  qed
qed

lemma scan_int_nat_lit: "scan_int (nat_lit n) = Some (nat_lit n, [])"
proof (cases "n = 0")
  case True
  have "digit_char 0 = CHR ''0''"
    by (subst byte_of_inject [symmetric]) (simp add: digit_char_def, simp add: byte_of_def)
  with True show ?thesis by (simp add: nat_lit.simps [of 0] scan_int_def)
next
  case False
  obtain c t where c: "nat_lit n = c # t" using nat_lit_digits [of n] by (cases "nat_lit n") auto
  then have "c \<noteq> CHR ''0''" "list_all is_digit (c # t)"
    using nat_lit_hd [of n] False nat_lit_digits [of n] by auto
  then show ?thesis unfolding c
    by (simp add: scan_int_def span_digits_def takeWhile_eq_all_conv [THEN iffD2]
        dropWhile_eq_Nil_conv [THEN iffD2] list_all_iff)
qed

lemma num_lit_int: "num_lit (int_lit i)"
proof -
  have sg: "scan_sign (nat_lit n) = ([], nat_lit n)" for n
    using nat_lit_digits [of n]
    by (cases "nat_lit n") (auto simp: scan_sign_def is_digit_def byte_of_def)
  show ?thesis
    using sg scan_int_nat_lit
    by (simp add: num_lit_def int_lit_def scan_number_def)
      (simp add: scan_sign_def scan_frac_def scan_exp_def)
qed

lemma omit_nums [simp]:
  "list_all (\<lambda>kv. json_nums (snd kv)) (omit_str k s)"
  "list_all (\<lambda>kv. json_nums (snd kv)) (omit_strs k xs)"
  "list_all (\<lambda>kv. json_nums (snd kv)) (omit_int k i)"
  by (simp_all add: omit_str_def omit_strs_def omit_int_def num_lit_int list_all_iff)

lemma map_of_repair:
  "list_all (\<lambda>kv. ascii (fst kv)) kvs \<Longrightarrow>
     map_of (map (\<lambda>kv. (utf8_repair (fst kv), json_repair (snd kv))) kvs) k
       = map_option json_repair (map_of kvs k)"
  by (induction kvs) (auto simp: utf8_repair_ascii)

lemma map_of_omit [simp]:
  "map_of (omit_str k s) k' = (if k' = k \<and> s \<noteq> [] then Some (JStr s) else None)"
  "map_of (omit_strs k xs) k' = (if k' = k \<and> xs \<noteq> [] then Some (JArr (map JStr xs)) else None)"
  "map_of (omit_int k i) k' = (if k' = k \<and> i \<noteq> 0 then Some (JNum (int_lit i)) else None)"
  by (simp_all add: omit_str_def omit_strs_def omit_int_def)

lemma ascii_lits: "ascii []" "ascii (c # s) \<longleftrightarrow> of_char c < (128 :: nat) \<and> ascii s"
  by (simp_all add: ascii_def byte_of_def)

lemma ascii_omit [simp]:
  "ascii k \<Longrightarrow> list_all (\<lambda>kv. ascii (fst kv)) (omit_str k s)"
  "ascii k \<Longrightarrow> list_all (\<lambda>kv. ascii (fst kv)) (omit_strs k xs)"
  "ascii k \<Longrightarrow> list_all (\<lambda>kv. ascii (fst kv)) (omit_int k i)"
  by (simp_all add: omit_str_def omit_strs_def omit_int_def)

end
