(* ===== verification/AuditLog.thy ===== *)
theory AuditLog
  imports Decode OsModel
begin

text \<open>
  \<open>daemon/internal/audit\<close>: the audit events (\<open>events.go\<close>) and the logger that writes each one as a
  line of JSON to the journal, to stderr when the journal refuses it, and to the audit file
  (\<open>logger.go\<close>). The journal socket and the file are outside the program: which sends and writes
  succeed is an argument (\<open>sinks\<close>). Everything the logger emits is kept in order in \<open>lg_out\<close>.
\<close>

section \<open>Events\<close>

datatype event_type =
    AgentRegistered | AgentUnregistered | AgentStarted | AgentStopped | AgentKilled
  | PolicyAllow | PolicyDeny | PolicyReloaded | RuntimeAlert | RuntimeCritical
  | DaemonStarted | DaemonShutdown

fun event_type_name :: "event_type \<Rightarrow> string" where
  "event_type_name AgentRegistered = ''agent.registered''"
| "event_type_name AgentUnregistered = ''agent.unregistered''"
| "event_type_name AgentStarted = ''agent.started''"
| "event_type_name AgentStopped = ''agent.stopped''"
| "event_type_name AgentKilled = ''agent.killed''"
| "event_type_name PolicyAllow = ''policy.allow''"
| "event_type_name PolicyDeny = ''policy.deny''"
| "event_type_name PolicyReloaded = ''policy.reloaded''"
| "event_type_name RuntimeAlert = ''runtime.alert''"
| "event_type_name RuntimeCritical = ''runtime.critical''"
| "event_type_name DaemonStarted = ''daemon.started''"
| "event_type_name DaemonShutdown = ''daemon.shutdown''"

datatype severity = SeverityInfo | SeverityWarning | SeverityError | SeverityCritical

fun severity_name :: "severity \<Rightarrow> string" where
  "severity_name SeverityInfo = ''INFO''"
| "severity_name SeverityWarning = ''WARNING''"
| "severity_name SeverityError = ''ERROR''"
| "severity_name SeverityCritical = ''CRITICAL''"

text \<open>Severities are ordered by gravity.\<close>

fun severity_rank :: "severity \<Rightarrow> nat" where
  "severity_rank SeverityInfo = 0"
| "severity_rank SeverityWarning = 1"
| "severity_rank SeverityError = 2"
| "severity_rank SeverityCritical = 3"

lemma severity_rank_inject: "severity_rank a = severity_rank b \<Longrightarrow> a = b"
  by (cases a; cases b) auto

instantiation severity :: linorder
begin

definition less_eq_severity :: "severity \<Rightarrow> severity \<Rightarrow> bool" where
  "less_eq_severity a b \<longleftrightarrow> severity_rank a \<le> severity_rank b"

definition less_severity :: "severity \<Rightarrow> severity \<Rightarrow> bool" where
  "less_severity a b \<longleftrightarrow> severity_rank a < severity_rank b"

instance
  by standard (auto simp: less_eq_severity_def less_severity_def dest: severity_rank_inject)

end

record audit_event =
  e_time :: gotime
  e_type :: event_type
  e_severity :: severity
  e_agent_id :: string
  e_action_type :: string
  e_resource :: string
  e_policy_profile :: string
  e_decision :: string
  e_reasons :: "string list"
  e_message :: string
  e_falco_rule :: string
  e_falco_output :: string
  e_pid :: int

definition new_event :: "gotime \<Rightarrow> event_type \<Rightarrow> severity \<Rightarrow> string \<Rightarrow> audit_event" where
  "new_event now ty sev msg =
     \<lparr>e_time = now, e_type = ty, e_severity = sev, e_agent_id = [], e_action_type = [],
      e_resource = [], e_policy_profile = [], e_decision = [], e_reasons = [], e_message = msg,
      e_falco_rule = [], e_falco_output = [], e_pid = 0\<rparr>"

section \<open>Events as JSON\<close>

definition event_members :: "string \<Rightarrow> audit_event \<Rightarrow> (string \<times> json) list" where
  "event_members stamp e =
     [(''timestamp'', JStr stamp), (''type'', JStr (event_type_name (e_type e))),
      (''severity'', JStr (severity_name (e_severity e)))]
     @ omit_str ''agent_id'' (e_agent_id e) @ omit_str ''action_type'' (e_action_type e)
     @ omit_str ''resource'' (e_resource e) @ omit_str ''policy_profile'' (e_policy_profile e)
     @ omit_str ''decision'' (e_decision e) @ omit_strs ''reasons'' (e_reasons e)
     @ [(''message'', JStr (e_message e))]
     @ omit_str ''falco_rule'' (e_falco_rule e) @ omit_str ''falco_output'' (e_falco_output e)
     @ omit_int ''pid'' (e_pid e)"

definition event_json :: "audit_event \<Rightarrow> json option" where
  "event_json e = map_option (\<lambda>stamp. JObj (event_members stamp e)) (time_marshal (e_time e))"

section \<open>The logger\<close>

record sinks =
  sink_send :: "nat \<Rightarrow> bool"
  sink_write :: "nat \<Rightarrow> bool"

datatype audit_file = NoFile | OpenFile string | ClosedFile string

datatype emission =
    ToJournal string nat "(string \<times> string) list"
  | ToStderr string
  | ToFile string
  | SlogError string

record logger =
  lg_journal_enabled :: bool
  lg_file_enabled :: bool
  lg_file_writer :: audit_file
  lg_sends :: nat
  lg_writes :: nat
  lg_out :: "emission list"

record audit_config =
  ac_journal_enabled :: bool
  ac_journal_identifier :: string
  ac_file_enabled :: bool
  ac_file_path :: string

datatype 'e logger_error = OpeningAuditFile string 'e

definition new_logger :: "audit_config \<Rightarrow> os \<Rightarrow> (io_error logger_error + logger) \<times> os" where
  "new_logger cfg s =
     (let l = \<lparr>lg_journal_enabled = ac_journal_enabled cfg, lg_file_enabled = ac_file_enabled cfg,
               lg_file_writer = NoFile, lg_sends = 0, lg_writes = 0, lg_out = []\<rparr> in
      if ac_file_enabled cfg \<and> ac_file_path cfg \<noteq> [] then
        (case os_open_append (ac_file_path cfg) (oct 6 0 0) s of
           (Inl e, s1) \<Rightarrow> (Inl (OpeningAuditFile (ac_file_path cfg) e), s1)
         | (Inr _, s1) \<Rightarrow> (Inr (l\<lparr>lg_file_writer := OpenFile (ac_file_path cfg)\<rparr>), s1))
      else (Inr l, s))"

definition emit :: "emission \<Rightarrow> logger \<Rightarrow> logger" where
  "emit x l = l\<lparr>lg_out := lg_out l @ [x]\<rparr>"

text \<open>The syslog priority sent along.\<close>

definition priority_of :: "severity \<Rightarrow> nat" where
  "priority_of sev =
     (if sev = SeverityCritical then 2 else if sev = SeverityError then 3
      else if sev = SeverityWarning then 4 else 6)"

definition journal_fields :: "(string \<times> string) list" where
  "journal_fields = [(''SYSLOG_IDENTIFIER'', ''atomic-audit'')]"

definition newline :: char where
  "newline = CHR 0x0A"

definition to_journal :: "sinks \<Rightarrow> severity \<Rightarrow> string \<Rightarrow> logger \<Rightarrow> logger" where
  "to_journal sk sev data l =
     (let l1 = l\<lparr>lg_sends := Suc (lg_sends l)\<rparr> in
      if sink_send sk (lg_sends l) then emit (ToJournal data (priority_of sev) journal_fields) l1
      else emit (ToStderr (data @ [newline])) l1)"

text \<open>A write to a closed file fails; the error of a write is ignored.\<close>

definition to_file :: "sinks \<Rightarrow> string \<Rightarrow> logger \<Rightarrow> logger" where
  "to_file sk data l =
     (let l1 = l\<lparr>lg_writes := Suc (lg_writes l)\<rparr> in
      case lg_file_writer l of
        OpenFile p \<Rightarrow> if sink_write sk (lg_writes l) then emit (ToFile (data @ [newline])) l1 else l1
      | _ \<Rightarrow> l1)"

definition log_event :: "sinks \<Rightarrow> audit_event \<Rightarrow> logger \<Rightarrow> logger" where
  "log_event sk e l =
     (case event_json e of
        None \<Rightarrow> emit (SlogError ''failed to marshal audit event'') l
      | Some d \<Rightarrow>
          (let data = json_marshal d;
               l1 = (if lg_journal_enabled l then to_journal sk (e_severity e) data l else l)
           in if lg_file_enabled l1 \<and> lg_file_writer l1 \<noteq> NoFile then to_file sk data l1 else l1))"

definition log_agent_action ::
    "sinks \<Rightarrow> gotime \<Rightarrow> string \<Rightarrow> string \<Rightarrow> string \<Rightarrow> string \<Rightarrow> string \<Rightarrow> string list \<Rightarrow> logger \<Rightarrow> logger" where
  "log_agent_action sk now agentID actionType resource profile decision reasons l =
     (let deny = (decision = ''deny'');
          severity = (if deny then SeverityWarning else SeverityInfo);
          eventType = (if deny then PolicyDeny else PolicyAllow);
          e = new_event now eventType severity
                (''agent '' @ agentID @ '' '' @ actionType @ '' on '' @ resource @ '': '' @ decision)
      in log_event sk
           (e\<lparr>e_agent_id := agentID, e_action_type := actionType, e_resource := resource,
              e_policy_profile := profile, e_decision := decision, e_reasons := reasons\<rparr>) l)"

definition log_runtime_alert ::
    "sinks \<Rightarrow> gotime \<Rightarrow> string \<Rightarrow> string \<Rightarrow> string \<Rightarrow> bool \<Rightarrow> logger \<Rightarrow> logger" where
  "log_runtime_alert sk now agentID rule outp critical l =
     (let severity = (if critical then SeverityCritical else SeverityWarning);
          eventType = (if critical then RuntimeCritical else RuntimeAlert);
          e = new_event now eventType severity (''runtime alert for agent '' @ agentID @ '': '' @ rule)
      in log_event sk (e\<lparr>e_agent_id := agentID, e_falco_rule := rule, e_falco_output := outp\<rparr>) l)"

definition log_agent_lifecycle ::
    "sinks \<Rightarrow> gotime \<Rightarrow> string \<Rightarrow> event_type \<Rightarrow> string \<Rightarrow> logger \<Rightarrow> logger" where
  "log_agent_lifecycle sk now agentID eventType message l =
     log_event sk ((new_event now eventType SeverityInfo message)\<lparr>e_agent_id := agentID\<rparr>) l"

datatype close_error = AlreadyClosed

definition close_logger :: "logger \<Rightarrow> (close_error + unit) \<times> logger" where
  "close_logger l =
     (case lg_file_writer l of
        NoFile \<Rightarrow> (Inr (), l)
      | OpenFile p \<Rightarrow> (Inr (), l\<lparr>lg_file_writer := ClosedFile p\<rparr>)
      | ClosedFile p \<Rightarrow> (Inl AlreadyClosed, l))"

section \<open>What reaches the trail\<close>

text \<open>
  The trail of a logger: the lines that went to the journal or, in its place, to stderr. The
  lines of the audit file are a trail of their own.
\<close>

fun trail_line :: "emission \<Rightarrow> string list" where
  "trail_line (ToJournal d p fs) = [d]"
| "trail_line (ToStderr d) = [butlast d]"
| "trail_line _ = []"

fun file_line :: "emission \<Rightarrow> string list" where
  "file_line (ToFile d) = [butlast d]"
| "file_line _ = []"

definition trail :: "logger \<Rightarrow> string list" where
  "trail l = concat (map trail_line (lg_out l))"

definition file_trail :: "logger \<Rightarrow> string list" where
  "file_trail l = concat (map file_line (lg_out l))"

definition event_line :: "audit_event \<Rightarrow> string" where
  "event_line e = (case event_json e of Some d \<Rightarrow> json_marshal d | None \<Rightarrow> [])"

lemma trail_emit [simp]:
  "trail (emit x l) = trail l @ trail_line x" "file_trail (emit x l) = file_trail l @ file_line x"
  by (simp_all add: trail_def file_trail_def emit_def)

lemma trail_counters [simp]:
  "trail (l\<lparr>lg_sends := n\<rparr>) = trail l" "trail (l\<lparr>lg_writes := n\<rparr>) = trail l"
  "file_trail (l\<lparr>lg_sends := n\<rparr>) = file_trail l" "file_trail (l\<lparr>lg_writes := n\<rparr>) = file_trail l"
  by (simp_all add: trail_def file_trail_def)

lemma trail_to_journal [simp]:
  "trail (to_journal sk sev d l) = trail l @ [d]" "file_trail (to_journal sk sev d l) = file_trail l"
  by (simp_all add: to_journal_def Let_def)

lemma trail_to_file [simp]: "trail (to_file sk d l) = trail l"
  by (simp add: to_file_def Let_def split: audit_file.split)

text \<open>Which logger it is does not change: only the counters and what was emitted.\<close>

definition same_sinks :: "logger \<Rightarrow> logger \<Rightarrow> bool" where
  "same_sinks l l' \<longleftrightarrow> lg_journal_enabled l' = lg_journal_enabled l \<and>
     lg_file_enabled l' = lg_file_enabled l \<and> lg_file_writer l' = lg_file_writer l"

lemma to_journal_sinks [simp]:
  "lg_journal_enabled (to_journal sk sev d l) = lg_journal_enabled l"
  "lg_file_enabled (to_journal sk sev d l) = lg_file_enabled l"
  "lg_file_writer (to_journal sk sev d l) = lg_file_writer l"
  by (simp_all add: to_journal_def emit_def Let_def)

lemma to_file_sinks [simp]:
  "lg_journal_enabled (to_file sk d l) = lg_journal_enabled l"
  "lg_file_enabled (to_file sk d l) = lg_file_enabled l"
  "lg_file_writer (to_file sk d l) = lg_file_writer l"
  by (simp_all add: to_file_def emit_def Let_def split: audit_file.split)

lemma log_event_sinks [simp]:
  "lg_journal_enabled (log_event sk e l) = lg_journal_enabled l"
  "lg_file_enabled (log_event sk e l) = lg_file_enabled l"
  "lg_file_writer (log_event sk e l) = lg_file_writer l"
  by (simp_all add: log_event_def Let_def emit_def split: option.split)

lemma event_json_printable: "time_printable (e_time e) \<Longrightarrow> \<exists>d. event_json e = Some d"
  by (simp add: event_json_def time_marshal_def)

lemma log_event_trail:
  "lg_journal_enabled l \<Longrightarrow> time_printable (e_time e) \<Longrightarrow> trail (log_event sk e l) = trail l @ [event_line e]"
  using event_json_printable [of e] by (auto simp: log_event_def event_line_def Let_def)

subsection \<open>The interface of an audit trail\<close>

text \<open>A sink that keeps, in order and once, the record of every acceptable event.\<close>

locale audit_sink =
  fixes log :: "'e \<Rightarrow> 'l \<Rightarrow> 'l"
    and kept :: "'l \<Rightarrow> 'r list"
    and entry :: "'e \<Rightarrow> 'r"
    and good :: "'e \<Rightarrow> bool"
    and up :: "'l \<Rightarrow> bool"
  assumes kept_log: "up l \<Longrightarrow> good e \<Longrightarrow> kept (log e l) = kept l @ [entry e]"
    and up_log: "up l \<Longrightarrow> up (log e l)"
begin

lemma up_fold: "up l \<Longrightarrow> up (fold log es l)"
  by (induction es arbitrary: l) (auto simp: up_log)

lemma kept_fold: "up l \<Longrightarrow> list_all good es \<Longrightarrow> kept (fold log es l) = kept l @ map entry es"
  by (induction es arbitrary: l) (auto simp: kept_log up_log)

lemma kept_length: "up l \<Longrightarrow> list_all good es \<Longrightarrow> length (kept (fold log es l)) = length (kept l) + length es"
  by (simp add: kept_fold)

lemma kept_mono: "up l \<Longrightarrow> list_all good es \<Longrightarrow> prefix (kept l) (kept (fold log es l))"
  by (simp add: kept_fold)

end

interpretation journal_sink: audit_sink "log_event sk" trail event_line
    "\<lambda>e. time_printable (e_time e)" lg_journal_enabled for sk
  by unfold_locales (simp_all add: log_event_trail)

text \<open>The audit file is such a trail too as long as it is open and the writes succeed.\<close>

definition file_up :: "logger \<Rightarrow> bool" where
  "file_up l \<longleftrightarrow> lg_file_enabled l \<and> (\<exists>p. lg_file_writer l = OpenFile p)"

lemma log_event_file:
  assumes "file_up l" and "time_printable (e_time e)" and "\<And>n. sink_write sk n"
  shows "file_trail (log_event sk e l) = file_trail l @ [event_line e]"
proof -
  have t: "file_trail (to_file sk d k) = file_trail k @ [d]" if "file_up k" for d k
    using that assms(3) by (auto simp: to_file_def file_up_def Let_def)
  have j: "file_up (to_journal sk sev d k) = file_up k" for sev d k by (simp add: file_up_def)
  from event_json_printable [OF assms(2)] obtain d where "event_json e = Some d" by blast
  then show ?thesis using assms(1) t j
    by (auto simp: log_event_def event_line_def Let_def file_up_def)
qed

interpretation file_sink: audit_sink "log_event \<lparr>sink_send = ok, sink_write = (\<lambda>_. True)\<rparr>" file_trail event_line
    "\<lambda>e. time_printable (e_time e)" file_up for ok
  by unfold_locales (simp_all add: log_event_file, simp add: file_up_def)

section \<open>Reading a line back\<close>

text \<open>The member names are ASCII, so reading back repairs the values only.\<close>

lemma event_nums: "event_json e = Some d \<Longrightarrow> json_nums d"
  by (auto simp: event_json_def event_members_def)

lemma event_line_parses:
  "event_json e = Some d \<Longrightarrow> json_unmarshal (event_line e) = Some (json_repair d)"
  by (simp add: event_line_def unmarshal_marshal event_nums)

lemma event_members_ascii: "list_all (\<lambda>kv. ascii (fst kv)) (event_members stamp e)"
  by (simp add: event_members_def ascii_lits)

lemma event_line_get:
  assumes "time_printable (e_time e)"
  shows "\<exists>d. json_unmarshal (event_line e) = Some d \<and>
    (\<forall>k. obj_get k d = map_option json_repair (map_of (event_members (format_time (e_time e)) e) k))"
proof -
  have j: "event_json e = Some (JObj (event_members (format_time (e_time e)) e))"
    using assms by (simp add: event_json_def time_marshal_def)
  show ?thesis
    using event_line_parses [OF j] map_of_repair [OF event_members_ascii]
    by (auto simp: obj_get_def)
qed

lemma ascii_names: "ascii (event_type_name t)" "ascii (severity_name sev)"
  by (cases t; simp add: ascii_lits) (cases sev; simp add: ascii_lits)

lemma repair_names [simp]:
  "utf8_repair (event_type_name t) = event_type_name t"
  "utf8_repair (severity_name sev) = severity_name sev"
  by (simp_all add: utf8_repair_ascii ascii_names)

lemma new_event_simps [simp]:
  "e_time (new_event now ty sev msg) = now" "e_type (new_event now ty sev msg) = ty"
  "e_severity (new_event now ty sev msg) = sev" "e_message (new_event now ty sev msg) = msg"
  by (simp_all add: new_event_def)

section \<open>Properties\<close>

definition sample_time :: gotime where
  "sample_time = zero_time\<lparr>t_year := 2025, t_month := 3, t_day := 14\<rparr>"

definition sample_logger :: logger where
  "sample_logger = \<lparr>lg_journal_enabled = True, lg_file_enabled = False, lg_file_writer = NoFile,
     lg_sends = 0, lg_writes = 0, lg_out = []\<rparr>"

lemma sample_simps [simp]:
  "time_printable sample_time" "lg_journal_enabled sample_logger"
  by (simp_all add: sample_time_def sample_logger_def zero_time_def time_printable_def)

lemma action_line:
  assumes "lg_journal_enabled l" and "time_printable now"
  shows "\<exists>line d.
    trail (log_agent_action sk now a ty res prof dec rs l) = trail l @ [line] \<and>
    json_unmarshal line = Some d \<and>
    obj_get ''type'' d = Some (JStr (if dec = ''deny'' then ''policy.deny'' else ''policy.allow'')) \<and>
    obj_get ''severity'' d = Some (JStr (if dec = ''deny'' then ''WARNING'' else ''INFO'')) \<and>
    obj_get ''agent_id'' d = (if a = [] then None else Some (JStr (utf8_repair a))) \<and>
    obj_get ''resource'' d = (if res = [] then None else Some (JStr (utf8_repair res))) \<and>
    obj_get ''decision'' d = (if dec = [] then None else Some (JStr (utf8_repair dec)))"
proof -
  let ?deny = "dec = ''deny''"
  let ?e = "(new_event now (if ?deny then PolicyDeny else PolicyAllow)
      (if ?deny then SeverityWarning else SeverityInfo)
      (''agent '' @ a @ '' '' @ ty @ '' on '' @ res @ '': '' @ dec))
    \<lparr>e_agent_id := a, e_action_type := ty, e_resource := res, e_policy_profile := prof,
     e_decision := dec, e_reasons := rs\<rparr>"
  have p: "time_printable (e_time ?e)" using assms(2) by simp
  from event_line_get [OF p] obtain d where d: "json_unmarshal (event_line ?e) = Some d"
    "\<And>k. obj_get k d = map_option json_repair (map_of (event_members (format_time (e_time ?e)) ?e) k)"
    by blast
  have "trail (log_agent_action sk now a ty res prof dec rs l) = trail l @ [event_line ?e]"
    unfolding log_agent_action_def Let_def by (rule log_event_trail [OF assms(1) p])
  note t = this
  let ?m = "event_members (format_time (e_time ?e)) ?e"
  have g: "map_of ?m ''type'' = Some (JStr (event_type_name (e_type ?e)))"
    "map_of ?m ''severity'' = Some (JStr (severity_name (e_severity ?e)))"
    "map_of ?m ''agent_id'' = (if a = [] then None else Some (JStr a))"
    "map_of ?m ''resource'' = (if res = [] then None else Some (JStr res))"
    "map_of ?m ''decision'' = (if dec = [] then None else Some (JStr dec))"
    by (simp_all add: event_members_def map_add_def)
  show ?thesis
    by (intro exI conjI, rule t, rule d(1)) (simp_all only: d(2) g, simp_all)
qed

text \<open>
  C26. With the journal on, every policy decision that is logged leaves exactly one line, at the end
  of the trail, whatever the journal answers: the line goes to the journal or to stderr. The line
  is a JSON object that says what was decided: its type and severity follow the decision, and it
  names the agent, the resource and the decision.
\<close>

theorem agent_action_recorded:
  assumes "lg_journal_enabled l" and "time_printable now"
  shows "\<exists>line d.
    trail (log_agent_action sk now a ty res prof dec rs l) = trail l @ [line] \<and>
    json_unmarshal line = Some d \<and>
    obj_get ''type'' d = Some (JStr (if dec = ''deny'' then ''policy.deny'' else ''policy.allow'')) \<and>
    obj_get ''severity'' d = Some (JStr (if dec = ''deny'' then ''WARNING'' else ''INFO'')) \<and>
    obj_get ''agent_id'' d = (if a = [] then None else Some (JStr (utf8_repair a))) \<and>
    obj_get ''resource'' d = (if res = [] then None else Some (JStr (utf8_repair res))) \<and>
    obj_get ''decision'' d = (if dec = [] then None else Some (JStr (utf8_repair dec)))"
  using assms by (rule action_line)

lemma agent_action_recorded_witness:
  "\<exists>line d. trail (log_agent_action \<lparr>sink_send = (\<lambda>_. False), sink_write = (\<lambda>_. True)\<rparr>
      sample_time ''a1'' ''exec'' ''/bin/sh'' ''minimal'' ''deny'' [] sample_logger) = [line] \<and>
    json_unmarshal line = Some d \<and> obj_get ''type'' d = Some (JStr ''policy.deny'')"
  using agent_action_recorded [of sample_logger sample_time
      "\<lparr>sink_send = (\<lambda>_. False), sink_write = (\<lambda>_. True)\<rparr>" "''a1''" "''exec''" "''/bin/sh''" "''minimal''" "''deny''" "[]"]
  by (auto simp: trail_def sample_logger_def)

text \<open>
  C25. With the journal on no event whose time can be printed is lost or reordered: after any
  sequence of events the trail has grown by exactly their lines, in order, for every pattern of
  journal failures and whatever becomes of the audit file.
\<close>

theorem audit_trail_complete:
  assumes "lg_journal_enabled l" and "list_all (\<lambda>e. time_printable (e_time e)) es"
  shows "trail (fold (log_event sk) es l) = trail l @ map event_line es"
  using assms by (rule journal_sink.kept_fold)

lemma audit_trail_complete_witness:
  "trail (fold (log_event \<lparr>sink_send = even, sink_write = (\<lambda>_. False)\<rparr>)
      [new_event sample_time DaemonStarted SeverityInfo ''up'', new_event sample_time DaemonShutdown SeverityInfo ''down'']
      sample_logger)
    = map event_line [new_event sample_time DaemonStarted SeverityInfo ''up'', new_event sample_time DaemonShutdown SeverityInfo ''down'']"
  using audit_trail_complete [of sample_logger "[new_event sample_time DaemonStarted SeverityInfo ''up'',
      new_event sample_time DaemonShutdown SeverityInfo ''down'']"]
  by (simp add: trail_def sample_logger_def)

text \<open>
  The journal entry of an event carries the event's line under the identifier of the audit
  log, and its priority follows the severity: the graver the event, the smaller the number.
\<close>

lemma journal_entry_priority:
  assumes "lg_journal_enabled l" and "time_printable (e_time e)" and "sink_send sk (lg_sends l)"
    and "e_severity e \<le> sev"
  shows "\<exists>p. ToJournal (event_line e) p [(''SYSLOG_IDENTIFIER'', ''atomic-audit'')] \<in> set (lg_out (log_event sk e l))
    \<and> priority_of sev \<le> p \<and> p \<le> 6"
proof -
  from event_json_printable [OF assms(2)] obtain d where d: "event_json e = Some d" by blast
  have keep: "x \<in> set (lg_out k) \<Longrightarrow> x \<in> set (lg_out (to_file sk t k))" for x t k
    by (simp add: to_file_def emit_def Let_def split: audit_file.split)
  have "ToJournal (event_line e) (priority_of (e_severity e)) journal_fields \<in> set (lg_out (log_event sk e l))"
    using assms(1,3) by (auto simp: log_event_def d event_line_def Let_def to_journal_def emit_def intro!: keep)
  moreover have "priority_of sev \<le> priority_of (e_severity e)" "priority_of (e_severity e) \<le> 6"
    using assms(4) by (cases sev; cases "e_severity e"; simp add: priority_of_def less_eq_severity_def)+
  ultimately show ?thesis by (auto simp: journal_fields_def)
qed

text \<open>
  An event whose time cannot be printed is dropped: it reaches neither the journal nor stderr
  nor the file, only a diagnostic is written, and the logger is otherwise unchanged.
\<close>

lemma unprintable_event_dropped:
  assumes "\<not> time_printable (e_time e)"
  shows "log_event sk e l = l\<lparr>lg_out := lg_out l @ [SlogError ''failed to marshal audit event'']\<rparr>
    \<and> trail (log_event sk e l) = trail l \<and> file_trail (log_event sk e l) = file_trail l"
  using assms by (simp add: log_event_def event_json_def time_marshal_def emit_def trail_def file_trail_def)

end
