(* ===== verification/PolicyEngine.thy ===== *)
theory PolicyEngine
  imports Decode OsModel
begin

text \<open>
  \<open>daemon/internal/policy\<close>: the records of \<open>types.go\<close> and the engine of \<open>engine.go\<close>, which loads the
  Rego modules of its directories, prepares one query per profile and evaluates the actions of
  agents. The OPA library is not part of the program: \<open>rego_lib\<close> holds its two entry points, and
  nothing is assumed of them.
\<close>

section \<open>Data\<close>

record agent_action =
  act_agent_id :: string
  act_action_type :: string
  act_resource :: string
  act_context :: "(string \<times> string) list"
  act_timestamp :: gotime

record policy_decision =
  pd_allow :: bool
  pd_reasons :: "string list"
  pd_audit_required :: bool
  pd_profile :: string

record agent_record =
  ar_id :: string
  ar_profile :: string
  ar_workspace_path :: string
  ar_allowed_binaries :: "string list"
  ar_allowed_networks :: "string list"
  ar_registered_at :: gotime
  ar_last_started_at :: "gotime option"

record opa_input =
  in_action :: agent_action
  in_agent :: agent_record
  in_data :: "(string \<times> json) list"

text \<open>
  The library: preparing a query over modules (name and source) may fail; evaluating one gives a
  result set, each result having a list of expression values.
\<close>

record ('q, 'e) rego_lib =
  rego_prepare :: "string \<Rightarrow> (string \<times> string) list \<Rightarrow> 'e + 'q"
  rego_eval :: "'q \<Rightarrow> opa_input \<Rightarrow> 'e + json list list"

record 'q engine =
  eng_queries :: "(string \<times> 'q) list"
  eng_agents :: "(string \<times> agent_record) list"
  eng_dirs :: "string list"

datatype 'e prep_error = ReadingModule string io_error | NoPolicyFiles "string list" | RegoError 'e

datatype 'e engine_error =
    PreparingQuery string "'e prep_error"
  | ReloadingProfile string "'e prep_error"
  | PolicyEvaluation 'e
  | UnexpectedResultType

definition profiles :: "string list" where
  "profiles = [''minimal'', ''developer'', ''infrastructure'']"

section \<open>Loading\<close>

fun read_modules :: "string list \<Rightarrow> os \<Rightarrow> ('e prep_error + (string \<times> string) list) \<times> os" where
  "read_modules [] s = (Inr [], s)"
| "read_modules (f # fs) s =
     (case os_read_file f s of
        (Inl e, s1) \<Rightarrow> (Inl (ReadingModule f e), s1)
      | (Inr data, s1) \<Rightarrow>
          (case read_modules fs s1 of
             (Inl e, s2) \<Rightarrow> (Inl e, s2)
           | (Inr ms, s2) \<Rightarrow> (Inr ((f, data) # ms), s2)))"

definition profile_file :: "string \<Rightarrow> string \<Rightarrow> string" where
  "profile_file dir profile = path_join [dir, ''profiles'', profile @ ''.rego'']"

fun collect_modules ::
    "string \<Rightarrow> string list \<Rightarrow> os \<Rightarrow> ('e prep_error + (string \<times> string) list) \<times> os" where
  "collect_modules profile [] s = (Inr [], s)"
| "collect_modules profile (dir # dirs) s =
     (let (files, s1) = glob_rego (path_join [dir, ''base'']) s in
      case read_modules files s1 of
        (Inl e, s2) \<Rightarrow> (Inl e, s2)
      | (Inr base, s2) \<Rightarrow>
          (let (r, s3) = os_read_file (profile_file dir profile) s2;
               overlay = (case r of Inr data \<Rightarrow> [(profile_file dir profile, data)] | Inl _ \<Rightarrow> [])
           in case collect_modules profile dirs s3 of
                (Inl e, s4) \<Rightarrow> (Inl e, s4)
              | (Inr rest, s4) \<Rightarrow> (Inr (base @ overlay @ rest), s4)))"

definition prepare_query ::
    "('q, 'e) rego_lib \<Rightarrow> string list \<Rightarrow> string \<Rightarrow> os \<Rightarrow> ('e prep_error + 'q) \<times> os" where
  "prepare_query lib dirs profile s =
     (case collect_modules profile dirs s of
        (Inl e, s1) \<Rightarrow> (Inl e, s1)
      | (Inr ms, s1) \<Rightarrow>
          (if ms = [] then Inl (NoPolicyFiles dirs)
           else case rego_prepare lib ''data.atomic.agent'' ms of
                  Inl e \<Rightarrow> Inl (RegoError e) | Inr q \<Rightarrow> Inr q, s1))"

text \<open>\<open>loadPolicies\<close> stores each query as soon as it is prepared.\<close>

fun load_each ::
    "('q, 'e) rego_lib \<Rightarrow> string list \<Rightarrow> 'q engine \<Rightarrow> os \<Rightarrow> ('e engine_error + unit) \<times> 'q engine \<times> os" where
  "load_each lib [] e s = (Inr (), e, s)"
| "load_each lib (p # ps) e s =
     (case prepare_query lib (eng_dirs e) p s of
        (Inl err, s1) \<Rightarrow> (Inl (PreparingQuery p err), e, s1)
      | (Inr q, s1) \<Rightarrow> load_each lib ps (e\<lparr>eng_queries := AList.update p q (eng_queries e)\<rparr>) s1)"

definition policy_dirs :: "string \<Rightarrow> string \<Rightarrow> os \<Rightarrow> string list \<times> os" where
  "policy_dirs builtinDir overrideDir s =
     (if overrideDir \<noteq> [] then
        (case os_stat overrideDir s of
           (Inr _, s1) \<Rightarrow> ([builtinDir, overrideDir], s1)
         | (Inl _, s1) \<Rightarrow> ([builtinDir], s1))
      else ([builtinDir], s))"

definition new_engine ::
    "('q, 'e) rego_lib \<Rightarrow> string \<Rightarrow> string \<Rightarrow> os \<Rightarrow> ('e engine_error + 'q engine) \<times> os" where
  "new_engine lib builtinDir overrideDir s =
     (case policy_dirs builtinDir overrideDir s of
        (dirs, s1) \<Rightarrow>
          (case load_each lib profiles \<lparr>eng_queries = [], eng_agents = [], eng_dirs = dirs\<rparr> s1 of
             (Inl err, _, s2) \<Rightarrow> (Inl err, s2)
           | (Inr _, e, s2) \<Rightarrow> (Inr e, s2)))"

text \<open>\<open>Reload\<close> prepares all queries into a new map and stores it when all went well.\<close>

fun reload_each ::
    "('q, 'e) rego_lib \<Rightarrow> string list \<Rightarrow> string list \<Rightarrow> (string \<times> 'q) list \<Rightarrow> os
      \<Rightarrow> ('e engine_error + (string \<times> 'q) list) \<times> os" where
  "reload_each lib dirs [] qs s = (Inr qs, s)"
| "reload_each lib dirs (p # ps) qs s =
     (case prepare_query lib dirs p s of
        (Inl err, s1) \<Rightarrow> (Inl (ReloadingProfile p err), s1)
      | (Inr q, s1) \<Rightarrow> reload_each lib dirs ps (AList.update p q qs) s1)"

definition reload ::
    "('q, 'e) rego_lib \<Rightarrow> 'q engine \<Rightarrow> os \<Rightarrow> ('e engine_error + unit) \<times> 'q engine \<times> os" where
  "reload lib e s =
     (case reload_each lib (eng_dirs e) profiles [] s of
        (Inl err, s1) \<Rightarrow> (Inl err, e, s1)
      | (Inr qs, s1) \<Rightarrow> (Inr (), e\<lparr>eng_queries := qs\<rparr>, s1))"

section \<open>Agents\<close>

definition register_agent :: "agent_record \<Rightarrow> 'q engine \<Rightarrow> 'q engine" where
  "register_agent a e = e\<lparr>eng_agents := AList.update (ar_id a) a (eng_agents e)\<rparr>"

definition unregister_agent :: "string \<Rightarrow> 'q engine \<Rightarrow> 'q engine" where
  "unregister_agent i e = e\<lparr>eng_agents := AList.delete i (eng_agents e)\<rparr>"

definition get_agent :: "string \<Rightarrow> 'q engine \<Rightarrow> agent_record option" where
  "get_agent i e = map_of (eng_agents e) i"

section \<open>Evaluation\<close>

definition deny :: "string list \<Rightarrow> string \<Rightarrow> policy_decision" where
  "deny reasons profile = \<lparr>pd_allow = False, pd_reasons = reasons, pd_audit_required = False, pd_profile = profile\<rparr>"

text \<open>Type assertions of the form \<open>v, _ := x.(bool)\<close> and the strings of a list.\<close>

definition as_bool :: "json option \<Rightarrow> bool" where
  "as_bool v = (case v of Some (JBool b) \<Rightarrow> b | _ \<Rightarrow> False)"

definition as_strings :: "json option \<Rightarrow> string list" where
  "as_strings v =
     (case v of
        Some (JArr xs) \<Rightarrow> List.map_filter (\<lambda>x. case x of JStr s \<Rightarrow> Some s | _ \<Rightarrow> None) xs
      | _ \<Rightarrow> [])"

definition evaluate ::
    "('q, 'e) rego_lib \<Rightarrow> 'q engine \<Rightarrow> agent_action \<Rightarrow> policy_decision \<times> 'e engine_error option" where
  "evaluate lib e action =
     (case map_of (eng_agents e) (act_agent_id action) of
        None \<Rightarrow> (deny [''agent not registered''] ''none'', None)
      | Some agent \<Rightarrow>
          (let profile = ar_profile agent in
           case map_of (eng_queries e) profile of
             None \<Rightarrow> (deny [''unknown policy profile: '' @ profile] profile, None)
           | Some query \<Rightarrow>
               (case rego_eval lib query \<lparr>in_action = action, in_agent = agent, in_data = []\<rparr> of
                  Inl err \<Rightarrow> (deny [] profile, Some (PolicyEvaluation err))
                | Inr rs \<Rightarrow>
                    (case rs of
                       (JObj result # _) # _ \<Rightarrow>
                         (\<lparr>pd_allow = as_bool (map_of result ''allow''),
                           pd_reasons = as_strings (map_of result ''reasons''),
                           pd_audit_required = as_bool (map_of result ''audit_required''),
                           pd_profile = profile\<rparr>, None)
                     | (_ # _) # _ \<Rightarrow> (deny [] profile, Some UnexpectedResultType)
                     | _ \<Rightarrow> (deny [''no policy result''] profile, None)))))"

section \<open>ValidateDir\<close>

datatype 'e validate_error = ReadingFile string io_error | InvalidPolicy string 'e

fun validate_files :: "('q, 'e) rego_lib \<Rightarrow> string list \<Rightarrow> os \<Rightarrow> ('e validate_error + unit) \<times> os" where
  "validate_files lib [] s = (Inr (), s)"
| "validate_files lib (f # fs) s =
     (case os_read_file f s of
        (Inl e, s1) \<Rightarrow> (Inl (ReadingFile f e), s1)
      | (Inr data, s1) \<Rightarrow>
          (case rego_prepare lib ''true'' [(f, data)] of
             Inl e \<Rightarrow> (Inl (InvalidPolicy f e), s1)
           | Inr _ \<Rightarrow> validate_files lib fs s1))"

definition validate_dir :: "('q, 'e) rego_lib \<Rightarrow> string \<Rightarrow> os \<Rightarrow> ('e validate_error + unit) \<times> os" where
  "validate_dir lib dir s =
     (let (files, s1) = glob_rego_below dir s; (rootFiles, s2) = glob_rego dir s1
      in validate_files lib (files @ rootFiles) s2)"

section \<open>Reading leaves the disk alone\<close>

definition same_disk :: "os \<Rightarrow> os \<Rightarrow> bool" where
  "same_disk s t \<longleftrightarrow> os_files t = os_files s \<and> os_faults t = os_faults s \<and> os_cmds t = os_cmds s"

definition quiet :: "os \<Rightarrow> bool" where
  "quiet s \<longleftrightarrow> (\<forall>n. os_faults s n = Works)"

lemma same_disk_refl [simp]: "same_disk s s"
  by (simp add: same_disk_def)

lemma same_disk_trans [trans]: "same_disk s t \<Longrightarrow> same_disk t u \<Longrightarrow> same_disk s u"
  by (simp add: same_disk_def)

lemma same_disk_quiet: "same_disk s t \<Longrightarrow> quiet t \<longleftrightarrow> quiet s"
  by (simp add: same_disk_def quiet_def)

lemma same_disk_look: "same_disk s t \<Longrightarrow> os_look t = os_look s"
  by (simp add: same_disk_def os_look_def fun_eq_iff)

lemma same_disk_tick [simp]: "same_disk s (snd (tick s))"
  by (simp add: same_disk_def tick_def)

lemma read_disk: "same_disk s (snd (os_read_file f s))"
  by (simp add: os_read_file_def Let_def case_prod_unfold split: option.split node.split)

lemma stat_disk: "same_disk s (snd (os_stat f s))"
  by (simp add: os_stat_def Let_def case_prod_unfold split: option.split)

lemma read_modules_disk: "same_disk s (snd (read_modules fs s :: ('e prep_error + _) \<times> os))"
proof (induction fs arbitrary: s)
  case (Cons f fs)
  obtain r s1 where o: "os_read_file f s = (r, s1)" by fastforce
  obtain r2 s2 where m: "(read_modules fs s1 :: ('e prep_error + _) \<times> os) = (r2, s2)" by fastforce
  have 1: "same_disk s s1" using read_disk [of s f] o by simp
  moreover have "same_disk s1 s2" using Cons.IH [of s1] m by simp
  ultimately have "same_disk s s2" by (rule same_disk_trans)
  with 1 o m show ?case by (cases r; cases r2) simp_all
qed simp

lemma glob_disk: "same_disk s (snd (glob_rego d s))"
  by (simp add: glob_rego_def glob_dir_def Let_def case_prod_unfold)

lemma collect_disk: "same_disk s (snd (collect_modules p dirs s :: ('e prep_error + _) \<times> os))"
proof (induction dirs arbitrary: s)
  case (Cons d dirs)
  obtain fs s1 where g: "glob_rego (path_join [d, ''base'']) s = (fs, s1)" by fastforce
  obtain r s2 where m: "(read_modules fs s1 :: ('e prep_error + _) \<times> os) = (r, s2)" by fastforce
  obtain r3 s3 where o: "os_read_file (profile_file d p) s2 = (r3, s3)" by fastforce
  obtain r4 s4 where c: "(collect_modules p dirs s3 :: ('e prep_error + _) \<times> os) = (r4, s4)" by fastforce
  have "same_disk s s1" using glob_disk [of s "path_join [d, ''base'']"] g by simp
  also have "same_disk s1 s2" using read_modules_disk [of s1 fs] m by (metis snd_conv)
  finally have 1: "same_disk s s2" .
  also have "same_disk s2 s3" using read_disk [of s2 "profile_file d p"] o by simp
  also have "same_disk s3 s4" using Cons.IH [of s3] c by simp
  finally have "same_disk s s4" .
  with 1 g m o c show ?case by (cases r; cases r4) simp_all
qed simp

lemma prepare_disk: "same_disk s (snd (prepare_query lib dirs p s))" for lib :: "('q, 'e) rego_lib"
proof -
  obtain r s1 where c: "(collect_modules p dirs s :: ('e prep_error + _) \<times> os) = (r, s1)" by fastforce
  then have "same_disk s s1" using collect_disk [of s p dirs] by (metis snd_conv)
  with c show ?thesis by (cases r) (simp_all add: prepare_query_def)
qed

lemma reload_each_disk: "same_disk s (snd (reload_each lib dirs ps qs s))"
proof (induction ps arbitrary: qs s)
  case (Cons p ps)
  obtain r s1 where c: "prepare_query lib dirs p s = (r, s1)" by fastforce
  then have 1: "same_disk s s1" using prepare_disk [of s lib dirs p] by simp
  with c Cons.IH show ?case by (cases r) (auto intro: same_disk_trans)
qed simp

lemma load_each_disk: "same_disk s (snd (snd (load_each lib ps e s)))"
proof (induction ps arbitrary: e s)
  case (Cons p ps)
  obtain r s1 where c: "prepare_query lib (eng_dirs e) p s = (r, s1)" by fastforce
  then have 1: "same_disk s s1" using prepare_disk [of s lib "eng_dirs e" p] by simp
  with c Cons.IH show ?case by (cases r) (auto intro: same_disk_trans)
qed simp

lemma reload_disk: "same_disk s (snd (snd (reload lib e s)))"
  using reload_each_disk [of s lib "eng_dirs e" profiles "[]"]
  by (cases "reload_each lib (eng_dirs e) profiles [] s"; cases "fst (reload_each lib (eng_dirs e) profiles [] s)")
    (simp_all add: reload_def)

section \<open>What was loaded\<close>

lemma load_each_frame:
  "load_each lib ps e s = (r, e', s') \<Longrightarrow> eng_agents e' = eng_agents e \<and> eng_dirs e' = eng_dirs e"
proof (induction ps arbitrary: e s)
  case (Cons p ps)
  obtain x s1 where c: "prepare_query lib (eng_dirs e) p s = (x, s1)" by fastforce
  with Cons.prems Cons.IH show ?case by (cases x) fastforce+
qed simp

lemma dom_map_of_update: "dom (map_of (AList.update k v al)) = insert k (dom (map_of al))"
  by (auto simp: update_conv)

lemma load_each_keys:
  "load_each lib ps e s = (Inr u, e', s') \<Longrightarrow>
     dom (map_of (eng_queries e')) = dom (map_of (eng_queries e)) \<union> set ps"
proof (induction ps arbitrary: e s)
  case (Cons p ps)
  obtain x s1 where c: "prepare_query lib (eng_dirs e) p s = (x, s1)" by fastforce
  with Cons.prems obtain q where x: "x = Inr q" by (cases x) simp_all
  with Cons.prems c Cons.IH [of "e\<lparr>eng_queries := AList.update p q (eng_queries e)\<rparr>" s1]
  show ?case by (simp add: dom_map_of_update del: map_of_update)
qed simp

lemma reload_each_keys:
  "reload_each lib dirs ps qs s = (Inr qs', s') \<Longrightarrow> dom (map_of qs') = dom (map_of qs) \<union> set ps"
proof (induction ps arbitrary: qs s)
  case (Cons p ps)
  obtain x s1 where c: "prepare_query lib dirs p s = (x, s1)" by fastforce
  with Cons.prems obtain q where x: "x = Inr q" by (cases x) simp_all
  with Cons.prems c Cons.IH [of "AList.update p q qs" s1]
  show ?case by (simp add: dom_map_of_update del: map_of_update)
qed simp

text \<open>An engine holds a query for each of the three profiles, and for no other.\<close>

definition engine_wf :: "'q engine \<Rightarrow> bool" where
  "engine_wf e \<longleftrightarrow> dom (map_of (eng_queries e)) = set profiles
     \<and> distinct (map fst (eng_agents e)) \<and> (\<forall>(k, a) \<in> set (eng_agents e). ar_id a = k)"

lemma new_engine_loaded:
  assumes "new_engine lib b ov s = (Inr e, s')"
  obtains dirs s1 u where "policy_dirs b ov s = (dirs, s1)"
    "load_each lib profiles \<lparr>eng_queries = [], eng_agents = [], eng_dirs = dirs\<rparr> s1 = (Inr u, e, s')"
  using assms by (auto simp: new_engine_def split: prod.splits sum.splits)

lemma new_engine_wf:
  assumes "new_engine lib b ov s = (Inr e, s')"
  shows "engine_wf e \<and> eng_agents e = []"
proof -
  from assms obtain dirs s1 u where
    l: "load_each lib profiles \<lparr>eng_queries = [], eng_agents = [], eng_dirs = dirs\<rparr> s1 = (Inr u, e, s')"
    by (rule new_engine_loaded)
  show ?thesis using load_each_frame [OF l] load_each_keys [OF l] by (simp add: engine_wf_def)
qed

lemma reload_wf:
  assumes "engine_wf e" and "reload lib e s = (r, e', s')"
  shows "engine_wf e'"
proof (cases "fst (reload_each lib (eng_dirs e) profiles [] s)")
  case (Inl err)
  with assms show ?thesis by (cases "reload_each lib (eng_dirs e) profiles [] s") (simp add: reload_def)
next
  case (Inr qs)
  then obtain s1 where "reload_each lib (eng_dirs e) profiles [] s = (Inr qs, s1)" by (metis prod.collapse)
  with reload_each_keys [OF this] assms show ?thesis by (clarsimp simp: reload_def engine_wf_def)
qed

lemma set_update_subset: "set (AList.update k v al) \<subseteq> insert (k, v) (set al)"
  by (induction al) auto

lemma register_agent_wf: "engine_wf e \<Longrightarrow> engine_wf (register_agent a e)"
  using set_update_subset [of "ar_id a" a "eng_agents e"]
  by (auto simp: engine_wf_def register_agent_def distinct_update)

lemma unregister_agent_wf: "engine_wf e \<Longrightarrow> engine_wf (unregister_agent i e)"
  by (auto simp: engine_wf_def unregister_agent_def distinct_delete set_delete)

lemma get_register [simp]: "get_agent i (register_agent a e) = (if i = ar_id a then Some a else get_agent i e)"
  by (simp add: get_agent_def register_agent_def)

lemma get_unregister [simp]: "get_agent i (unregister_agent j e) = (if i = j then None else get_agent i e)"
  by (simp add: get_agent_def unregister_agent_def)

section \<open>Loading and reloading agree\<close>

lemma glob_cong:
  "quiet s \<Longrightarrow> quiet t \<Longrightarrow> os_files s = os_files t \<Longrightarrow> fst (glob_rego d s) = fst (glob_rego d t)"
  by (simp add: glob_rego_def glob_dir_def dir_names_def os_look_def quiet_def tick_def)

lemma walk_error_files: "os_files s = os_files t \<Longrightarrow> walk_error s ps = walk_error t ps"
  by (rule walk_error_cong) (simp add: os_look_def fun_eq_iff)

lemma read_cong:
  "quiet s \<Longrightarrow> quiet t \<Longrightarrow> os_files s = os_files t \<Longrightarrow> fst (os_read_file f s) = fst (os_read_file f t)"
  using walk_error_files [of "snd (tick s)" "snd (tick t)"]
  by (simp add: os_read_file_def Let_def case_prod_unfold quiet_def tick_def os_look_def
      parent_error_def split: option.split node.split)

text \<open>Two disks on which reading gives the same answers.\<close>

definition alike :: "os \<Rightarrow> os \<Rightarrow> bool" where
  "alike s t \<longleftrightarrow> quiet s \<and> quiet t \<and> os_files s = os_files t"

lemma alike_step: "alike s t \<Longrightarrow> same_disk s s' \<Longrightarrow> same_disk t t' \<Longrightarrow> alike s' t'"
  by (simp add: alike_def same_disk_def quiet_def)

lemma alike_read:
  assumes "alike s t"
  shows "fst (os_read_file f s) = fst (os_read_file f t)"
    and "alike (snd (os_read_file f s)) (snd (os_read_file f t))"
  using assms alike_step [OF assms read_disk read_disk] by (simp_all add: alike_def read_cong)

lemma alike_glob:
  assumes "alike s t"
  shows "fst (glob_rego d s) = fst (glob_rego d t)" and "alike (snd (glob_rego d s)) (snd (glob_rego d t))"
  using assms alike_step [OF assms glob_disk glob_disk] by (auto simp: alike_def intro: glob_cong)

lemma alike_read_modules:
  "alike s t \<Longrightarrow> fst (read_modules fs s :: ('e prep_error + _) \<times> os) = fst (read_modules fs t)"
proof (induction fs arbitrary: s t)
  case (Cons f fs)
  obtain r s1 where s: "os_read_file f s = (r, s1)" by fastforce
  obtain r' t1 where t: "os_read_file f t = (r', t1)" by fastforce
  from alike_read [OF Cons.prems, of f] s t have "r' = r" and a: "alike s1 t1" by simp_all
  with s t Cons.IH [OF a] show ?case
    by (cases r; cases "read_modules fs s1 :: ('e prep_error + _) \<times> os";
        cases "read_modules fs t1 :: ('e prep_error + _) \<times> os") (auto split: sum.split)
qed simp

lemma alike_collect:
  "alike s t \<Longrightarrow> fst (collect_modules p dirs s :: ('e prep_error + _) \<times> os) = fst (collect_modules p dirs t)"
proof (induction dirs arbitrary: s t)
  case (Cons d dirs)
  obtain fs s0 where gs: "glob_rego (path_join [d, ''base'']) s = (fs, s0)" by fastforce
  obtain fs' t0 where gt: "glob_rego (path_join [d, ''base'']) t = (fs', t0)" by fastforce
  from alike_glob [OF Cons.prems, of "path_join [d, ''base'']"] gs gt have f: "fs' = fs" and a: "alike s0 t0"
    by simp_all
  obtain r s1 where s: "(read_modules fs s0 :: ('e prep_error + _) \<times> os) = (r, s1)" by fastforce
  obtain r' t1 where t: "(read_modules fs t0 :: ('e prep_error + _) \<times> os) = (r', t1)" by fastforce
  have r: "r' = r" using alike_read_modules [OF a, of fs] s t by (metis fst_conv)
  have "alike s1 t1" using alike_step [OF a read_modules_disk [of s0 fs] read_modules_disk [of t0 fs]] s t
    by (metis snd_conv)
  note o = alike_read [OF this, of "profile_file d p"]
  from Cons.IH [OF o(2)] o(1) gs gt f s t r show ?case
    by (cases r; cases "collect_modules p dirs (snd (os_read_file (profile_file d p) s1)) :: ('e prep_error + _) \<times> os";
        cases "collect_modules p dirs (snd (os_read_file (profile_file d p) t1)) :: ('e prep_error + _) \<times> os")
      (auto simp: Let_def case_prod_unfold split: sum.split)
qed simp

lemma prepare_result:
  "fst (prepare_query lib dirs p s) =
     (case fst (collect_modules p dirs s :: ('e prep_error + _) \<times> os) of
        Inl e \<Rightarrow> Inl e
      | Inr ms \<Rightarrow>
          if ms = [] then Inl (NoPolicyFiles dirs)
          else (case rego_prepare lib ''data.atomic.agent'' ms of Inl e \<Rightarrow> Inl (RegoError e) | Inr q \<Rightarrow> Inr q))"
  for lib :: "('q, 'e) rego_lib"
  by (simp add: prepare_query_def case_prod_unfold split: sum.split)

lemma alike_prepare:
  assumes "alike s t"
  shows "fst (prepare_query lib dirs p s) = fst (prepare_query lib dirs p t)"
    and "alike (snd (prepare_query lib dirs p s)) (snd (prepare_query lib dirs p t))"
  using alike_step [OF assms prepare_disk prepare_disk]
  by (simp_all add: prepare_result alike_collect [OF assms])

lemma load_then_reload:
  "load_each lib ps e s = (Inr u, e', s') \<Longrightarrow> alike s t \<Longrightarrow>
     fst (reload_each lib (eng_dirs e) ps (eng_queries e) t) = Inr (eng_queries e')"
proof (induction ps arbitrary: e s t)
  case (Cons p ps)
  obtain x s1 where c: "prepare_query lib (eng_dirs e) p s = (x, s1)" by fastforce
  obtain x' t1 where d: "prepare_query lib (eng_dirs e) p t = (x', t1)" by fastforce
  from alike_prepare [OF Cons.prems(2), of lib "eng_dirs e" p] c d have "x' = x" "alike s1 t1" by simp_all
  moreover from c Cons.prems(1) obtain q where "x = Inr q" by (cases x) simp_all
  ultimately show ?case
    using c d Cons.prems(1) Cons.IH [of "e\<lparr>eng_queries := AList.update p q (eng_queries e)\<rparr>" s1 t1]
    by simp
qed simp

lemma policy_dirs_disk: "same_disk s (snd (policy_dirs b ov s))"
  using stat_disk [of s ov]
  by (cases "os_stat ov s"; cases "fst (os_stat ov s)") (simp_all add: policy_dirs_def)

section \<open>Properties\<close>

text \<open>A library and a disk to evaluate the definitions on.\<close>

definition sample_lib :: "(string list, string) rego_lib" where
  "sample_lib = \<lparr>
     rego_prepare = (\<lambda>q ms. if list_all (\<lambda>m. snd m \<noteq> []) ms then Inr (map fst ms) else Inl ''empty module''),
     rego_eval = (\<lambda>q i. Inr [[JObj [(''allow'', JBool (act_action_type (in_action i) = ''filesystem_read'')),
                                     (''reasons'', JArr [JStr ''rule''])]]])\<rparr>"

definition sample_os :: os where
  "sample_os = \<lparr>
     os_files = [([''p''], DirNode 0), ([''p'', ''base''], DirNode 0), ([''p'', ''base'', ''a.rego''], FileNode 0 ''x'')],
     os_faults = (\<lambda>_. Works), os_calls = 0, os_cmds = []\<rparr>"

definition sample_agent :: "string \<Rightarrow> string \<Rightarrow> agent_record" where
  "sample_agent i p = \<lparr>ar_id = i, ar_profile = p, ar_workspace_path = ''/w'', ar_allowed_binaries = [],
     ar_allowed_networks = [], ar_registered_at = zero_time, ar_last_started_at = None\<rparr>"

definition sample_engine :: "string list engine" where
  "sample_engine = \<lparr>eng_queries = map (\<lambda>p. (p, [])) profiles,
     eng_agents = [(''a1'', sample_agent ''a1'' ''minimal''), (''a2'', sample_agent ''a2'' ''custom'')],
     eng_dirs = [''/p'']\<rparr>"

definition sample_action :: "string \<Rightarrow> agent_action" where
  "sample_action i = \<lparr>act_agent_id = i, act_action_type = ''filesystem_read'', act_resource = ''/etc/hosts'',
     act_context = [], act_timestamp = zero_time\<rparr>"

lemma sample_engine_wf [simp]: "engine_wf sample_engine"
  by (auto simp: engine_wf_def sample_engine_def sample_agent_def profiles_def split: if_splits)

text \<open>
  C3. Deny by default: the decision allows an action exactly when the acting agent is registered,
  the engine holds a query for the agent's profile, the query was evaluated without error on that
  action and agent, and the first expression of the first result is an object whose \<open>allow\<close> is true.
  In every other case, errors included, the decision is to deny.
\<close>

theorem evaluate_allow_iff:
  "pd_allow (fst (evaluate lib e action)) \<longleftrightarrow>
     (\<exists>agent query result es rs.
        map_of (eng_agents e) (act_agent_id action) = Some agent \<and>
        map_of (eng_queries e) (ar_profile agent) = Some query \<and>
        rego_eval lib query \<lparr>in_action = action, in_agent = agent, in_data = []\<rparr> = Inr ((JObj result # es) # rs) \<and>
        map_of result ''allow'' = Some (JBool True))"
  by (auto simp: evaluate_def deny_def as_bool_def Let_def
      split: option.split sum.split list.split json.split)

text \<open>
  C24. Only the three shipped profiles are ever evaluated: an agent registered under any other
  profile name is denied every action, with the profile named in the reason, before and after
  every reload of the policies.
\<close>

theorem unknown_profile_denied:
  assumes "engine_wf e" and "reload lib e s = (r, e', s')"
    and "map_of (eng_agents e) (act_agent_id action) = Some agent" and "ar_profile agent \<notin> set profiles"
  shows "evaluate lib e action = (deny [''unknown policy profile: '' @ ar_profile agent] (ar_profile agent), None)
    \<and> evaluate lib e' action = evaluate lib e action"
proof -
  have wf': "engine_wf e'" by (rule reload_wf [OF assms(1,2)])
  have ag: "eng_agents e' = eng_agents e"
    using assms(2) by (auto simp: reload_def split: prod.splits sum.splits)
  have "map_of (eng_queries e) (ar_profile agent) = None" "map_of (eng_queries e') (ar_profile agent) = None"
    using assms(1,4) wf' by (auto simp: engine_wf_def simp flip: domIff)
  then show ?thesis using assms(3) ag by (simp add: evaluate_def Let_def)
qed

lemma unknown_profile_denied_witness:
  "evaluate sample_lib sample_engine (sample_action ''a2'')
     = (deny [''unknown policy profile: custom''] ''custom'', None)"
proof (cases "reload sample_lib sample_engine sample_os")
  case (fields r e' s')
  then show ?thesis
    using unknown_profile_denied [OF sample_engine_wf fields, of "sample_action ''a2''" "sample_agent ''a2'' ''custom''"]
    by (simp add: sample_engine_def sample_action_def sample_agent_def profiles_def)
qed

text \<open>
  C22. Reloading is all or nothing: when a profile cannot be prepared the engine keeps answering
  with the old queries, and when all can the new engine has a query for each shipped profile.
  Agents and directories are kept either way, and nothing is written to disk.
\<close>

theorem reload_atomic:
  assumes "engine_wf e" and "reload lib e s = (r, e', s')"
  shows "(case r of Inl err \<Rightarrow> e' = e | Inr _ \<Rightarrow> dom (map_of (eng_queries e')) = set profiles)
    \<and> eng_agents e' = eng_agents e \<and> eng_dirs e' = eng_dirs e \<and> engine_wf e' \<and> os_files s' = os_files s"
proof -
  have "engine_wf e'" by (rule reload_wf [OF assms])
  moreover have "os_files s' = os_files s" using reload_disk [of s lib e] assms(2) by (simp add: same_disk_def)
  ultimately show ?thesis using assms(2)
    by (auto simp: reload_def engine_wf_def split: prod.splits sum.splits)
qed

lemma reload_atomic_witness:
  "eng_agents (fst (snd (reload sample_lib sample_engine sample_os))) = eng_agents sample_engine"
  using reload_atomic [OF sample_engine_wf, of sample_lib sample_os]
  by (cases "reload sample_lib sample_engine sample_os") auto

text \<open>
  C23. \<open>Reload\<close> and the loading at start agree: if the disk holds what it held when the engine was
  created and no read fails, reloading succeeds and leaves the engine exactly as it was.
\<close>

theorem reload_unchanged_disk:
  assumes "new_engine lib builtin override s = (Inr e, s')" and "quiet s"
    and "quiet t" and "os_files t = os_files s"
  shows "\<exists>t'. reload lib (e\<lparr>eng_agents := agents\<rparr>) t = (Inr (), e\<lparr>eng_agents := agents\<rparr>, t')"
proof -
  from assms(1) obtain dirs s1 u where d: "policy_dirs builtin override s = (dirs, s1)"
    and l: "load_each lib profiles \<lparr>eng_queries = [], eng_agents = [], eng_dirs = dirs\<rparr> s1 = (Inr u, e, s')"
    by (rule new_engine_loaded)
  have "same_disk s s1" using policy_dirs_disk [of s builtin override] d by simp
  then have "alike s1 t" using assms(2-4) by (simp add: alike_def same_disk_quiet) (simp add: same_disk_def)
  then have "fst (reload_each lib dirs profiles [] t) = Inr (eng_queries e)"
    using load_then_reload [OF l] by simp
  moreover have "eng_dirs e = dirs" using load_each_frame [OF l] by simp
  ultimately show ?thesis
    by (cases "reload_each lib dirs profiles [] t") (simp add: reload_def)
qed

lemma reload_unchanged_disk_witness:
  "\<exists>e s' t'. new_engine sample_lib ''/p'' ''/q'' sample_os = (Inr e, s') \<and>
     reload sample_lib (e\<lparr>eng_agents := []\<rparr>) sample_os = (Inr (), e\<lparr>eng_agents := []\<rparr>, t')"
proof -
  have "\<exists>e s'. new_engine sample_lib ''/p'' ''/q'' sample_os = (Inr e, s')"
  proof -
    have "is_ok (fst (new_engine sample_lib ''/p'' ''/q'' sample_os))" by code_simp
    then show ?thesis
      by (cases "new_engine sample_lib ''/p'' ''/q'' sample_os") (auto simp: is_ok_iff)
  qed
  then obtain e s' where n: "new_engine sample_lib ''/p'' ''/q'' sample_os = (Inr e, s')" by blast
  have "quiet sample_os" by (simp add: quiet_def sample_os_def)
  with n reload_unchanged_disk [OF n, of sample_os "[]"] show ?thesis by auto
qed

end
