(* ===== verification/Registry.thy ===== *)
theory Registry
  imports AuditLog PolicyEngine
begin

text \<open>
  \<open>daemon/internal/agent/registry.go\<close>: the registry file in which the registered agents survive a
  restart of the daemon, and the record of a live agent (from \<open>lifecycle.go\<close>) it is written from.
\<close>

section \<open>Agents\<close>

datatype agent_state =
    StateRegistered | StateStarting | StateRunning | StateStopping | StateStopped | StateKilled | StateFailed

fun state_name :: "agent_state \<Rightarrow> string" where
  "state_name StateRegistered = ''registered''"
| "state_name StateStarting = ''starting''"
| "state_name StateRunning = ''running''"
| "state_name StateStopping = ''stopping''"
| "state_name StateStopped = ''stopped''"
| "state_name StateKilled = ''killed''"
| "state_name StateFailed = ''failed''"

text \<open>\<open>RuntimeAgent\<close> embeds \<open>AgentRecord\<close>: it extends the record.\<close>

record runtime_agent = agent_record +
  ra_exec_path :: string
  ra_state :: agent_state
  ra_started_at :: "gotime option"
  ra_stopped_at :: "gotime option"
  ra_exit_code :: "int option"
  ra_kill_reason :: string

section \<open>Entries\<close>

record registry_entry =
  re_id :: string
  re_profile :: string
  re_workspace_path :: string
  re_exec_path :: string
  re_allowed_binaries :: "string list"
  re_allowed_networks :: "string list"
  re_registered_at :: gotime

definition zero_entry :: registry_entry where
  "zero_entry = \<lparr>re_id = [], re_profile = [], re_workspace_path = [], re_exec_path = [],
     re_allowed_binaries = [], re_allowed_networks = [], re_registered_at = zero_time\<rparr>"

definition entry_of :: "runtime_agent \<Rightarrow> registry_entry" where
  "entry_of a = \<lparr>re_id = ar_id a, re_profile = ar_profile a, re_workspace_path = ar_workspace_path a,
     re_exec_path = ra_exec_path a, re_allowed_binaries = ar_allowed_binaries a,
     re_allowed_networks = ar_allowed_networks a, re_registered_at = ar_registered_at a\<rparr>"

definition to_agent_record :: "registry_entry \<Rightarrow> agent_record" where
  "to_agent_record e = \<lparr>ar_id = re_id e, ar_profile = re_profile e, ar_workspace_path = re_workspace_path e,
     ar_allowed_binaries = re_allowed_binaries e, ar_allowed_networks = re_allowed_networks e,
     ar_registered_at = re_registered_at e, ar_last_started_at = None\<rparr>"

definition entry_members :: "string \<Rightarrow> registry_entry \<Rightarrow> (string \<times> json) list" where
  "entry_members stamp e =
     [(''id'', JStr (re_id e)), (''profile'', JStr (re_profile e)), (''workspace_path'', JStr (re_workspace_path e))]
     @ omit_str ''exec_path'' (re_exec_path e)
     @ omit_strs ''allowed_binaries'' (re_allowed_binaries e)
     @ omit_strs ''allowed_networks'' (re_allowed_networks e)
     @ [(''registered_at'', JStr stamp)]"

definition entry_json :: "registry_entry \<Rightarrow> json option" where
  "entry_json e = map_option (\<lambda>stamp. JObj (entry_members stamp e)) (time_marshal (re_registered_at e))"

text \<open>One member that cannot be marshalled fails the whole document.\<close>

fun option_all :: "'a option list \<Rightarrow> 'a list option" where
  "option_all [] = Some []"
| "option_all (None # xs) = None"
| "option_all (Some x # xs) = map_option ((#) x) (option_all xs)"

definition registry_json :: "registry_entry list \<Rightarrow> json option" where
  "registry_json es = map_option JArr (option_all (map entry_json es))"

definition entry_fields :: "registry_entry fields" where
  "entry_fields =
     [(''id'', in_field re_id re_id_update dec_string),
      (''profile'', in_field re_profile re_profile_update dec_string),
      (''workspace_path'', in_field re_workspace_path re_workspace_path_update dec_string),
      (''exec_path'', in_field re_exec_path re_exec_path_update dec_string),
      (''allowed_binaries'', in_field re_allowed_binaries re_allowed_binaries_update (dec_slice [] dec_string)),
      (''allowed_networks'', in_field re_allowed_networks re_allowed_networks_update (dec_slice [] dec_string)),
      (''registered_at'', in_field re_registered_at re_registered_at_update dec_time)]"

definition dec_registry :: "registry_entry list decoder" where
  "dec_registry = dec_slice zero_entry (dec_struct entry_fields)"

section \<open>The file\<close>

definition registry_file_path :: "string \<Rightarrow> string" where
  "registry_file_path workspaceRoot = path_join [workspaceRoot, ''registry.json'']"

datatype registry_error =
    MarshalingRegistry
  | WritingRegistry io_error
  | RenamingRegistry io_error
  | ReadingRegistry string io_error
  | ParsingRegistry string

text \<open>The agents come in the order in which the iteration over the map visits them.\<close>

definition save_registry :: "string \<Rightarrow> runtime_agent list \<Rightarrow> os \<Rightarrow> (registry_error + unit) \<times> os" where
  "save_registry workspaceRoot agents s =
     (case registry_json (map entry_of agents) of
        None \<Rightarrow> (Inl MarshalingRegistry, s)
      | Some d \<Rightarrow>
          (let data = json_marshal_indent d;
               path = registry_file_path workspaceRoot;
               tmpPath = path @ ''.tmp''
           in case os_write_file tmpPath data (oct 6 4 0) s of
                (Inl e, s1) \<Rightarrow> (Inl (WritingRegistry e), s1)
              | (Inr _, s1) \<Rightarrow>
                  (case os_rename tmpPath path s1 of
                     (Inl e, s2) \<Rightarrow> (Inl (RenamingRegistry e), s2)
                   | (Inr _, s2) \<Rightarrow> (Inr (), s2))))"

definition load_registry :: "string \<Rightarrow> os \<Rightarrow> (registry_error + registry_entry list) \<times> os" where
  "load_registry workspaceRoot s =
     (let path = registry_file_path workspaceRoot in
      case os_read_file path s of
        (Inl e, s1) \<Rightarrow> (if e = ENOENT then Inr [] else Inl (ReadingRegistry path e), s1)
      | (Inr data, s1) \<Rightarrow>
          (case decoded dec_registry [] (json_unmarshal data) of
             None \<Rightarrow> (Inl (ParsingRegistry path), s1)
           | Some entries \<Rightarrow> (Inr entries, s1)))"

section \<open>An entry is read back as it was written\<close>

definition utf8_ok :: "string \<Rightarrow> bool" where
  "utf8_ok s \<longleftrightarrow> utf8_repair s = s"

definition entry_ok :: "registry_entry \<Rightarrow> bool" where
  "entry_ok e \<longleftrightarrow> utf8_ok (re_id e) \<and> utf8_ok (re_profile e) \<and> utf8_ok (re_workspace_path e) \<and>
     utf8_ok (re_exec_path e) \<and> list_all utf8_ok (re_allowed_binaries e) \<and>
     list_all utf8_ok (re_allowed_networks e) \<and> time_wf (re_registered_at e)"

lemma utf8_ok_ascii: "ascii s \<Longrightarrow> utf8_ok s"
  unfolding utf8_ok_def by (rule utf8_repair_ascii)

lemma ascii_append [simp]: "ascii (s @ t) \<longleftrightarrow> ascii s \<and> ascii t"
  by (auto simp: ascii_def)

lemma ascii_digits: "list_all is_digit s \<Longrightarrow> ascii s"
  by (induction s) (auto simp: ascii_def is_digit_def)

lemma ascii_subset: "set s \<subseteq> set t \<Longrightarrow> ascii t \<Longrightarrow> ascii s"
  by (auto simp: ascii_def)

lemma ascii_format_time: "ascii (format_time t)"
proof -
  have p: "ascii (pad_num w n)" for w n by (rule ascii_digits [OF pad_num_digits])
  have "ascii (print_frac n)" for n
    using ascii_subset [OF trim_zeros_subset p, of 9 n] by (simp add: print_frac_def ascii_lits)
  moreover have "ascii (print_zone z)" for z using p by (simp add: print_zone_def ascii_lits)
  ultimately show ?thesis using p by (simp add: format_time_def ascii_lits)
qed

lemma repair_omit:
  "ascii k \<Longrightarrow> utf8_ok x \<Longrightarrow>
     map (\<lambda>kv. (utf8_repair (fst kv), json_repair (snd kv))) (omit_str k x) = omit_str k x"
  "ascii k \<Longrightarrow> list_all utf8_ok xs \<Longrightarrow>
     map (\<lambda>kv. (utf8_repair (fst kv), json_repair (snd kv))) (omit_strs k xs) = omit_strs k xs"
  by (auto simp: omit_str_def omit_strs_def utf8_ok_def utf8_repair_ascii list_all_iff)

lemma entry_json_repair: "entry_ok e \<Longrightarrow> entry_json e = Some d \<Longrightarrow> json_repair d = d"
  using ascii_format_time [of "re_registered_at e"]
  by (auto simp: entry_json_def entry_ok_def entry_members_def repair_omit time_marshal_def utf8_ok_def
      utf8_repair_ascii ascii_lits split: if_splits simp del: utf8_repair.simps)

lemma entry_json_nums: "entry_json e = Some d \<Longrightarrow> json_nums d"
  by (auto simp: entry_json_def entry_members_def)

lemma dec_members_append:
  "dec_members fs (xs @ ys) a =
     (let (b, e) = dec_members fs xs a; (c, e') = dec_members fs ys b in (c, e \<or> e'))"
  by (induction xs arbitrary: a) (auto simp: case_prod_unfold Let_def split: option.split)

lemma dec_members_one: "map_of fs k = Some d \<Longrightarrow> dec_members fs [(k, v)] a = d v a"
  by (simp add: find_field_exact case_prod_unfold)

lemma dec_members_omit_str:
  "map_of fs k = Some (in_field get upd dec_string) \<Longrightarrow> (x = [] \<Longrightarrow> upd (\<lambda>_. []) a = a) \<Longrightarrow>
     dec_members fs (omit_str k x) a = (upd (\<lambda>_. x) a, False)"
  by (auto simp: omit_str_def find_field_exact in_field_def)

lemma dec_members_omit_strs:
  "map_of fs k = Some (in_field get upd (dec_slice [] dec_string)) \<Longrightarrow> (xs = [] \<Longrightarrow> upd (\<lambda>_. []) a = a) \<Longrightarrow>
     dec_members fs (omit_strs k xs) a = (upd (\<lambda>_. xs) a, False)"
  using dec_string_slice [of xs] by (auto simp: omit_strs_def find_field_exact in_field_def)

lemma entry_decoded:
  assumes "time_wf (re_registered_at e)" and "entry_json e = Some d"
  shows "dec_struct entry_fields d zero_entry = (e, False)"
proof -
  obtain stamp where t: "time_marshal (re_registered_at e) = Some stamp" and d: "d = JObj (entry_members stamp e)"
    using assms(2) by (auto simp: entry_json_def)
  have p: "dec_time (JStr stamp) old = (re_registered_at e, False)" for old
    by (rule dec_time_str [OF marshal_parse [OF assms(1) t]])
  show ?thesis
    by (simp add: d entry_members_def dec_members_append dec_members_one dec_members_omit_str dec_members_omit_strs
        entry_fields_def zero_entry_def find_field_def in_field_def p)
qed

section \<open>The file is read back as it was written\<close>

lemma option_all_Some: "option_all xs = Some ys \<longleftrightarrow> list_all2 (\<lambda>x y. x = Some y) xs ys"
proof (induction xs arbitrary: ys rule: option_all.induct)
  case 1
  then show ?case by auto
next
  case (2 xs)
  then show ?case by (auto simp: list_all2_Cons1)
next
  case (3 x xs)
  then show ?case by (cases ys) auto
qed

lemma registry_json_Some:
  "registry_json es = Some d \<longleftrightarrow> (\<exists>ds. d = JArr ds \<and> list_all2 (\<lambda>e d. entry_json e = Some d) es ds)"
  by (auto simp: registry_json_def option_all_Some list_all2_map1)

lemma registry_json_nums: "registry_json es = Some d \<Longrightarrow> json_nums d"
proof -
  assume "registry_json es = Some d"
  then obtain ds where d: "d = JArr ds" and l: "list_all2 (\<lambda>e d. entry_json e = Some d) es ds"
    by (auto simp: registry_json_Some)
  from l have "list_all json_nums ds"
    by (induction rule: list_all2_induct) (auto simp: entry_json_nums)
  then show ?thesis by (simp add: d)
qed

lemma registry_json_repair:
  assumes "registry_json es = Some d" and "list_all entry_ok es"
  shows "json_repair d = d"
proof -
  from assms(1) obtain ds where d: "d = JArr ds" and l: "list_all2 (\<lambda>e d. entry_json e = Some d) es ds"
    by (auto simp: registry_json_Some)
  have "map json_repair ds = ds"
    using l assms(2) by (induction rule: list_all2_induct) (auto simp: entry_json_repair)
  then show ?thesis by (simp add: d)
qed

lemma dec_slice_fresh:
  assumes "list_all2 (\<lambda>x d. dec d zero = (x, False)) xs ds"
  shows "dec_slice zero dec (JArr ds) [] = (xs, False)"
proof -
  have "map (\<lambda>(i, x). dec x (nth_or zero [] i)) (enumerate n ds) = map (\<lambda>x. (x, False)) xs" for n
    using assms
  proof (induction xs ds arbitrary: n rule: list_all2_induct)
    case (Cons x xs d ds)
    show ?case using Cons.hyps(1) Cons.IH [of "Suc n"] by (simp add: nth_or_def)
  qed simp
  then show ?thesis by (simp add: dec_slice_def comp_def list_ex_iff)
qed

lemma registry_decoded:
  assumes "registry_json es = Some d" and "list_all entry_ok es"
  shows "decoded dec_registry [] (json_unmarshal (json_marshal_indent d)) = Some es"
proof -
  from assms(1) obtain ds where d: "d = JArr ds" and l: "list_all2 (\<lambda>e d. entry_json e = Some d) es ds"
    by (auto simp: registry_json_Some)
  have "list_all2 (\<lambda>e d. dec_struct entry_fields d zero_entry = (e, False)) es ds"
    using l assms(2)
    by (induction rule: list_all2_induct) (auto simp: entry_ok_def intro: entry_decoded)
  then have "dec_registry d [] = (es, False)" unfolding dec_registry_def d by (rule dec_slice_fresh)
  then show ?thesis
    using unmarshal_marshal_indent [OF registry_json_nums [OF assms(1)]] registry_json_repair [OF assms]
    by (simp add: decoded_Some)
qed

lemma plain_registry: "plain_elem ''registry.json''" "plain_elem (''registry.json'' @ ''.tmp'')"
  by (simp_all add: plain_elem_def dot_def dotdot_def)

lemma resolve_registry:
  assumes "root \<noteq> []"
  shows "resolve (registry_file_path root) = resolve root @ [''registry.json'']"
    and "resolve (registry_file_path root @ ''.tmp'') = resolve root @ [''registry.json.tmp'']"
  using assms resolve_join [OF assms plain_registry(1)] resolve_join_suffix [OF assms plain_registry]
  by (simp_all add: registry_file_path_def)

text \<open>The disk after each of the two steps of saving.\<close>

lemma save_cases:
  assumes "save_registry root agents s = (r, s')"
  obtains (marshal) "r = Inl MarshalingRegistry" "s' = s"
  | (tmp) d e where "registry_json (map entry_of agents) = Some d" "r = Inl (WritingRegistry e)"
      "os_write_file (registry_file_path root @ ''.tmp'') (json_marshal_indent d) (oct 6 4 0) s = (Inl e, s')"
  | (rename) d u e s1 where "registry_json (map entry_of agents) = Some d" "r = Inl (RenamingRegistry e)"
      "os_write_file (registry_file_path root @ ''.tmp'') (json_marshal_indent d) (oct 6 4 0) s = (Inr u, s1)"
      "os_rename (registry_file_path root @ ''.tmp'') (registry_file_path root) s1 = (Inl e, s')"
  | (saved) d u v s1 where "registry_json (map entry_of agents) = Some d" "r = Inr ()"
      "os_write_file (registry_file_path root @ ''.tmp'') (json_marshal_indent d) (oct 6 4 0) s = (Inr u, s1)"
      "os_rename (registry_file_path root @ ''.tmp'') (registry_file_path root) s1 = (Inr v, s')"
  using assms by (auto simp: save_registry_def Let_def split: option.splits prod.splits sum.splits)

lemma save_wf: "os_wf s \<Longrightarrow> os_wf (snd (save_registry root agents s))"
proof (cases "save_registry root agents s")
  case (Pair r s')
  assume "os_wf s"
  with Pair show ?thesis
    by (elim save_cases) (use Pair write_wf rename_wf in \<open>metis snd_conv\<close>)+
qed

lemma save_frame:
  assumes "save_registry root agents s = (r, s')" and "root \<noteq> []"
    and "q \<noteq> resolve root @ [''registry.json'']" and "q \<noteq> resolve root @ [''registry.json.tmp'']"
  shows "os_look s' q = os_look s q"
proof -
  have q: "q \<noteq> resolve (registry_file_path root)" "q \<noteq> resolve (registry_file_path root @ ''.tmp'')"
    using assms resolve_registry [OF assms(2)] by auto
  note w = write_other [OF q(2)] and n = rename_other [OF q(2,1)]
  from assms(1) show ?thesis
    by (rule save_cases) (use w n in \<open>metis snd_conv\<close>)+
qed

lemma save_content:
  assumes "save_registry root agents s = (r, s')" and "root \<noteq> []"
  shows "(case r of
      Inl _ \<Rightarrow> os_content s' (resolve root @ [''registry.json'']) = os_content s (resolve root @ [''registry.json''])
    | Inr _ \<Rightarrow> \<exists>d. registry_json (map entry_of agents) = Some d \<and>
        os_content s' (resolve root @ [''registry.json'']) = Some (json_marshal_indent d))"
proof -
  let ?f = "registry_file_path root" and ?t = "registry_file_path root @ ''.tmp''"
  have ne: "resolve ?t \<noteq> resolve ?f" and f: "resolve ?f = resolve root @ [''registry.json'']"
    using resolve_registry [OF assms(2)] by simp_all
  from assms(1) show ?thesis
  proof (cases rule: save_cases)
    case (tmp d e)
    then show ?thesis using os_store.replace_write_keeps [OF ne, of "json_marshal_indent d" "oct 6 4 0" s] by (simp add: f)
  next
    case (rename d u e s1)
    then show ?thesis using os_store.replace_failed [OF rename(3,4) ne] by (simp add: f)
  next
    case (saved d u v s1)
    then show ?thesis using os_store.replace_done [OF saved(3,4) ne] by (simp add: f)
  qed simp
qed

section \<open>Properties\<close>

text \<open>
  The daemon, or its machine, comes back: the files are as the operating system has them, and calls work.
  A process that dies takes nothing with it that it has written; what a loss of power takes is said below.
\<close>

definition restart :: "os \<Rightarrow> os" where
  "restart s = s\<lparr>os_faults := (\<lambda>_. Works), os_calls := 0\<rparr>"

text \<open>
  The files at every moment of \<open>saveRegistry\<close>: before it, while the temporary file is written (after any
  number of its bytes), and after the renaming.
\<close>

definition save_trace :: "string \<Rightarrow> runtime_agent list \<Rightarrow> os \<Rightarrow> os list" where
  "save_trace root agents s =
     (case registry_json (map entry_of agents) of
        None \<Rightarrow> [s]
      | Some d \<Rightarrow>
          (let data = json_marshal_indent d in
           [s] @ map (\<lambda>n. snd (os_write_file (registry_file_path root @ ''.tmp'') (take n data) (oct 6 4 0) s))
                   [0..<Suc (length data)]
             @ [snd (save_registry root agents s)]))"

text \<open>
  A loss of power. Nothing is ever synced, so the system may have renamed the file on the medium before its
  data has arrived there: only some of its bytes are found.
\<close>

definition lose_data :: "path \<Rightarrow> nat \<Rightarrow> os \<Rightarrow> os" where
  "lose_data p n s =
     (case os_look s p of Some (FileNode m c) \<Rightarrow> put_node p (FileNode m (take n c)) s | _ \<Rightarrow> s)"

lemma restart_look [simp]: "os_look (restart s) = os_look s"
  by (simp add: restart_def os_look_def fun_eq_iff)

lemma restart_quiet [simp]: "quiet (restart s)"
  by (simp add: restart_def quiet_def)

lemma walk_error_on: "(\<And>p. p \<in> set ps \<Longrightarrow> os_look s p = os_look t p) \<Longrightarrow> walk_error s ps = walk_error t ps"
  by (induction ps) (auto split: option.splits node.splits)

lemma load_same:
  assumes "quiet s" and "quiet t" and "os_look s (resolve (registry_file_path root)) = os_look t (resolve (registry_file_path root))"
    and "\<And>p. prefix p (butlast (resolve (registry_file_path root))) \<Longrightarrow> os_look s p = os_look t p"
  shows "fst (load_registry root s) = fst (load_registry root t)"
proof -
  let ?f = "registry_file_path root"
  have "walk_error (snd (tick s)) (prefixes (butlast (resolve ?f))) = walk_error (snd (tick t)) (prefixes (butlast (resolve ?f)))"
    using assms(4) by (intro walk_error_on) simp
  then have "fst (os_read_file ?f s) = fst (os_read_file ?f t)"
    using assms(1-3)
    by (simp add: os_read_file_def Let_def case_prod_unfold quiet_def tick_def parent_error_def
        split: option.split node.split)
  then show ?thesis
    by (cases "os_read_file ?f s"; cases "os_read_file ?f t")
      (auto simp: load_registry_def Let_def split: sum.split option.split)
qed

lemma read_of_content:
  "quiet s \<Longrightarrow> os_content s (resolve n) = Some c \<Longrightarrow> fst (os_read_file n s) = Inr c"
  by (auto simp: os_content_def os_read_file_def Let_def case_prod_unfold quiet_def tick_def
      split: option.splits node.splits)

lemma load_of_content:
  assumes "quiet s" and "os_content s (resolve (registry_file_path root)) = Some (json_marshal_indent d)"
    and "registry_json es = Some d" and "list_all entry_ok es"
  shows "fst (load_registry root s) = Inr es"
  using read_of_content [OF assms(1,2)] registry_decoded [OF assms(3,4)]
  by (cases "os_read_file (registry_file_path root) s") (simp add: load_registry_def)

text \<open>An empty file is not a registry.\<close>

lemma lost_registry:
  assumes "save_registry root agents s = (Inr u, s')" and "root \<noteq> []"
  shows "fst (load_registry root (restart (lose_data (resolve (registry_file_path root)) 0 s')))
      = Inl (ParsingRegistry (registry_file_path root))"
proof -
  let ?f = "registry_file_path root"
  have f: "resolve ?f = resolve root @ [''registry.json'']" using resolve_registry [OF assms(2)] by simp
  from save_content [OF assms] obtain d where "os_content s' (resolve ?f) = Some (json_marshal_indent d)"
    by (auto simp: f)
  then obtain m c where "os_look s' (resolve ?f) = Some (FileNode m c)"
    by (auto simp: os_content_def split: option.splits node.splits)
  then have "os_content (restart (lose_data (resolve ?f) 0 s')) (resolve ?f) = Some []"
    by (simp add: lose_data_def os_content_def f os_look_put)
  then have r: "fst (os_read_file ?f (restart (lose_data (resolve ?f) 0 s'))) = Inr []"
    by (rule read_of_content [OF restart_quiet])
  have "json_unmarshal [] = None" by code_simp
  with r show ?thesis
    by (cases "os_read_file ?f (restart (lose_data (resolve ?f) 0 s'))") (simp add: load_registry_def decoded_None)
qed

lemma saved_loads:
  assumes "save_registry root agents s = (Inr u, s')" and "root \<noteq> []"
    and "list_all (\<lambda>a. entry_ok (entry_of a)) agents"
  shows "fst (load_registry root (restart s')) = Inr (map entry_of agents)"
proof -
  from save_content [OF assms(1,2)] obtain d where d: "registry_json (map entry_of agents) = Some d"
    "os_content s' (resolve root @ [''registry.json'']) = Some (json_marshal_indent d)" by auto
  have "os_content (restart s') (resolve (registry_file_path root)) = Some (json_marshal_indent d)"
    using d(2) resolve_registry(1) [OF assms(2)] by (simp add: os_content_def)
  moreover have "list_all entry_ok (map entry_of agents)" using assms(3) by (simp add: list_all_iff)
  ultimately show ?thesis using load_of_content [OF restart_quiet _ d(1)] by blast
qed

text \<open>
  C11. A saved registry is read back exactly: after a successful save and a restart, loading gives
  the entries of all the agents that were saved, field by field, provided their strings are valid
  UTF-8 and their times are real times (which is what requests and the clock produce).
\<close>

theorem registry_roundtrip:
  assumes "save_registry root agents s = (Inr u, s')" and "root \<noteq> []"
    and "list_all (\<lambda>a. entry_ok (entry_of a)) agents"
  shows "fst (load_registry root (restart s')) = Inr (map entry_of agents)"
  using assms by (rule saved_loads)

definition sample_disk :: os where
  "sample_disk = \<lparr>os_files = [([''v''], DirNode 0)], os_faults = (\<lambda>n. if n < 2 then Works else Fails ''disk full''),
     os_calls = 0, os_cmds = []\<rparr>"

definition sample_runtime :: runtime_agent where
  "sample_runtime = \<lparr>ar_id = ''a1'', ar_profile = ''developer'', ar_workspace_path = ''/v/a1/workspace'',
     ar_allowed_binaries = [''/bin/ls''], ar_allowed_networks = [], ar_registered_at = sample_time,
     ar_last_started_at = None, ra_exec_path = [], ra_state = StateRunning, ra_started_at = Some sample_time,
     ra_stopped_at = None, ra_exit_code = None, ra_kill_reason = []\<rparr>"

lemma sample_runtime_ok: "list_all (\<lambda>a. entry_ok (entry_of a)) [sample_runtime]"
  by (simp add: sample_runtime_def entry_of_def entry_ok_def utf8_ok_ascii ascii_lits
      sample_time_def zero_time_def time_wf_def days_in_def)

lemma registry_roundtrip_witness:
  "fst (load_registry ''/v'' (restart (snd (save_registry ''/v'' [sample_runtime] sample_disk))))
     = Inr [entry_of sample_runtime]"
proof -
  have "is_ok (fst (save_registry ''/v'' [sample_runtime] sample_disk))" by code_simp
  then obtain u where u: "fst (save_registry ''/v'' [sample_runtime] sample_disk) = Inr u" by (auto simp: is_ok_iff)
  then have "save_registry ''/v'' [sample_runtime] sample_disk
      = (Inr u, snd (save_registry ''/v'' [sample_runtime] sample_disk))"
    by (metis prod.collapse)
  from registry_roundtrip [OF this _ sample_runtime_ok] show ?thesis by simp
qed

text \<open>Whatever leaves the file and the directories above it alone leaves the registry that is found.\<close>

lemma load_untouched:
  assumes "root \<noteq> []"
    and "\<And>q. q \<noteq> resolve root @ [''registry.json.tmp''] \<Longrightarrow> q = resolve root @ [''registry.json''] \<or> prefix q (resolve root)
      \<Longrightarrow> os_look t q = os_look s q"
  shows "fst (load_registry root (restart t)) = fst (load_registry root (restart s))"
proof (rule load_same)
  note f = resolve_registry [OF assms(1)]
  show "os_look (restart t) (resolve (registry_file_path root)) = os_look (restart s) (resolve (registry_file_path root))"
    using assms(2) by (simp add: f)
  fix p
  assume "prefix p (butlast (resolve (registry_file_path root)))"
  then have p: "prefix p (resolve root)" by (simp add: f)
  then have "p \<noteq> resolve root @ [''registry.json.tmp'']" using prefix_length_le [OF p] by auto
  then show "os_look (restart t) p = os_look (restart s) p" using assms(2) p by simp
qed simp_all

lemma failed_save_loads:
  assumes sv: "save_registry root agents s = (Inl e, s')" and "root \<noteq> []"
  shows "fst (load_registry root (restart s')) = fst (load_registry root (restart s))"
proof (rule load_untouched [OF assms(2)])
  note f = resolve_registry [OF assms(2)]
  fix q
  assume q: "q \<noteq> resolve root @ [''registry.json.tmp'']" "q = resolve root @ [''registry.json''] \<or> prefix q (resolve root)"
  from sv show "os_look s' q = os_look s q"
  proof (cases rule: save_cases)
    case (rename d u x s1)
    then have "os_look s' = os_look s1" by (elim rename_result) auto
    then show ?thesis using write_other [of q "registry_file_path root @ ''.tmp''" "json_marshal_indent d" "oct 6 4 0" s] rename(3) q by (simp add: f)
  next
    case (tmp d x)
    then show ?thesis using write_other [of q "registry_file_path root @ ''.tmp''" "json_marshal_indent d" "oct 6 4 0" s] q by (simp add: f)
  qed simp_all
qed

text \<open>
  C9. Saving is atomic for the daemon: wherever its process dies, before, between or inside the system
  calls, and whichever of them fails or writes only a part, the registry found by the next start is either
  the one from before or the complete new one. A save that reports an error leaves the old one. (After a
  loss of power neither need be found, since nothing is synced.)
\<close>

theorem save_crash_safe:
  assumes "root \<noteq> []" and "list_all (\<lambda>a. entry_ok (entry_of a)) agents" and "t \<in> set (save_trace root agents s)"
  shows "(fst (load_registry root (restart t)) = fst (load_registry root (restart s))
      \<or> fst (load_registry root (restart t)) = Inr (map entry_of agents))
    \<and> (\<forall>e. save_registry root agents s = (Inl e, t) \<longrightarrow>
        fst (load_registry root (restart t)) = fst (load_registry root (restart s)))"
    (is "(?old t \<or> ?new t) \<and> _")
proof -
  obtain r s' where sv: "save_registry root agents s = (r, s')" by fastforce
  have end_state: "?old s' \<or> ?new s'"
  proof (cases r)
    case (Inl e)
    then show ?thesis using failed_save_loads sv assms(1) by blast
  next
    case (Inr u)
    then show ?thesis using saved_loads [OF _ assms(1,2)] sv by blast
  qed
  have "?old (snd (os_write_file (registry_file_path root @ ''.tmp'') data m s))" for data m
    by (rule load_untouched [OF assms(1)]) (simp add: write_other resolve_registry [OF assms(1)])
  with end_state have "?old t \<or> ?new t" using assms(3) sv
    by (auto simp: save_trace_def Let_def simp del: upt_Suc split: option.splits)
  moreover have "?old t" if "save_registry root agents s = (Inl e, t)" for e
    using that assms(1) by (rule failed_save_loads)
  ultimately show ?thesis by blast
qed

lemma save_crash_safe_witness:
  "fst (load_registry ''/v'' (restart (snd (save_registry ''/v'' [sample_runtime] (sample_disk\<lparr>os_calls := 1\<rparr>)))))
     \<in> {fst (load_registry ''/v'' (restart (sample_disk\<lparr>os_calls := 1\<rparr>))), Inr [entry_of sample_runtime]}"
proof -
  let ?s = "sample_disk\<lparr>os_calls := 1\<rparr>"
  have "snd (save_registry ''/v'' [sample_runtime] ?s) \<in> set (save_trace ''/v'' [sample_runtime] ?s)"
    by (cases "registry_json (map entry_of [sample_runtime])") (simp_all add: save_trace_def save_registry_def Let_def)
  from save_crash_safe [OF _ sample_runtime_ok this] show ?thesis by simp
qed

end
