(* ===== verification/Lifecycle.thy ===== *)
theory Lifecycle
  imports Sandbox Registry
begin

text \<open>
  \<open>daemon/internal/agent/lifecycle.go\<close>: the manager that registers, starts, stops, kills and
  unregisters agents. The agents are pointers in the program, so the world has a heap of them; the
  policy engine holds records of its own, copied when an agent is registered. \<open>Start\<close>, \<open>Stop\<close> and
  \<open>Kill\<close> hold the manager's lock only around parts of their work: each such part is a definition
  (\<open>start_enter\<close>, \<open>start_commit\<close>, ...), and the operation is their composition. Warnings written with
  \<open>slog\<close> are not modelled.
\<close>

section \<open>The world\<close>

record ('s, 'q) world =
  w_os :: os
  w_sys :: 's
  w_log :: logger
  w_eng :: "'q engine"
  w_agents :: "(string \<times> nat) list"
  w_heap :: "nat \<Rightarrow> runtime_agent option"
  w_next :: nat
  w_clock :: nat
  w_iters :: nat
  w_resets :: "string list"

text \<open>
  What the manager is given: the configuration (\<open>ManagerConfig\<close>), the bus, the policy library, the
  audit sinks, the clock (its \<open>n\<close>-th reading) and the order in which the \<open>n\<close>-th iteration visits the
  keys of the agents map.
\<close>

record ('s, 'e, 'q, 'r) env =
  env_workspace_root :: string
  env_max_agents :: int
  env_conn :: "('s, 'e) dbus_conn"
  env_lib :: "('q, 'r) rego_lib"
  env_sinks :: sinks
  env_now :: "nat \<Rightarrow> gotime"
  env_order :: "nat \<Rightarrow> string list \<Rightarrow> string list"

datatype 'e manager_error =
    InvalidID id_error
  | AlreadyRegistered string
  | MaxAgentsReached int
  | ProvisioningWorkspace string provision_error
  | NotRegistered string
  | MustStopFirst string agent_state
  | AlreadyIs string agent_state
  | NotFound string
  | StartingSandbox "'e sandbox_error"
  | StoppingAgent string "'e sandbox_error"
  | KillingAgent string "'e sandbox_error"
  | LoadingPersisted registry_error

definition new_manager :: "os \<Rightarrow> 's \<Rightarrow> logger \<Rightarrow> 'q engine \<Rightarrow> nat \<Rightarrow> ('s, 'q) world" where
  "new_manager fs sys lg eng clock =
     \<lparr>w_os = fs, w_sys = sys, w_log = lg, w_eng = eng, w_agents = [], w_heap = (\<lambda>_. None), w_next = 0,
      w_clock = clock, w_iters = 0, w_resets = []\<rparr>"

section \<open>Shared steps\<close>

definition read_clock :: "('s, 'e, 'q, 'r) env \<Rightarrow> ('s, 'q) world \<Rightarrow> gotime \<times> ('s, 'q) world" where
  "read_clock env w = (env_now env (w_clock w), w\<lparr>w_clock := Suc (w_clock w)\<rparr>)"

definition audit_lifecycle ::
    "('s, 'e, 'q, 'r) env \<Rightarrow> string \<Rightarrow> event_type \<Rightarrow> string \<Rightarrow> ('s, 'q) world \<Rightarrow> ('s, 'q) world" where
  "audit_lifecycle env i ty msg w =
     (let (now, w1) = read_clock env w
      in w1\<lparr>w_log := log_agent_lifecycle (env_sinks env) now i ty msg (w_log w1)\<rparr>)"

text \<open>Through the map to the agent itself.\<close>

definition agent_at :: "('s, 'q) world \<Rightarrow> string \<Rightarrow> runtime_agent option" where
  "agent_at w i = Option.bind (map_of (w_agents w) i) (w_heap w)"

text \<open>An iteration over the map visits every agent once, in some order.\<close>

definition iterate :: "('s, 'e, 'q, 'r) env \<Rightarrow> ('s, 'q) world \<Rightarrow> runtime_agent list \<times> ('s, 'q) world" where
  "iterate env w =
     (List.map_filter (agent_at w) (env_order env (w_iters w) (map fst (w_agents w))),
      w\<lparr>w_iters := Suc (w_iters w)\<rparr>)"

definition persist :: "('s, 'e, 'q, 'r) env \<Rightarrow> ('s, 'q) world \<Rightarrow> (registry_error + unit) \<times> ('s, 'q) world" where
  "persist env w =
     (let (ras, w1) = iterate env w; (r, s) = save_registry (env_workspace_root env) ras (w_os w1)
      in (r, w1\<lparr>w_os := s\<rparr>))"

definition modify_agent :: "nat \<Rightarrow> (runtime_agent \<Rightarrow> runtime_agent) \<Rightarrow> ('s, 'q) world \<Rightarrow> ('s, 'q) world" where
  "modify_agent a f w = w\<lparr>w_heap := (w_heap w)(a := map_option f (w_heap w a))\<rparr>"

definition set_state :: "nat \<Rightarrow> agent_state \<Rightarrow> ('s, 'q) world \<Rightarrow> ('s, 'q) world" where
  "set_state a st w = modify_agent a (\<lambda>ra. ra\<lparr>ra_state := st\<rparr>) w"

definition new_runtime :: "agent_record \<Rightarrow> string \<Rightarrow> runtime_agent" where
  "new_runtime r execPath = agent_record.extend r
     \<lparr>ra_exec_path = execPath, ra_state = StateRegistered, ra_started_at = None, ra_stopped_at = None,
      ra_exit_code = None, ra_kill_reason = []\<rparr>"

text \<open>A new pointer goes into the map, and a copy of the record to the engine.\<close>

definition install :: "agent_record \<Rightarrow> string \<Rightarrow> ('s, 'q) world \<Rightarrow> ('s, 'q) world" where
  "install r execPath w =
     w\<lparr>w_heap := (w_heap w)(w_next w := Some (new_runtime r execPath)), w_next := Suc (w_next w),
       w_agents := AList.update (ar_id r) (w_next w) (w_agents w),
       w_eng := register_agent r (w_eng w)\<rparr>"

section \<open>Registration\<close>

definition register_record :: "string \<Rightarrow> string \<Rightarrow> string \<Rightarrow> gotime \<Rightarrow> agent_record" where
  "register_record i profile workspacePath now =
     \<lparr>ar_id = i, ar_profile = profile, ar_workspace_path = workspacePath, ar_allowed_binaries = [],
      ar_allowed_networks = [], ar_registered_at = now, ar_last_started_at = None\<rparr>"

definition register_new ::
    "('s, 'e, 'q, 'r) env \<Rightarrow> string \<Rightarrow> string \<Rightarrow> string \<Rightarrow> string \<Rightarrow> ('s, 'q) world \<Rightarrow> nat \<times> ('s, 'q) world" where
  "register_new env i profile execStart path w =
     (let (now, w1) = read_clock env w;
          w2 = install (register_record i profile path now) execStart w1;
          w3 = snd (persist env w2);
          w4 = audit_lifecycle env i AgentRegistered
                 (''agent '' @ i @ '' registered with profile '' @ profile) w3
      in (w_next w1, w4))"

definition register ::
    "('s, 'e, 'q, 'r) env \<Rightarrow> string \<Rightarrow> string \<Rightarrow> string \<Rightarrow> ('s, 'q) world
      \<Rightarrow> ('e manager_error + nat) \<times> ('s, 'q) world" where
  "register env i profile execStart w =
     (case validate_id i of
        Inl e \<Rightarrow> (Inl (InvalidID e), w)
      | Inr _ \<Rightarrow>
          if map_of (w_agents w) i \<noteq> None then (Inl (AlreadyRegistered i), w)
          else if 0 < env_max_agents env \<and> env_max_agents env \<le> int (length (w_agents w))
          then (Inl (MaxAgentsReached (env_max_agents env)), w)
          else (case provision_workspace (env_workspace_root env) i (w_os w) of
                  (Inl e, s) \<Rightarrow> (Inl (ProvisioningWorkspace i e), w\<lparr>w_os := s\<rparr>)
                | (Inr path, s) \<Rightarrow>
                    (let (a, w') = register_new env i profile execStart path (w\<lparr>w_os := s\<rparr>)
                     in (Inr a, w'))))"

definition bool_str :: "bool \<Rightarrow> string" where
  "bool_str b = (if b then ''true'' else ''false'')"

definition unregister_known ::
    "('s, 'e, 'q, 'r) env \<Rightarrow> string \<Rightarrow> bool \<Rightarrow> string \<Rightarrow> ('s, 'q) world \<Rightarrow> ('s, 'q) world" where
  "unregister_known env i purge workspacePath w =
     (let w1 = w\<lparr>w_agents := AList.delete i (w_agents w), w_eng := unregister_agent i (w_eng w)\<rparr>;
          w2 = snd (persist env w1);
          w3 = (if purge then w2\<lparr>w_os := snd (os_remove_all (path_dir workspacePath) (w_os w2))\<rparr> else w2)
      in audit_lifecycle env i AgentUnregistered
           (''agent '' @ i @ '' unregistered (purge='' @ bool_str purge @ '')'') w3)"

definition unregister ::
    "('s, 'e, 'q, 'r) env \<Rightarrow> string \<Rightarrow> bool \<Rightarrow> ('s, 'q) world \<Rightarrow> ('e manager_error + unit) \<times> ('s, 'q) world" where
  "unregister env i purge w =
     (case agent_at w i of
        None \<Rightarrow> (Inl (NotRegistered i), w)
      | Some ra \<Rightarrow>
          if ra_state ra = StateRunning \<or> ra_state ra = StateStarting \<or> ra_state ra = StateStopping
          then (Inl (MustStopFirst i (ra_state ra)), w)
          else (Inr (), unregister_known env i purge (ar_workspace_path ra) w))"

text \<open>\<open>LoadPersistedAgents\<close>: entries whose identifier is known already are skipped.\<close>

definition restore_entry :: "registry_entry \<Rightarrow> ('s, 'q) world \<Rightarrow> ('s, 'q) world" where
  "restore_entry e w =
     (if map_of (w_agents w) (re_id e) \<noteq> None then w
      else install (to_agent_record e) (re_exec_path e) w)"

definition load_persisted_agents ::
    "('s, 'e, 'q, 'r) env \<Rightarrow> ('s, 'q) world \<Rightarrow> ('e manager_error + unit) \<times> ('s, 'q) world" where
  "load_persisted_agents env w =
     (let (r, s) = load_registry (env_workspace_root env) (w_os w); w1 = w\<lparr>w_os := s\<rparr> in
      case r of
        Inl e \<Rightarrow> (Inl (LoadingPersisted e), w1)
      | Inr entries \<Rightarrow> (Inr (), fold restore_entry entries w1))"

section \<open>Starting\<close>

definition exec_start :: "runtime_agent \<Rightarrow> string" where
  "exec_start ra =
     (if ra_exec_path ra \<noteq> [] then ra_exec_path ra
      else if ar_allowed_binaries ra \<noteq> [] then hd (ar_allowed_binaries ra) else ''/bin/false'')"

definition start_config :: "string \<Rightarrow> string \<Rightarrow> string \<Rightarrow> string \<Rightarrow> sandbox_config" where
  "start_config i execStart workspacePath profile =
     (let c = default_sandbox_config i execStart workspacePath profile;
          c1 = (if profile = ''infrastructure'' \<or> profile = ''developer''
                then c\<lparr>sc_allow_network := True\<rparr> else c)
      in if profile = ''infrastructure''
         then c1\<lparr>sc_memory_max_mb := 2048, sc_cpu_quota_pct := 200, sc_tasks_max := 256\<rparr>
         else if profile = ''developer''
         then c1\<lparr>sc_memory_max_mb := 1024, sc_cpu_quota_pct := 150, sc_tasks_max := 128\<rparr>
         else c1\<lparr>sc_memory_max_mb := 256, sc_cpu_quota_pct := 50, sc_tasks_max := 32\<rparr>)"

definition start_enter ::
    "string \<Rightarrow> ('s, 'q) world \<Rightarrow> ('e manager_error + nat \<times> sandbox_config) \<times> ('s, 'q) world" where
  "start_enter i w =
     (case map_of (w_agents w) i of
        None \<Rightarrow> (Inl (NotRegistered i), w)
      | Some a \<Rightarrow>
          (case w_heap w a of
             None \<Rightarrow> (Inl (NotRegistered i), w)
           | Some ra \<Rightarrow>
               if ra_state ra = StateRunning \<or> ra_state ra = StateStarting
               then (Inl (AlreadyIs i (ra_state ra)), w)
               else (Inr (a, start_config i (exec_start ra) (ar_workspace_path ra) (ar_profile ra)),
                     set_state a StateStarting w)))"

definition start_commit :: "('s, 'e, 'q, 'r) env \<Rightarrow> nat \<Rightarrow> ('s, 'q) world \<Rightarrow> ('s, 'q) world" where
  "start_commit env a w =
     (let (now, w1) = read_clock env w
      in modify_agent a
           (\<lambda>ra. ra\<lparr>ra_state := StateRunning, ra_started_at := Some now, ar_last_started_at := Some now\<rparr>) w1)"

definition start_audit :: "('s, 'e, 'q, 'r) env \<Rightarrow> string \<Rightarrow> string \<Rightarrow> ('s, 'q) world \<Rightarrow> ('s, 'q) world" where
  "start_audit env i profile w =
     audit_lifecycle env i AgentStarted (''agent '' @ i @ '' started with profile '' @ profile) w"

definition start ::
    "('s, 'e, 'q, 'r) env \<Rightarrow> string \<Rightarrow> ('s, 'q) world \<Rightarrow> ('e manager_error + unit) call \<times> ('s, 'q) world" where
  "start env i w =
     (case start_enter i w of
        (Inl e, w1) \<Rightarrow> (Returned (Inl e), w1)
      | (Inr (a, cfg), w1) \<Rightarrow>
          (let (r, sys) = start_agent (env_conn env) cfg (w_sys w1); w2 = w1\<lparr>w_sys := sys\<rparr> in
           case r of
             Blocked \<Rightarrow> (Blocked, w2)
           | Returned (Inl e) \<Rightarrow> (Returned (Inl (StartingSandbox e)), set_state a StateFailed w2)
           | Returned (Inr _) \<Rightarrow>
               (Returned (Inr ()), start_audit env i (sc_profile cfg) (start_commit env a w2))))"

section \<open>Stopping and killing\<close>

definition stop_enter :: "string \<Rightarrow> ('s, 'q) world \<Rightarrow> ('e manager_error + nat) \<times> ('s, 'q) world" where
  "stop_enter i w =
     (case map_of (w_agents w) i of
        None \<Rightarrow> (Inl (NotFound i), w)
      | Some a \<Rightarrow> (Inr a, set_state a StateStopping w))"

definition stop_commit :: "('s, 'e, 'q, 'r) env \<Rightarrow> nat \<Rightarrow> ('s, 'q) world \<Rightarrow> ('s, 'q) world" where
  "stop_commit env a w =
     (let (now, w1) = read_clock env w
      in modify_agent a (\<lambda>ra. ra\<lparr>ra_state := StateStopped, ra_stopped_at := Some now\<rparr>) w1)"

definition stop_audit :: "('s, 'e, 'q, 'r) env \<Rightarrow> string \<Rightarrow> ('s, 'q) world \<Rightarrow> ('s, 'q) world" where
  "stop_audit env i w = audit_lifecycle env i AgentStopped (''agent '' @ i @ '' stopped'') w"

definition stop ::
    "('s, 'e, 'q, 'r) env \<Rightarrow> string \<Rightarrow> ('s, 'q) world \<Rightarrow> ('e manager_error + unit) call \<times> ('s, 'q) world" where
  "stop env i w =
     (case stop_enter i w of
        (Inl e, w1) \<Rightarrow> (Returned (Inl e), w1)
      | (Inr a, w1) \<Rightarrow>
          (let (r, sys) = stop_agent (env_conn env) i (w_sys w1); w2 = w1\<lparr>w_sys := sys\<rparr> in
           case r of
             Blocked \<Rightarrow> (Blocked, w2)
           | Returned (Inl e) \<Rightarrow> (Returned (Inl (StoppingAgent i e)), w2)
           | Returned (Inr _) \<Rightarrow> (Returned (Inr ()), stop_audit env i (stop_commit env a w2))))"

definition kill_commit :: "('s, 'e, 'q, 'r) env \<Rightarrow> string \<Rightarrow> string \<Rightarrow> ('s, 'q) world \<Rightarrow> ('s, 'q) world" where
  "kill_commit env i reason w =
     (let (now, w1) = read_clock env w in
      case map_of (w_agents w1) i of
        None \<Rightarrow> w1
      | Some a \<Rightarrow>
          modify_agent a
            (\<lambda>ra. ra\<lparr>ra_state := StateKilled, ra_stopped_at := Some now, ra_kill_reason := reason\<rparr>) w1)"

definition kill_audit :: "('s, 'e, 'q, 'r) env \<Rightarrow> string \<Rightarrow> string \<Rightarrow> ('s, 'q) world \<Rightarrow> ('s, 'q) world" where
  "kill_audit env i reason w =
     audit_lifecycle env i AgentKilled (''agent '' @ i @ '' killed: '' @ reason) w"

definition kill ::
    "('s, 'e, 'q, 'r) env \<Rightarrow> string \<Rightarrow> string \<Rightarrow> ('s, 'q) world \<Rightarrow> ('e manager_error + unit) \<times> ('s, 'q) world" where
  "kill env i reason w =
     (case kill_agent (env_conn env) i (w_sys w) of
        (Inl e, _, sys) \<Rightarrow> (Inl (KillingAgent i e), w\<lparr>w_sys := sys\<rparr>)
      | (Inr _, resets, sys) \<Rightarrow>
          (Inr (), kill_audit env i reason
             (kill_commit env i reason (w\<lparr>w_sys := sys, w_resets := w_resets w @ resets\<rparr>))))"

text \<open>A goroutine left behind by a kill does its work.\<close>

definition run_reset :: "('s, 'e, 'q, 'r) env \<Rightarrow> ('s, 'q) world \<Rightarrow> ('s, 'q) world" where
  "run_reset env w =
     (case w_resets w of
        [] \<Rightarrow> w
      | u # us \<Rightarrow> w\<lparr>w_sys := late_reset (env_conn env) u (w_sys w), w_resets := us\<rparr>)"

section \<open>Queries\<close>

definition get_status :: "string \<Rightarrow> ('s, 'q) world \<Rightarrow> 'e manager_error + runtime_agent" where
  "get_status i w = (case agent_at w i of None \<Rightarrow> Inl (NotFound i) | Some ra \<Rightarrow> Inr ra)"

definition list_agents ::
    "('s, 'e, 'q, 'r) env \<Rightarrow> ('s, 'q) world \<Rightarrow> runtime_agent list \<times> ('s, 'q) world" where
  "list_agents env w = iterate env w"

end
