(* ===== verification/ManagerInv.thy ===== *)
theory ManagerInv
  imports Lifecycle
begin

text \<open>
  The invariant of the manager and its preservation by every operation: the map and the heap fit
  together (one pointer per agent, no two agents on one pointer), and the policy engine knows
  exactly the registered agents, by copies of their records that agree with them in everything
  but the time of the last start, which the engine never learns.
\<close>

declare map_of_eq_Some_iff [simp del]

section \<open>What the steps leave alone\<close>

lemma read_clock_frame [simp]:
  "w_os (snd (read_clock env w)) = w_os w" "w_sys (snd (read_clock env w)) = w_sys w"
  "w_log (snd (read_clock env w)) = w_log w" "w_eng (snd (read_clock env w)) = w_eng w"
  "w_agents (snd (read_clock env w)) = w_agents w" "w_heap (snd (read_clock env w)) = w_heap w"
  "w_next (snd (read_clock env w)) = w_next w" "w_resets (snd (read_clock env w)) = w_resets w"
  by (simp_all add: read_clock_def)

lemma audit_frame [simp]:
  "w_os (audit_lifecycle env i ty m w) = w_os w" "w_sys (audit_lifecycle env i ty m w) = w_sys w"
  "w_eng (audit_lifecycle env i ty m w) = w_eng w" "w_agents (audit_lifecycle env i ty m w) = w_agents w"
  "w_heap (audit_lifecycle env i ty m w) = w_heap w" "w_next (audit_lifecycle env i ty m w) = w_next w"
  "w_resets (audit_lifecycle env i ty m w) = w_resets w"
  by (simp_all add: audit_lifecycle_def case_prod_unfold Let_def)

lemma persist_frame [simp]:
  "w_sys (snd (persist env w)) = w_sys w" "w_log (snd (persist env w)) = w_log w"
  "w_eng (snd (persist env w)) = w_eng w" "w_agents (snd (persist env w)) = w_agents w"
  "w_heap (snd (persist env w)) = w_heap w" "w_next (snd (persist env w)) = w_next w"
  "w_resets (snd (persist env w)) = w_resets w"
  by (simp_all add: persist_def iterate_def case_prod_unfold Let_def)

lemma modify_frame [simp]:
  "w_os (modify_agent a f w) = w_os w" "w_sys (modify_agent a f w) = w_sys w"
  "w_log (modify_agent a f w) = w_log w" "w_eng (modify_agent a f w) = w_eng w"
  "w_agents (modify_agent a f w) = w_agents w" "w_next (modify_agent a f w) = w_next w"
  "w_resets (modify_agent a f w) = w_resets w"
  "w_heap (modify_agent a f w) = (w_heap w)(a := map_option f (w_heap w a))"
  by (simp_all add: modify_agent_def)

section \<open>The invariant\<close>

text \<open>An agent as the policy engine knows it.\<close>

definition policy_view :: "runtime_agent \<Rightarrow> agent_record" where
  "policy_view ra =
     \<lparr>ar_id = ar_id ra, ar_profile = ar_profile ra, ar_workspace_path = ar_workspace_path ra,
      ar_allowed_binaries = ar_allowed_binaries ra, ar_allowed_networks = ar_allowed_networks ra,
      ar_registered_at = ar_registered_at ra, ar_last_started_at = None\<rparr>"

definition heap_ok :: "(string \<times> nat) list \<Rightarrow> (nat \<Rightarrow> runtime_agent option) \<Rightarrow> nat \<Rightarrow> bool" where
  "heap_ok ags hp n \<longleftrightarrow> distinct (map fst ags) \<and>
     (\<forall>i a. map_of ags i = Some a \<longrightarrow> a < n \<and> (\<exists>ra. hp a = Some ra \<and> ar_id ra = i))"

definition mgr_inv :: "('s, 'q) world \<Rightarrow> bool" where
  "mgr_inv w \<longleftrightarrow> heap_ok (w_agents w) (w_heap w) (w_next w) \<and> engine_wf (w_eng w) \<and>
     (\<forall>i. get_agent i (w_eng w) = map_option policy_view (agent_at w i))"

text \<open>Two agents never share a pointer: the agent at a pointer knows its own identifier.\<close>

lemma heap_okD:
  assumes "heap_ok ags hp n" and "map_of ags i = Some a"
  obtains ra where "a < n" "hp a = Some ra" "ar_id ra = i"
  using assms unfolding heap_ok_def by blast

lemma heap_ok_inj: "heap_ok ags hp n \<Longrightarrow> map_of ags i = Some a \<Longrightarrow> map_of ags j = Some a \<Longrightarrow> i = j"
  unfolding heap_ok_def by (metis option.inject)

lemma heap_okI:
  "distinct (map fst ags) \<Longrightarrow> (\<And>i a. map_of ags i = Some a \<Longrightarrow> a < n \<and> (\<exists>ra. hp a = Some ra \<and> ar_id ra = i))
    \<Longrightarrow> heap_ok ags hp n"
  by (simp add: heap_ok_def)

lemma mgr_inv_heap: "mgr_inv w \<Longrightarrow> heap_ok (w_agents w) (w_heap w) (w_next w)"
  by (simp add: mgr_inv_def)

lemma mgr_inv_cong:
  "w_agents v = w_agents w \<Longrightarrow> w_heap v = w_heap w \<Longrightarrow> w_next v = w_next w \<Longrightarrow> w_eng v = w_eng w
    \<Longrightarrow> mgr_inv v = mgr_inv w"
  by (simp add: mgr_inv_def agent_at_def)

lemma agent_at_cong:
  "w_agents v = w_agents w \<Longrightarrow> w_heap v = w_heap w \<Longrightarrow> agent_at v = agent_at w"
  unfolding agent_at_def by simp

lemma agent_at_frame [simp]:
  "agent_at (snd (read_clock env w)) = agent_at w" "agent_at (audit_lifecycle env i ty m w) = agent_at w"
  "agent_at (snd (persist env w)) = agent_at w" "agent_at (w\<lparr>w_os := s\<rparr>) = agent_at w"
  "agent_at (w\<lparr>w_sys := sys\<rparr>) = agent_at w" "agent_at (w\<lparr>w_resets := us\<rparr>) = agent_at w"
  "agent_at (w\<lparr>w_eng := e\<rparr>) = agent_at w" "agent_at (w\<lparr>w_log := l\<rparr>) = agent_at w"
  by (rule agent_at_cong; simp)+

lemma mgr_inv_frame [simp]:
  "mgr_inv (snd (read_clock env w)) = mgr_inv w" "mgr_inv (audit_lifecycle env i ty m w) = mgr_inv w"
  "mgr_inv (snd (persist env w)) = mgr_inv w" "mgr_inv (w\<lparr>w_os := s\<rparr>) = mgr_inv w"
  "mgr_inv (w\<lparr>w_sys := sys\<rparr>) = mgr_inv w" "mgr_inv (w\<lparr>w_resets := us\<rparr>) = mgr_inv w"
  "mgr_inv (w\<lparr>w_log := l\<rparr>) = mgr_inv w"
  by (rule mgr_inv_cong; simp)+

lemma mgr_inv_agent:
  assumes "mgr_inv w" and "map_of (w_agents w) i = Some a"
  obtains ra where "w_heap w a = Some ra" "ar_id ra = i" "agent_at w i = Some ra" "a < w_next w"
  using heap_okD [OF mgr_inv_heap [OF assms(1)] assms(2)] assms(2) by (auto simp: agent_at_def)

lemma mgr_inv_known: "mgr_inv w \<Longrightarrow> agent_at w i = None \<longleftrightarrow> map_of (w_agents w) i = None"
  by (cases "map_of (w_agents w) i") (auto simp: agent_at_def elim: mgr_inv_agent)

lemma mgr_inv_id: "mgr_inv w \<Longrightarrow> agent_at w i = Some ra \<Longrightarrow> ar_id ra = i"
  by (cases "map_of (w_agents w) i") (auto simp: agent_at_def elim: mgr_inv_agent)

lemma new_manager_inv: "engine_wf e \<Longrightarrow> eng_agents e = [] \<Longrightarrow> mgr_inv (new_manager s sys l e c)"
  by (simp add: mgr_inv_def new_manager_def heap_ok_def agent_at_def get_agent_def)

section \<open>Elementary updates\<close>

lemma set_alist_update_new:
  "map_of al k = None \<Longrightarrow> set (AList.update k v al) = insert (k, v) (set al)"
  by (simp add: update_new)

lemma install_agent_at:
  assumes "heap_ok (w_agents w) (w_heap w) (w_next w)"
  shows "agent_at (install r x w) = (agent_at w)(ar_id r \<mapsto> new_runtime r x)"
proof
  fix i
  show "agent_at (install r x w) i = ((agent_at w)(ar_id r \<mapsto> new_runtime r x)) i"
  proof (cases "map_of (w_agents w) i")
    case None
    then show ?thesis by (simp add: agent_at_def install_def)
  next
    case (Some a)
    with assms have "a < w_next w" by (rule heap_okD)
    with Some show ?thesis by (simp add: agent_at_def install_def)
  qed
qed

lemma new_runtime_simps [simp]:
  "ar_id (new_runtime r x) = ar_id r" "ar_profile (new_runtime r x) = ar_profile r"
  "ar_workspace_path (new_runtime r x) = ar_workspace_path r"
  "ar_allowed_binaries (new_runtime r x) = ar_allowed_binaries r"
  "ar_allowed_networks (new_runtime r x) = ar_allowed_networks r"
  "ar_registered_at (new_runtime r x) = ar_registered_at r"
  "ar_last_started_at (new_runtime r x) = ar_last_started_at r"
  "ra_exec_path (new_runtime r x) = x" "ra_state (new_runtime r x) = StateRegistered"
  by (simp_all add: new_runtime_def agent_record.defs)

lemma policy_view_new: "ar_last_started_at r = None \<Longrightarrow> policy_view (new_runtime r x) = r"
  by (simp add: policy_view_def)

lemma install_frame [simp]:
  "w_os (install r x w) = w_os w" "w_sys (install r x w) = w_sys w" "w_log (install r x w) = w_log w"
  "w_next (install r x w) = Suc (w_next w)" "w_resets (install r x w) = w_resets w"
  "w_agents (install r x w) = AList.update (ar_id r) (w_next w) (w_agents w)"
  "w_eng (install r x w) = register_agent r (w_eng w)"
  by (simp_all add: install_def)

lemma install_inv:
  assumes inv: "mgr_inv w" and new: "map_of (w_agents w) (ar_id r) = None" and "ar_last_started_at r = None"
  shows "mgr_inv (install r x w)"
proof -
  have h: "heap_ok (w_agents w) (w_heap w) (w_next w)" using inv by (simp add: mgr_inv_def)
  have "heap_ok (w_agents (install r x w)) (w_heap (install r x w)) (w_next (install r x w))"
  proof (rule heap_okI)
    show "distinct (map fst (w_agents (install r x w)))"
      using h by (simp add: heap_ok_def distinct_update)
    fix i a
    assume a: "map_of (w_agents (install r x w)) i = Some a"
    show "a < w_next (install r x w) \<and> (\<exists>ra. w_heap (install r x w) a = Some ra \<and> ar_id ra = i)"
    proof (cases "i = ar_id r")
      case True
      with a show ?thesis by (simp add: install_def)
    next
      case False
      with a have "map_of (w_agents w) i = Some a" by (simp add: install_def)
      with h show ?thesis by (elim heap_okD) (auto simp: install_def)
    qed
  qed
  moreover have "engine_wf (w_eng (install r x w))"
    using inv by (simp add: mgr_inv_def register_agent_wf)
  moreover have "get_agent i (w_eng (install r x w)) = map_option policy_view (agent_at (install r x w) i)" for i
    using inv assms(3) by (simp add: install_agent_at [OF h] policy_view_new mgr_inv_def)
  ultimately show ?thesis by (simp add: mgr_inv_def)
qed

lemma modify_agent_at:
  "agent_at (modify_agent a f w) i =
     (if map_of (w_agents w) i = Some a then map_option f (w_heap w a) else agent_at w i)"
  by (cases "map_of (w_agents w) i") (auto simp: agent_at_def)

lemma modify_at_view:
  assumes "\<And>ra. policy_view (f ra) = policy_view ra"
  shows "map_option policy_view (agent_at (modify_agent a f w) i) = map_option policy_view (agent_at w i)"
  using assms
  by (cases "map_of (w_agents w) i"; cases "w_heap w a") (auto simp: modify_agent_at agent_at_def)

lemma modify_inv:
  assumes inv: "mgr_inv w" and "\<And>ra. ar_id (f ra) = ar_id ra" and view: "\<And>ra. policy_view (f ra) = policy_view ra"
  shows "mgr_inv (modify_agent a f w)"
proof -
  have "heap_ok (w_agents w) ((w_heap w)(a := map_option f (w_heap w a))) (w_next w)"
  proof (rule heap_okI)
    show "distinct (map fst (w_agents w))" using inv by (simp add: mgr_inv_def heap_ok_def)
    fix i b
    assume "map_of (w_agents w) i = Some b"
    with inv obtain ra where "w_heap w b = Some ra" "ar_id ra = i" "b < w_next w" by (rule mgr_inv_agent)
    then show "b < w_next w \<and> (\<exists>ra. ((w_heap w)(a := map_option f (w_heap w a))) b = Some ra \<and> ar_id ra = i)"
      using assms(2) by auto
  qed
  then show ?thesis using inv modify_at_view [of f a w, OF view] by (simp add: mgr_inv_def)
qed

lemma delete_inv:
  assumes inv: "mgr_inv w"
  shows "mgr_inv (w\<lparr>w_agents := AList.delete i (w_agents w), w_eng := unregister_agent i (w_eng w)\<rparr>)"
proof -
  have "heap_ok (AList.delete i (w_agents w)) (w_heap w) (w_next w)"
    using mgr_inv_heap [OF inv] by (auto simp: heap_ok_def distinct_delete)
  then show ?thesis using inv
    by (simp add: mgr_inv_def unregister_agent_wf agent_at_def)
qed

lemma delete_agent_at:
  "agent_at (w\<lparr>w_agents := AList.delete i (w_agents w), w_eng := e\<rparr>) = (agent_at w)(i := None)"
  by (auto simp: agent_at_def fun_eq_iff)

lemma modify_at:
  assumes "mgr_inv w" and "map_of (w_agents w) i = Some a"
  shows "agent_at (modify_agent a f w) = (agent_at w)(i := map_option f (agent_at w i))"
proof
  fix j
  show "agent_at (modify_agent a f w) j = ((agent_at w)(i := map_option f (agent_at w i))) j"
  proof (cases "j = i")
    case True
    with assms(2) show ?thesis by (simp add: modify_agent_at) (simp add: agent_at_def)
  next
    case False
    then have "map_of (w_agents w) j \<noteq> Some a"
      using heap_ok_inj [OF mgr_inv_heap [OF assms(1)] assms(2)] by blast
    with False show ?thesis by (simp add: modify_agent_at)
  qed
qed

lemma view_simps [simp]:
  "policy_view (ra\<lparr>ra_state := st\<rparr>) = policy_view ra" "policy_view (ra\<lparr>ra_started_at := t\<rparr>) = policy_view ra"
  "policy_view (ra\<lparr>ra_stopped_at := t\<rparr>) = policy_view ra" "policy_view (ra\<lparr>ra_kill_reason := k\<rparr>) = policy_view ra"
  "policy_view (ra\<lparr>ar_last_started_at := t\<rparr>) = policy_view ra"
  by (simp_all add: policy_view_def)

section \<open>Every operation keeps the invariant\<close>

lemma set_state_inv [simp]: "mgr_inv w \<Longrightarrow> mgr_inv (set_state a st w)"
  by (simp add: set_state_def modify_inv)

lemma start_commit_inv [simp]: "mgr_inv w \<Longrightarrow> mgr_inv (start_commit env a w)"
  unfolding start_commit_def Let_def case_prod_unfold by (rule modify_inv) simp_all

lemma stop_commit_inv [simp]: "mgr_inv w \<Longrightarrow> mgr_inv (stop_commit env a w)"
  unfolding stop_commit_def Let_def case_prod_unfold by (rule modify_inv) simp_all

lemma kill_commit_inv [simp]: "mgr_inv w \<Longrightarrow> mgr_inv (kill_commit env i reason w)"
  by (auto simp: kill_commit_def Let_def case_prod_unfold intro!: modify_inv split: option.split)

lemma start_enter_inv: "mgr_inv w \<Longrightarrow> mgr_inv (snd (start_enter i w))"
  by (simp add: start_enter_def split: option.split)

lemma stop_enter_inv: "mgr_inv w \<Longrightarrow> mgr_inv (snd (stop_enter i w))"
  by (simp add: stop_enter_def split: option.split)

text \<open>The outcomes of \<open>Start\<close> and \<open>Stop\<close>, step by step.\<close>

lemma start_cases:
  fixes env :: "('s, 'e, 'q, 'r) env"
  assumes "start env i w = (r, w')"
  obtains (refused) e where "start_enter i w = (Inl e, w')" "r = Returned (Inl e)"
  | (blocked) a cfg w1 sys where "start_enter i w = (Inr (a, cfg) :: 'e manager_error + _, w1)"
      "start_agent (env_conn env) cfg (w_sys w1) = (Blocked, sys)" "w' = w1\<lparr>w_sys := sys\<rparr>" "r = Blocked"
  | (failed) a cfg w1 sys e where "start_enter i w = (Inr (a, cfg) :: 'e manager_error + _, w1)"
      "start_agent (env_conn env) cfg (w_sys w1) = (Returned (Inl e), sys)"
      "w' = set_state a StateFailed (w1\<lparr>w_sys := sys\<rparr>)" "r = Returned (Inl (StartingSandbox e))"
  | (started) a cfg w1 sys u where "start_enter i w = (Inr (a, cfg) :: 'e manager_error + _, w1)"
      "start_agent (env_conn env) cfg (w_sys w1) = (Returned (Inr u), sys)"
      "w' = start_audit env i (sc_profile cfg) (start_commit env a (w1\<lparr>w_sys := sys\<rparr>))" "r = Returned (Inr ())"
proof (cases "start_enter i w :: ('e manager_error + nat \<times> sandbox_config) \<times> ('s, 'q) world")
  case (Pair x w1)
  show ?thesis
  proof (cases x)
    case (Inl e)
    with Pair assms refused show ?thesis by (simp add: start_def)
  next
    case (Inr ac)
    obtain a cfg where ac: "ac = (a, cfg)" by fastforce
    obtain y sys where y: "start_agent (env_conn env) cfg (w_sys w1) = (y, sys)" by fastforce
    have e: "start_enter i w = (Inr (a, cfg) :: 'e manager_error + _, w1)" using Pair Inr ac by simp
    show ?thesis
    proof (cases y)
      case Blocked
      with e y assms show ?thesis by (intro blocked [OF e, of sys]) (auto simp: start_def)
    next
      case (Returned z)
      show ?thesis
      proof (cases z)
        case (Inl err)
        with Returned e y assms show ?thesis by (intro failed [OF e, of err sys]) (auto simp: start_def)
      next
        case (Inr u)
        with Returned e y assms show ?thesis by (intro started [OF e, of u sys]) (auto simp: start_def)
      qed
    qed
  qed
qed

lemma stop_cases:
  fixes env :: "('s, 'e, 'q, 'r) env"
  assumes "stop env i w = (r, w')"
  obtains (unknown) "map_of (w_agents w) i = None" "w' = w" "r = Returned (Inl (NotFound i))"
  | (blocked) a sys where "map_of (w_agents w) i = Some a"
      "stop_agent (env_conn env) i (w_sys w) = (Blocked, sys)"
      "w' = (set_state a StateStopping w)\<lparr>w_sys := sys\<rparr>" "r = Blocked"
  | (failed) a sys e where "map_of (w_agents w) i = Some a"
      "stop_agent (env_conn env) i (w_sys w) = (Returned (Inl e), sys)"
      "w' = (set_state a StateStopping w)\<lparr>w_sys := sys\<rparr>" "r = Returned (Inl (StoppingAgent i e))"
  | (stopped) a sys u where "map_of (w_agents w) i = Some a"
      "stop_agent (env_conn env) i (w_sys w) = (Returned (Inr u), sys)"
      "w' = stop_audit env i (stop_commit env a ((set_state a StateStopping w)\<lparr>w_sys := sys\<rparr>))"
      "r = Returned (Inr ())"
proof (cases "map_of (w_agents w) i")
  case None
  with assms show ?thesis by (intro unknown) (auto simp: stop_def stop_enter_def)
next
  case (Some a)
  let ?w1 = "set_state a StateStopping w"
  obtain y sys where y: "stop_agent (env_conn env) i (w_sys w) = (y, sys)" by fastforce
  have "w_sys ?w1 = w_sys w" by (simp add: set_state_def)
  with Some y have run: "stop env i w =
      (case y of Blocked \<Rightarrow> (Blocked, ?w1\<lparr>w_sys := sys\<rparr>)
       | Returned (Inl e) \<Rightarrow> (Returned (Inl (StoppingAgent i e)), ?w1\<lparr>w_sys := sys\<rparr>)
       | Returned (Inr _) \<Rightarrow> (Returned (Inr ()), stop_audit env i (stop_commit env a (?w1\<lparr>w_sys := sys\<rparr>))))"
    by (simp add: stop_def stop_enter_def Let_def)
  show ?thesis
  proof (cases y)
    case Blocked
    with assms run y show ?thesis by (intro blocked [OF Some, of sys]) auto
  next
    case (Returned z)
    show ?thesis
    proof (cases z)
      case (Inl err)
      with Returned assms run y show ?thesis by (intro failed [OF Some, of err sys]) auto
    next
      case (Inr u)
      with Returned assms run y show ?thesis by (intro stopped [OF Some, of u sys]) auto
    qed
  qed
qed

lemma kill_cases:
  assumes "kill env i reason w = (r, w')"
  obtains (failed) e rs sys where "kill_agent (env_conn env) i (w_sys w) = (Inl e, rs, sys)"
      "w' = w\<lparr>w_sys := sys\<rparr>" "r = Inl (KillingAgent i e)"
  | (killed) u rs sys where "kill_agent (env_conn env) i (w_sys w) = (Inr u, rs, sys)"
      "w' = kill_audit env i reason (kill_commit env i reason (w\<lparr>w_sys := sys, w_resets := w_resets w @ rs\<rparr>))"
      "r = Inr ()"
  using assms by (auto simp: kill_def split: prod.splits sum.splits)

lemma start_inv:
  fixes env :: "('s, 'e, 'q, 'r) env"
  assumes "mgr_inv w"
  shows "mgr_inv (snd (start env i w))"
proof -
  have e: "mgr_inv w1" if "start_enter i w = (x :: 'e manager_error + _, w1)" for x w1
    using start_enter_inv [OF assms, of i] that by (metis snd_conv)
  obtain r w' where st: "start env i w = (r, w')" by fastforce
  then have "mgr_inv w'"
  proof (cases rule: start_cases)
    case (refused e)
    then show ?thesis using e by simp
  next
    case (blocked a cfg w1 sys)
    then show ?thesis using e by simp
  next
    case (failed a cfg w1 sys e)
    then show ?thesis using e [OF failed(1)] by simp
  next
    case (started a cfg w1 sys u)
    then show ?thesis using e [OF started(1)] by (simp add: start_audit_def)
  qed
  with st show ?thesis by simp
qed

lemma stop_inv:
  assumes "mgr_inv w"
  shows "mgr_inv (snd (stop env i w))"
proof -
  obtain r w' where st: "stop env i w = (r, w')" by fastforce
  then have "mgr_inv w'" using assms by (cases rule: stop_cases) (simp_all add: stop_audit_def)
  with st show ?thesis by simp
qed

lemma kill_inv:
  assumes "mgr_inv w"
  shows "mgr_inv (snd (kill env i reason w))"
proof -
  obtain r w' where k: "kill env i reason w = (r, w')" by fastforce
  have "mgr_inv (w\<lparr>w_sys := sys, w_resets := us\<rparr>)" for sys us
    using assms mgr_inv_cong [of "w\<lparr>w_sys := sys, w_resets := us\<rparr>" w] by simp
  with k have "mgr_inv w'" using assms by (cases rule: kill_cases) (simp_all add: kill_audit_def)
  with k show ?thesis by simp
qed

lemma register_new_inv:
  assumes "mgr_inv w" and "map_of (w_agents w) i = None"
  shows "mgr_inv (snd (register_new env i p x path w))"
  using assms
  by (simp add: register_new_def Let_def case_prod_unfold install_inv register_record_def)

lemma register_inv:
  assumes "mgr_inv w"
  shows "mgr_inv (snd (register env i p x w))"
  using assms register_new_inv [of "w\<lparr>w_os := s\<rparr>" i for s]
  by (auto simp: register_def Let_def case_prod_unfold split: sum.split prod.split)

lemma unregister_known_inv: "mgr_inv w \<Longrightarrow> mgr_inv (unregister_known env i purge path w)"
  using delete_inv [of w i] by (simp add: unregister_known_def Let_def)

lemma unregister_inv: "mgr_inv w \<Longrightarrow> mgr_inv (snd (unregister env i purge w))"
  by (simp add: unregister_def unregister_known_inv split: option.split)

lemma restore_inv: "mgr_inv w \<Longrightarrow> mgr_inv (restore_entry e w)"
  by (auto simp: restore_entry_def to_agent_record_def intro: install_inv)

lemma fold_restore_inv: "mgr_inv w \<Longrightarrow> mgr_inv (fold restore_entry es w)"
  by (induction es arbitrary: w) (auto simp: restore_inv)

lemma load_inv: "mgr_inv w \<Longrightarrow> mgr_inv (snd (load_persisted_agents env w))"
  by (simp add: load_persisted_agents_def Let_def case_prod_unfold fold_restore_inv split: sum.split)

lemma run_reset_inv: "mgr_inv w \<Longrightarrow> mgr_inv (run_reset env w)"
  using mgr_inv_cong [of "w\<lparr>w_sys := x, w_resets := y\<rparr>" w for x y]
  by (simp add: run_reset_def split: list.split)

section \<open>Runs of operations\<close>

datatype manager_op =
    OpRegister string string string
  | OpUnregister string bool
  | OpStart string
  | OpStop string
  | OpKill string string
  | OpLateReset
  | OpLoadPersisted

fun apply_op :: "('s, 'e, 'q, 'r) env \<Rightarrow> manager_op \<Rightarrow> ('s, 'q) world \<Rightarrow> ('s, 'q) world" where
  "apply_op env (OpRegister i p x) w = snd (register env i p x w)"
| "apply_op env (OpUnregister i purge) w = snd (unregister env i purge w)"
| "apply_op env (OpStart i) w = snd (start env i w)"
| "apply_op env (OpStop i) w = snd (stop env i w)"
| "apply_op env (OpKill i reason) w = snd (kill env i reason w)"
| "apply_op env OpLateReset w = run_reset env w"
| "apply_op env OpLoadPersisted w = snd (load_persisted_agents env w)"

lemma apply_op_inv: "mgr_inv w \<Longrightarrow> mgr_inv (apply_op env op w)"
  by (cases op) (simp_all add: register_inv unregister_inv start_inv stop_inv kill_inv run_reset_inv load_inv)

text \<open>
  A system of operations with an invariant, and one that moreover keeps a measure within a bound as
  long as only some of the operations are used.
\<close>

locale op_system =
  fixes step :: "'o \<Rightarrow> 'w \<Rightarrow> 'w" and inv :: "'w \<Rightarrow> bool"
  assumes step_inv: "inv w \<Longrightarrow> inv (step op w)"
begin

lemma run_inv: "inv w \<Longrightarrow> inv (fold step ops w)"
  by (induction ops arbitrary: w) (auto simp: step_inv)

lemma run_related:
  assumes "\<And>w op. inv w \<Longrightarrow> R w (step op w)" and "\<And>w. R w w" and "\<And>u v w. R u v \<Longrightarrow> R v w \<Longrightarrow> R u w"
    and "inv w"
  shows "R w (fold step ops w)"
  using assms(4) by (induction ops arbitrary: w) (use assms(1-3) step_inv in auto, blast)

end

locale bounded_op_system = op_system +
  fixes size_of :: "'w \<Rightarrow> nat" and bound :: nat and usual :: "'o \<Rightarrow> bool"
  assumes step_bound: "inv w \<Longrightarrow> usual op \<Longrightarrow> size_of w \<le> bound \<Longrightarrow> size_of (step op w) \<le> bound"
begin

lemma run_bound: "inv w \<Longrightarrow> list_all usual ops \<Longrightarrow> size_of w \<le> bound \<Longrightarrow> size_of (fold step ops w) \<le> bound"
  by (induction ops arbitrary: w) (auto simp: step_inv step_bound)

end

interpretation mgr: op_system "apply_op env" mgr_inv for env
  by unfold_locales (rule apply_op_inv)

subsection \<open>How many agents there are\<close>

lemma length_update_le: "length (AList.update k v al) \<le> Suc (length al)"
  by (induction al) auto

lemma set_state_agents [simp]: "w_agents (set_state a st w) = w_agents w"
  by (simp add: set_state_def)

lemma commit_agents [simp]:
  "w_agents (start_commit env a w) = w_agents w" "w_agents (stop_commit env a w) = w_agents w"
  "w_agents (kill_commit env i reason w) = w_agents w"
  by (simp_all add: start_commit_def stop_commit_def kill_commit_def Let_def case_prod_unfold split: option.split)

lemma enter_agents [simp]:
  "w_agents (snd (start_enter i w)) = w_agents w" "w_agents (snd (stop_enter i w)) = w_agents w"
  by (simp_all add: start_enter_def stop_enter_def split: option.split)

lemma start_agents [simp]:
  "w_agents (snd (start env i w)) = w_agents w" for env :: "('s, 'e, 'q, 'r) env"
proof -
  have e: "w_agents w1 = w_agents w" if "start_enter i w = (x :: 'e manager_error + _, w1)" for x w1
    using enter_agents(1) [of i w] that by (metis snd_conv)
  obtain r w' where st: "start env i w = (r, w')" by fastforce
  then have "w_agents w' = w_agents w" by (cases rule: start_cases) (auto simp: start_audit_def dest: e)
  with st show ?thesis by simp
qed

lemma stop_agents [simp]: "w_agents (snd (stop env i w)) = w_agents w"
proof -
  obtain r w' where st: "stop env i w = (r, w')" by fastforce
  then have "w_agents w' = w_agents w" by (cases rule: stop_cases) (auto simp: stop_audit_def)
  with st show ?thesis by simp
qed

lemma kill_agents [simp]: "w_agents (snd (kill env i reason w)) = w_agents w"
proof -
  obtain r w' where k: "kill env i reason w = (r, w')" by fastforce
  then have "w_agents w' = w_agents w" by (cases rule: kill_cases) (auto simp: kill_audit_def)
  with k show ?thesis by simp
qed

lemma register_new_agents [simp]:
  "w_agents (snd (register_new env i p x path w)) = AList.update i (w_next w) (w_agents w)"
  by (simp add: register_new_def Let_def case_prod_unfold register_record_def)

lemma unregister_known_agents [simp]:
  "w_agents (unregister_known env i purge path w) = AList.delete i (w_agents w)"
  by (simp add: unregister_known_def Let_def)

lemma run_reset_agents [simp]: "w_agents (run_reset env w) = w_agents w"
  by (simp add: run_reset_def split: list.split)

lemma register_agents:
  "w_agents (snd (register env i p x w)) = w_agents w \<or>
     \<not> (0 < env_max_agents env \<and> env_max_agents env \<le> int (length (w_agents w))) \<and>
     w_agents (snd (register env i p x w)) = AList.update i (w_next w) (w_agents w)"
  by (auto simp: register_def Let_def case_prod_unfold split: sum.split prod.split)

lemma unregister_agents:
  "w_agents (snd (unregister env i purge w)) = w_agents w \<or>
     w_agents (snd (unregister env i purge w)) = AList.delete i (w_agents w)"
  by (simp add: unregister_def split: option.split)

lemma apply_op_bound:
  assumes "0 < env_max_agents env" and "op \<noteq> OpLoadPersisted"
    and "length (w_agents w) \<le> nat (env_max_agents env)"
  shows "length (w_agents (apply_op env op w)) \<le> nat (env_max_agents env)"
proof (cases op)
  case (OpRegister i p x)
  then show ?thesis
    using assms(1,3) register_agents [of env i p x w] length_update_le [of i "w_next w" "w_agents w"] by auto
next
  case (OpUnregister i purge)
  then show ?thesis
    using assms(3) unregister_agents [of env i purge w] length_delete_le [of i "w_agents w"] by auto
qed (use assms in simp_all)

interpretation mgr_capacity: bounded_op_system "apply_op env" mgr_inv "\<lambda>w. length (w_agents w)"
    "if 0 < env_max_agents env then nat (env_max_agents env) else 0"
    "\<lambda>op. op \<noteq> OpLoadPersisted \<and> 0 < env_max_agents env" for env
  by unfold_locales (simp add: apply_op_bound)

end
