(* ===== verification/ManagerSpec.thy ===== *)
theory ManagerSpec
  imports ManagerInv
begin

text \<open>
  What each operation of the manager does to the agents, to the policy engine, to the disk and to
  the audit trail, on every branch, and the lifecycle of an agent as an abstract state machine that
  the operations refine.
\<close>

section \<open>Effects on the agents\<close>

lemma set_state_at:
  "mgr_inv w \<Longrightarrow> map_of (w_agents w) i = Some a \<Longrightarrow>
     agent_at (set_state a st w) = (agent_at w)(i := map_option (\<lambda>ra. ra\<lparr>ra_state := st\<rparr>) (agent_at w i))"
  unfolding set_state_def by (rule modify_at)

lemma start_enter_result:
  assumes "mgr_inv w"
  shows "(start_enter i w :: ('e manager_error + _) \<times> _) =
    (case agent_at w i of
       None \<Rightarrow> (Inl (NotRegistered i), w)
     | Some ra \<Rightarrow>
         if ra_state ra = StateRunning \<or> ra_state ra = StateStarting then (Inl (AlreadyIs i (ra_state ra)), w)
         else (Inr (the (map_of (w_agents w) i),
                 start_config i (exec_start ra) (ar_workspace_path ra) (ar_profile ra)),
               set_state (the (map_of (w_agents w) i)) StateStarting w))"
proof (cases "map_of (w_agents w) i")
  case None
  then show ?thesis by (simp add: start_enter_def agent_at_def)
next
  case (Some a)
  with assms obtain ra where "w_heap w a = Some ra" by (rule mgr_inv_agent)
  with Some show ?thesis by (simp add: start_enter_def agent_at_def)
qed

text \<open>The agent a started, stopped or killed agent has become.\<close>

definition running_agent :: "gotime \<Rightarrow> runtime_agent \<Rightarrow> runtime_agent" where
  "running_agent t ra = ra\<lparr>ra_state := StateRunning, ra_started_at := Some t, ar_last_started_at := Some t\<rparr>"

definition stopped_agent :: "gotime \<Rightarrow> runtime_agent \<Rightarrow> runtime_agent" where
  "stopped_agent t ra = ra\<lparr>ra_state := StateStopped, ra_stopped_at := Some t\<rparr>"

definition killed_agent :: "gotime \<Rightarrow> string \<Rightarrow> runtime_agent \<Rightarrow> runtime_agent" where
  "killed_agent t reason ra = ra\<lparr>ra_state := StateKilled, ra_stopped_at := Some t, ra_kill_reason := reason\<rparr>"

lemma start_commit_at:
  assumes "mgr_inv w" and "map_of (w_agents w) i = Some a"
  shows "agent_at (start_commit env a w)
    = (agent_at w)(i := map_option (running_agent (env_now env (w_clock w))) (agent_at w i))"
proof -
  have "mgr_inv (snd (read_clock env w))" "map_of (w_agents (snd (read_clock env w))) i = Some a" using assms by simp_all
  from modify_at [OF this] show ?thesis
    by (simp add: start_commit_def Let_def case_prod_unfold running_agent_def [abs_def]) (simp add: read_clock_def)
qed

lemma stop_commit_at:
  assumes "mgr_inv w" and "map_of (w_agents w) i = Some a"
  shows "agent_at (stop_commit env a w)
    = (agent_at w)(i := map_option (stopped_agent (env_now env (w_clock w))) (agent_at w i))"
proof -
  have "mgr_inv (snd (read_clock env w))" "map_of (w_agents (snd (read_clock env w))) i = Some a" using assms by simp_all
  from modify_at [OF this] show ?thesis
    by (simp add: stop_commit_def Let_def case_prod_unfold stopped_agent_def [abs_def]) (simp add: read_clock_def)
qed

lemma kill_commit_at:
  assumes "mgr_inv w"
  shows "agent_at (kill_commit env i reason w)
    = (agent_at w)(i := map_option (killed_agent (env_now env (w_clock w)) reason) (agent_at w i))"
proof (cases "map_of (w_agents w) i")
  case None
  then have "agent_at w i = None" by (simp add: agent_at_def)
  with None show ?thesis by (simp add: kill_commit_def Let_def case_prod_unfold fun_upd_idem)
next
  case (Some a)
  have "mgr_inv (snd (read_clock env w))" "map_of (w_agents (snd (read_clock env w))) i = Some a" using assms Some by simp_all
  from modify_at [OF this] Some show ?thesis
    by (simp add: kill_commit_def Let_def case_prod_unfold killed_agent_def [abs_def]) (simp add: read_clock_def)
qed

lemma start_entered:
  fixes env :: "('s, 'e, 'q, 'r) env"
  assumes inv: "mgr_inv w" and run: "start env i w = (r, w')" and at: "agent_at w i = Some ra"
    and idle: "ra_state ra \<noteq> StateRunning" "ra_state ra \<noteq> StateStarting"
  shows "case r of
      Blocked \<Rightarrow> agent_at w' = (agent_at w)(i \<mapsto> ra\<lparr>ra_state := StateStarting\<rparr>)
    | Returned (Inl _) \<Rightarrow> agent_at w' = (agent_at w)(i \<mapsto> ra\<lparr>ra_state := StateFailed\<rparr>)
    | Returned (Inr _) \<Rightarrow> agent_at w' = (agent_at w)(i \<mapsto> running_agent (env_now env (w_clock w)) ra)"
proof -
  obtain a where a: "map_of (w_agents w) i = Some a" using mgr_inv_known [OF inv, of i] at by auto
  let ?w1 = "set_state a StateStarting w"
  have e: "start_enter i w = (Inr (a, start_config i (exec_start ra) (ar_workspace_path ra) (ar_profile ra)) :: 'e manager_error + _, ?w1)"
    using start_enter_result [OF inv, of i, where 'e = 'e] at idle a by simp
  have at1: "agent_at ?w1 = (agent_at w)(i \<mapsto> ra\<lparr>ra_state := StateStarting\<rparr>)"
    using set_state_at [OF inv a] at by simp
  have i1: "mgr_inv (?w1\<lparr>w_sys := sys\<rparr>)" "map_of (w_agents (?w1\<lparr>w_sys := sys\<rparr>)) i = Some a" for sys
    using inv a by simp_all
  from run show ?thesis
  proof (cases rule: start_cases)
    case (refused x)
    with e show ?thesis by simp
  next
    case (blocked b cfg w1 sys)
    with e at1 show ?thesis by simp
  next
    case (failed b cfg w1 sys x)
    with e have "b = a" "w1 = ?w1" by simp_all
    with failed at at1 set_state_at [OF i1] show ?thesis by simp
  next
    case (started b cfg w1 sys u)
    with e have "b = a" "w1 = ?w1" by simp_all
    moreover have "w_clock ?w1 = w_clock w" by (simp add: set_state_def modify_agent_def)
    ultimately show ?thesis using started at at1 start_commit_at [OF i1, of env]
      by (simp add: start_audit_def running_agent_def)
  qed
qed

lemma start_effect:
  fixes env :: "('s, 'e, 'q, 'r) env"
  assumes inv: "mgr_inv w" and run: "start env i w = (r, w')"
  shows "(case agent_at w i of
      None \<Rightarrow> r = Returned (Inl (NotRegistered i)) \<and> w' = w
    | Some ra \<Rightarrow>
        if ra_state ra = StateRunning \<or> ra_state ra = StateStarting
        then r = Returned (Inl (AlreadyIs i (ra_state ra))) \<and> w' = w
        else (case r of
            Blocked \<Rightarrow> agent_at w' = (agent_at w)(i \<mapsto> ra\<lparr>ra_state := StateStarting\<rparr>)
          | Returned (Inl _) \<Rightarrow> agent_at w' = (agent_at w)(i \<mapsto> ra\<lparr>ra_state := StateFailed\<rparr>)
          | Returned (Inr _) \<Rightarrow> agent_at w' = (agent_at w)(i \<mapsto> running_agent (env_now env (w_clock w)) ra)))"
proof (cases "agent_at w i")
  case None
  with run start_enter_result [OF inv, of i, where 'e = 'e] show ?thesis by (simp add: start_def)
next
  case (Some ra)
  show ?thesis
  proof (cases "ra_state ra = StateRunning \<or> ra_state ra = StateStarting")
    case True
    with run start_enter_result [OF inv, of i, where 'e = 'e] Some show ?thesis by (auto simp: start_def)
  next
    case False
    with start_entered [OF inv run Some] Some show ?thesis by simp
  qed
qed

lemma stop_effect:
  fixes env :: "('s, 'e, 'q, 'r) env"
  assumes inv: "mgr_inv w" and run: "stop env i w = (r, w')"
  shows "(case agent_at w i of
      None \<Rightarrow> r = Returned (Inl (NotFound i)) \<and> w' = w
    | Some ra \<Rightarrow>
        (case r of
            Returned (Inr _) \<Rightarrow> agent_at w' = (agent_at w)(i \<mapsto> stopped_agent (env_now env (w_clock w)) ra)
          | _ \<Rightarrow> agent_at w' = (agent_at w)(i \<mapsto> ra\<lparr>ra_state := StateStopping\<rparr>)))"
proof (cases "map_of (w_agents w) i")
  case None
  then have "agent_at w i = None" by (simp add: agent_at_def)
  with None run show ?thesis by (auto simp: stop_def stop_enter_def)
next
  case (Some a)
  with inv obtain ra where ra: "agent_at w i = Some ra" by (rule mgr_inv_agent)
  let ?w1 = "set_state a StateStopping w"
  have at1: "agent_at ?w1 = (agent_at w)(i \<mapsto> ra\<lparr>ra_state := StateStopping\<rparr>)"
    using set_state_at [OF inv Some] ra by simp
  have i1: "mgr_inv (?w1\<lparr>w_sys := sys\<rparr>)" "map_of (w_agents (?w1\<lparr>w_sys := sys\<rparr>)) i = Some a" for sys
    using inv Some by simp_all
  from run show ?thesis
  proof (cases rule: stop_cases)
    case (stopped b sys u)
    moreover from stopped(1) Some have "b = a" by simp
    moreover have "w_clock ?w1 = w_clock w" by (simp add: set_state_def modify_agent_def)
    ultimately show ?thesis using ra at1 stop_commit_at [OF i1, of env]
      by (simp add: stop_audit_def stopped_agent_def)
  qed (use Some ra at1 in simp_all)
qed

lemma kill_effect:
  assumes inv: "mgr_inv w" and run: "kill env i reason w = (r, w')"
  shows "(case r of
      Inl _ \<Rightarrow> agent_at w' = agent_at w
    | Inr _ \<Rightarrow> agent_at w' = (agent_at w)(i := map_option (killed_agent (env_now env (w_clock w)) reason) (agent_at w i)))"
proof -
  have i1: "mgr_inv (w\<lparr>w_sys := sys, w_resets := us\<rparr>)" "agent_at (w\<lparr>w_sys := sys, w_resets := us\<rparr>) = agent_at w" for sys us
    using inv mgr_inv_cong [of "w\<lparr>w_sys := sys, w_resets := us\<rparr>" w]
      agent_at_cong [of "w\<lparr>w_sys := sys, w_resets := us\<rparr>" w] by simp_all
  from run show ?thesis
  proof (cases rule: kill_cases)
    case (killed u rs sys)
    then show ?thesis using kill_commit_at [OF i1(1)] i1(2) by (simp add: kill_audit_def)
  qed simp
qed

lemma register_new_at:
  assumes "mgr_inv w"
  shows "agent_at (snd (register_new env i p x path w))
    = (agent_at w)(i \<mapsto> new_runtime (register_record i p path (env_now env (w_clock w))) x)"
proof -
  have h: "heap_ok (w_agents (snd (read_clock env w))) (w_heap (snd (read_clock env w))) (w_next (snd (read_clock env w)))"
    using assms by (simp add: mgr_inv_def)
  show ?thesis using install_agent_at [OF h]
    by (simp add: register_new_def Let_def case_prod_unfold register_record_def) (simp add: read_clock_def)
qed

lemma register_effect:
  assumes inv: "mgr_inv w" and run: "register env i p x w = (r, w')"
  shows "(case r of
      Inl _ \<Rightarrow> w' = w\<lparr>w_os := w_os w'\<rparr>
    | Inr _ \<Rightarrow> validate_id i = Inr () \<and> agent_at w i = None \<and>
        \<not> (0 < env_max_agents env \<and> env_max_agents env \<le> int (length (w_agents w))) \<and>
        agent_at w' = (agent_at w)(i \<mapsto>
          new_runtime (register_record i p (workspace_path (env_workspace_root env) i) (env_now env (w_clock w))) x))"
proof (cases "validate_id i")
  case (Inl e)
  with run show ?thesis by (auto simp: register_def)
next
  case (Inr u)
  obtain y s where pv: "provision_workspace (env_workspace_root env) i (w_os w) = (y, s)" by fastforce
  show ?thesis
  proof (cases y)
    case (Inl e)
    with run \<open>validate_id i = Inr u\<close> pv show ?thesis by (auto simp: register_def split: if_splits)
  next
    case (Inr path)
    with pv have "path = workspace_path (env_workspace_root env) i"
      by (auto elim: provision_cases)
    with Inr run \<open>validate_id i = Inr u\<close> pv inv
    show ?thesis
      using register_new_at [of "w\<lparr>w_os := s\<rparr>" env i p x path]
      by (auto simp: register_def case_prod_unfold Let_def mgr_inv_known split: if_splits)
  qed
qed

lemma unregister_known_at:
  "agent_at (unregister_known env i purge path w) = (agent_at w)(i := None)"
  using delete_agent_at [where i = i and w = w and e = "unregister_agent i (w_eng w)"]
  by (simp add: unregister_known_def Let_def)

lemma unregister_effect:
  assumes run: "unregister env i purge w = (r, w')"
  shows "(case r of
      Inl e \<Rightarrow> w' = w \<and> (case agent_at w i of None \<Rightarrow> e = NotRegistered i
          | Some ra \<Rightarrow> ra_state ra \<in> {StateRunning, StateStarting, StateStopping} \<and> e = MustStopFirst i (ra_state ra))
    | Inr _ \<Rightarrow> (\<exists>ra. agent_at w i = Some ra \<and> ra_state ra \<in> {StateRegistered, StateStopped, StateKilled, StateFailed} \<and>
        agent_at w' = (agent_at w)(i := None)))"
proof (cases "agent_at w i")
  case None
  with run show ?thesis by (auto simp: unregister_def)
next
  case (Some ra)
  with run show ?thesis
    by (cases "ra_state ra") (auto simp: unregister_def unregister_known_at)
qed

lemma restore_at:
  assumes "mgr_inv w"
  shows "agent_at (restore_entry e w) =
    (if agent_at w (re_id e) = None
     then (agent_at w)(re_id e \<mapsto> new_runtime (to_agent_record e) (re_exec_path e)) else agent_at w)"
  using assms mgr_inv_known [OF assms] install_agent_at [OF mgr_inv_heap [OF assms]]
  by (simp add: restore_entry_def to_agent_record_def)

text \<open>The first entry of an identifier counts, and only if the identifier is new.\<close>

lemma fold_restore_at:
  "mgr_inv w \<Longrightarrow> agent_at (fold restore_entry es w) i =
     (case agent_at w i of
        Some ra \<Rightarrow> Some ra
      | None \<Rightarrow> map_option (\<lambda>e. new_runtime (to_agent_record e) (re_exec_path e)) (List.find (\<lambda>e. re_id e = i) es))"
proof (induction es arbitrary: w)
  case Nil
  then show ?case by (simp split: option.split)
next
  case (Cons e es)
  have "mgr_inv (restore_entry e w)" by (rule restore_inv [OF Cons.prems])
  note IH = Cons.IH [OF this]
  show ?case
    by (simp add: IH restore_at [OF Cons.prems] split: option.split)
qed

lemma load_effect:
  assumes "mgr_inv w" and "load_persisted_agents env w = (r, w')"
  shows "(case r of
      Inl _ \<Rightarrow> agent_at w' = agent_at w
    | Inr _ \<Rightarrow> (\<exists>es. fst (load_registry (env_workspace_root env) (w_os w)) = Inr es \<and>
        agent_at w' = agent_at (fold restore_entry es w)))"
proof -
  obtain y s where l: "load_registry (env_workspace_root env) (w_os w) = (y, s)" by fastforce
  have "mgr_inv (w\<lparr>w_os := s\<rparr>)" using assms(1) by simp
  with l assms show ?thesis
    by (cases y) (auto simp: load_persisted_agents_def fold_restore_at fun_eq_iff)
qed

section \<open>What the bus answers\<close>

text \<open>The reply of systemd to the request of a start, as it leaves the bus.\<close>

definition start_reply :: "('s, 'e, 'q, 'r) env \<Rightarrow> runtime_agent \<Rightarrow> ('s, 'q) world \<Rightarrow> 'e + string call" where
  "start_reply env ra w =
     fst (cn_start_transient_unit (env_conn env) (systemd_unit_name (ar_id ra)) ''fail''
       (unit_properties (start_config (ar_id ra) (exec_start ra) (ar_workspace_path ra) (ar_profile ra)))
       (reset_stale (env_conn env) (systemd_unit_name (ar_id ra)) (w_sys w)))"

lemma start_config_id [simp]: "sc_agent_id (start_config i x ws p) = i"
  by (simp add: start_config_def default_sandbox_config_def Let_def)

text \<open>\<open>Start\<close> of an agent that may be started answers what systemd reported.\<close>

lemma start_result:
  fixes env :: "('s, 'e, 'q, 'r) env"
  assumes inv: "mgr_inv w" and at: "agent_at w i = Some ra" and idle: "ra_state ra \<noteq> StateRunning" "ra_state ra \<noteq> StateStarting"
  shows "fst (start env i w) = (case start_reply env ra w of
      Inl e \<Rightarrow> Returned (Inl (StartingSandbox (StartingTransientUnit (systemd_unit_name i) e)))
    | Inr Blocked \<Rightarrow> Blocked
    | Inr (Returned res) \<Rightarrow>
        (if res = ''done'' then Returned (Inr ())
         else Returned (Inl (StartingSandbox (JobFinishedWith (systemd_unit_name i) res)))))"
proof -
  obtain a where "map_of (w_agents w) i = Some a" using mgr_inv_known [OF inv, of i] at by auto
  with start_enter_result [OF inv, of i, where 'e = 'e] at idle
  have e: "start_enter i w = (Inr (a, start_config i (exec_start ra) (ar_workspace_path ra) (ar_profile ra))
      :: 'e manager_error + _, set_state a StateStarting w)" by simp
  have "ar_id ra = i" "w_sys (set_state a StateStarting w) = w_sys w"
    using mgr_inv_id [OF inv at] by (simp_all add: set_state_def)
  with e show ?thesis
    by (simp add: start_def start_agent_def start_reply_def Let_def split: prod.split sum.split call.split)
qed

lemma stop_result:
  "agent_at w i \<noteq> None \<Longrightarrow> fst (stop env i w) =
     (case fst (cn_stop_unit (env_conn env) (systemd_unit_name i) ''replace'' (w_sys w)) of
        Inl e \<Rightarrow> Returned (Inl (StoppingAgent i (StoppingUnit (systemd_unit_name i) e)))
      | Inr Blocked \<Rightarrow> Blocked
      | Inr (Returned _) \<Rightarrow> Returned (Inr ()))"
  by (auto simp: agent_at_def bind_eq_None_conv stop_def stop_enter_def stop_agent_def set_state_def Let_def
      split: option.splits prod.split sum.split call.split)

lemma kill_result:
  "fst (kill env i reason w) =
     (case fst (cn_kill_unit (env_conn env) (systemd_unit_name i) 9 (w_sys w)) of
        Inl e \<Rightarrow> Inl (KillingAgent i (KillingUnit e))
      | Inr _ \<Rightarrow> Inr ())"
  by (simp add: kill_def kill_agent_def Let_def split: prod.split sum.split)

text \<open>Whether a registration is accepted.\<close>

definition register_accepted :: "('s, 'e, 'q, 'r) env \<Rightarrow> string \<Rightarrow> ('s, 'q) world \<Rightarrow> bool" where
  "register_accepted env i w \<longleftrightarrow>
     validate_id i = Inr () \<and> \<not> (0 < env_max_agents env \<and> env_max_agents env \<le> int (length (w_agents w)))
     \<and> is_ok (fst (provision_workspace (env_workspace_root env) i (w_os w)))"

lemma register_result:
  assumes "mgr_inv w"
  shows "is_ok (fst (register env i p x w)) \<longleftrightarrow> agent_at w i = None \<and> register_accepted env i w"
  using mgr_inv_known [OF assms, of i]
  by (auto simp: register_def register_accepted_def case_prod_unfold Let_def split: sum.splits)

section \<open>The lifecycle as a state machine\<close>

text \<open>
  The specification of the lifecycle: what happens to one agent (\<open>None\<close> stands for not registered)
  when an operation is aimed at it, as a function of what the disk and the bus answered.
\<close>

datatype job_report = RequestRefused | NoReport | JobReport string

fun report_of :: "'e + string call \<Rightarrow> job_report" where
  "report_of (Inl e) = RequestRefused"
| "report_of (Inr Blocked) = NoReport"
| "report_of (Inr (Returned res)) = JobReport res"

datatype lifecycle_event =
    Registering bool | Restoring bool | Unregistering | Starting job_report | Stopping job_report
  | Killing bool | Nothing

fun lifecycle :: "lifecycle_event \<Rightarrow> agent_state option \<Rightarrow> agent_state option" where
  "lifecycle (Registering accepted) None = (if accepted then Some StateRegistered else None)"
| "lifecycle (Restoring listed) None = (if listed then Some StateRegistered else None)"
| "lifecycle Unregistering (Some s) =
     (if s \<in> {StateRunning, StateStarting, StateStopping} then Some s else None)"
| "lifecycle (Starting rep) (Some s) =
     (if s \<in> {StateRunning, StateStarting} then Some s
      else Some (case rep of
          NoReport \<Rightarrow> StateStarting
        | RequestRefused \<Rightarrow> StateFailed
        | JobReport res \<Rightarrow> (if res = ''done'' then StateRunning else StateFailed)))"
| "lifecycle (Stopping rep) (Some s) =
     Some (case rep of JobReport res \<Rightarrow> StateStopped | _ \<Rightarrow> StateStopping)"
| "lifecycle (Killing accepted) (Some s) = Some (if accepted then StateKilled else s)"
| "lifecycle ev s = s"

text \<open>The event an operation is for the agent \<open>j\<close>.\<close>

fun event_for :: "('s, 'e, 'q, 'r) env \<Rightarrow> manager_op \<Rightarrow> ('s, 'q) world \<Rightarrow> string \<Rightarrow> lifecycle_event" where
  "event_for env (OpRegister i p x) w j = (if j = i then Registering (register_accepted env i w) else Nothing)"
| "event_for env (OpUnregister i purge) w j = (if j = i then Unregistering else Nothing)"
| "event_for env (OpStart i) w j =
     (if j = i then
        (case agent_at w i of None \<Rightarrow> Nothing | Some ra \<Rightarrow> Starting (report_of (start_reply env ra w)))
      else Nothing)"
| "event_for env (OpStop i) w j =
     (if j = i then
        Stopping (report_of (fst (cn_stop_unit (env_conn env) (systemd_unit_name i) ''replace'' (w_sys w))))
      else Nothing)"
| "event_for env (OpKill i reason) w j =
     (if j = i then Killing (is_ok (fst (cn_kill_unit (env_conn env) (systemd_unit_name i) 9 (w_sys w)))) else Nothing)"
| "event_for env OpLateReset w j = Nothing"
| "event_for env OpLoadPersisted w j =
     (case fst (load_registry (env_workspace_root env) (w_os w)) of
        Inl e \<Rightarrow> Nothing
      | Inr es \<Rightarrow> Restoring (j \<in> re_id ` set es))"

definition state_of :: "('s, 'q) world \<Rightarrow> string \<Rightarrow> agent_state option" where
  "state_of w i = map_option ra_state (agent_at w i)"

lemma state_of_upd [simp]:
  "agent_at w' = (agent_at w)(j := x) \<Longrightarrow> state_of w' i = (if i = j then map_option ra_state x else state_of w i)"
  by (simp add: state_of_def)

lemma state_of_same: "agent_at w' = agent_at w \<Longrightarrow> state_of w' = state_of w"
  by (simp add: state_of_def fun_eq_iff)

lemma agent_updates [simp]:
  "ra_state (running_agent t ra) = StateRunning" "ra_state (stopped_agent t ra) = StateStopped"
  "ra_state (killed_agent t reason ra) = StateKilled"
  by (simp_all add: running_agent_def stopped_agent_def killed_agent_def)

lemma lifecycle_Nothing [simp]: "lifecycle Nothing s = s"
  by (cases s) simp_all

lemma lifecycle_absent:
  "lifecycle Unregistering None = None" "lifecycle (Starting rep) None = None" "lifecycle (Stopping rep) None = None"
  "lifecycle (Killing b) None = None"
  by simp_all

lemma register_lifecycle:
  assumes inv: "mgr_inv w"
  shows "state_of (snd (register env i p x w)) j = lifecycle (event_for env (OpRegister i p x) w j) (state_of w j)"
proof -
  obtain r w' where run: "register env i p x w = (r, w')" by fastforce
  note eff = register_effect [OF inv run] and ok = register_result [OF inv, of env i p x, unfolded run fst_conv]
  show ?thesis
  proof (cases r)
    case (Inl e)
    with eff have "agent_at w' = agent_at w" using agent_at_frame(4) by (metis sum.case(1))
    then have "state_of w' = state_of w" by (rule state_of_same)
    moreover have "\<not> (agent_at w i = None \<and> register_accepted env i w)" using ok Inl by simp
    ultimately show ?thesis using run by (cases "agent_at w i") (auto simp: state_of_def)
  next
    case (Inr a)
    with eff ok run show ?thesis by (auto simp: state_of_def)
  qed
qed

lemma unregister_lifecycle:
  "state_of (snd (unregister env i purge w)) j = lifecycle (event_for env (OpUnregister i purge) w j) (state_of w j)"
  by (cases "agent_at w i"; cases "j = i")
    (auto simp: unregister_def unregister_known_at state_of_def)

lemma start_lifecycle:
  assumes inv: "mgr_inv w"
  shows "state_of (snd (start env i w)) j = lifecycle (event_for env (OpStart i) w j) (state_of w j)"
proof -
  obtain r w' where run: "start env i w = (r, w')" by fastforce
  note eff = start_effect [OF inv run]
  show ?thesis
  proof (cases "agent_at w i")
    case None
    with eff run show ?thesis by simp
  next
    case (Some ra)
    show ?thesis
    proof (cases "ra_state ra \<in> {StateRunning, StateStarting}")
      case True
      with eff Some run show ?thesis by (auto simp: state_of_def)
    next
      case False
      with start_result [OF inv Some, of env] run
      have r: "r = (case start_reply env ra w of
          Inl e \<Rightarrow> Returned (Inl (StartingSandbox (StartingTransientUnit (systemd_unit_name i) e)))
        | Inr Blocked \<Rightarrow> Blocked
        | Inr (Returned res) \<Rightarrow>
            (if res = ''done'' then Returned (Inr ())
             else Returned (Inl (StartingSandbox (JobFinishedWith (systemd_unit_name i) res)))))" by simp
      show ?thesis using eff Some run False
        by (cases "start_reply env ra w" rule: report_of.cases) (auto simp: r state_of_def)
    qed
  qed
qed

lemma stop_lifecycle:
  assumes inv: "mgr_inv w"
  shows "state_of (snd (stop env i w)) j = lifecycle (event_for env (OpStop i) w j) (state_of w j)"
proof -
  obtain r w' where run: "stop env i w = (r, w')" by fastforce
  note eff = stop_effect [OF inv run]
  show ?thesis
  proof (cases "agent_at w i")
    case None
    with eff run show ?thesis by (cases "j = i") (simp_all add: state_of_def)
  next
    case (Some ra)
    with stop_result [of w i env] run have r: "r =
      (case fst (cn_stop_unit (env_conn env) (systemd_unit_name i) ''replace'' (w_sys w)) of
        Inl e \<Rightarrow> Returned (Inl (StoppingAgent i (StoppingUnit (systemd_unit_name i) e)))
      | Inr Blocked \<Rightarrow> Blocked
      | Inr (Returned _) \<Rightarrow> Returned (Inr ()))" by simp
    show ?thesis using eff Some run
      by (cases "fst (cn_stop_unit (env_conn env) (systemd_unit_name i) ''replace'' (w_sys w))" rule: report_of.cases)
        (auto simp: r state_of_def)
  qed
qed

lemma kill_lifecycle:
  assumes inv: "mgr_inv w"
  shows "state_of (snd (kill env i reason w)) j = lifecycle (event_for env (OpKill i reason) w j) (state_of w j)"
proof -
  obtain r w' where run: "kill env i reason w = (r, w')" by fastforce
  have r: "r = (case fst (cn_kill_unit (env_conn env) (systemd_unit_name i) 9 (w_sys w)) of
      Inl e \<Rightarrow> Inl (KillingAgent i (KillingUnit e)) | Inr _ \<Rightarrow> Inr ())"
    using kill_result [of env i reason w] run by simp
  show ?thesis using kill_effect [OF inv run] run
    by (cases "fst (cn_kill_unit (env_conn env) (systemd_unit_name i) 9 (w_sys w))"; cases "agent_at w i")
      (auto simp: r state_of_def)
qed

lemma load_lifecycle:
  assumes inv: "mgr_inv w"
  shows "state_of (snd (load_persisted_agents env w)) j = lifecycle (event_for env OpLoadPersisted w j) (state_of w j)"
proof -
  obtain r w' where run: "load_persisted_agents env w = (r, w')" by fastforce
  note eff = load_effect [OF inv run]
  show ?thesis
  proof (cases "fst (load_registry (env_workspace_root env) (w_os w))")
    case (Inl e)
    with run have "agent_at w' = agent_at w"
      by (auto simp: load_persisted_agents_def case_prod_unfold Let_def)
    with Inl run state_of_same [of w' w] show ?thesis by simp
  next
    case (Inr es)
    with run eff have "agent_at w' = agent_at (fold restore_entry es w)"
      by (auto simp: load_persisted_agents_def case_prod_unfold Let_def)
    moreover have "List.find (\<lambda>e. re_id e = j) es = None \<longleftrightarrow> j \<notin> re_id ` set es" by (auto simp: find_None_iff)
    ultimately show ?thesis using Inr run fold_restore_at [OF inv, of es j]
      by (cases "agent_at w j"; cases "List.find (\<lambda>e. re_id e = j) es") (auto simp: state_of_def)
  qed
qed

lemma apply_op_lifecycle:
  "mgr_inv w \<Longrightarrow> state_of (apply_op env op w) j = lifecycle (event_for env op w j) (state_of w j)"
proof (cases op)
  case OpLateReset
  have "agent_at (run_reset env w) = agent_at w"
    by (rule agent_at_cong) (simp_all add: run_reset_def split: list.split)
  then show ?thesis using OpLateReset state_of_same [of "run_reset env w" w] by simp
qed (simp_all only: apply_op.simps register_lifecycle unregister_lifecycle start_lifecycle stop_lifecycle
    kill_lifecycle load_lifecycle)

section \<open>Effects on the audit trail\<close>

definition clock_ok :: "('s, 'e, 'q, 'r) env \<Rightarrow> bool" where
  "clock_ok env \<longleftrightarrow> (\<forall>n. time_printable (env_now env n))"

lemma audit_lifecycle_trail:
  assumes "clock_ok env" and "lg_journal_enabled (w_log w)"
  shows "trail (w_log (audit_lifecycle env i ty msg w)) = trail (w_log w) @
    [event_line ((new_event (env_now env (w_clock w)) ty SeverityInfo msg)\<lparr>e_agent_id := i\<rparr>)]"
proof -
  let ?e = "(new_event (env_now env (w_clock w)) ty SeverityInfo msg)\<lparr>e_agent_id := i\<rparr>"
  have "time_printable (e_time ?e)" using assms(1) by (simp add: clock_ok_def)
  from log_event_trail [OF assms(2) this, of "env_sinks env"] show ?thesis
    by (simp add: audit_lifecycle_def log_agent_lifecycle_def read_clock_def)
qed

lemma log_frame [simp]:
  "w_log (set_state a st w) = w_log w" "w_log (start_commit env a w) = w_log w"
  "w_log (stop_commit env a w) = w_log w" "w_log (kill_commit env i reason w) = w_log w"
  by (simp_all add: set_state_def start_commit_def stop_commit_def kill_commit_def Let_def case_prod_unfold
      split: option.split)

lemma enter_log: "w_log (snd (start_enter i w)) = w_log w"
  by (simp add: start_enter_def split: option.split)

text \<open>An operation adds one event to the trail, or leaves the trail alone.\<close>

definition audited :: "event_type \<Rightarrow> string \<Rightarrow> string \<Rightarrow> ('s, 'q) world \<Rightarrow> ('s, 'q) world \<Rightarrow> bool" where
  "audited ty i msg w w' \<longleftrightarrow> (\<exists>t. trail (w_log w') = trail (w_log w) @
     [event_line ((new_event t ty SeverityInfo msg)\<lparr>e_agent_id := i\<rparr>)])"

definition unaudited :: "('s, 'q) world \<Rightarrow> ('s, 'q) world \<Rightarrow> bool" where
  "unaudited w w' \<longleftrightarrow> trail (w_log w') = trail (w_log w)"

lemma unaudited_log: "w_log w' = w_log w \<Longrightarrow> unaudited w w'"
  by (simp add: unaudited_def)

lemma audited_log:
  "clock_ok env \<Longrightarrow> lg_journal_enabled (w_log v) \<Longrightarrow> w_log v = w_log w \<Longrightarrow>
     audited ty i msg w (audit_lifecycle env i ty msg v)"
  by (auto simp: audited_def audit_lifecycle_trail)

lemma register_trail:
  assumes "clock_ok env" "lg_journal_enabled (w_log w)" "register env i p x w = (r, w')"
  shows "if is_ok r then audited AgentRegistered i (''agent '' @ i @ '' registered with profile '' @ p) w w'
    else unaudited w w'"
  using assms
  by (auto simp: register_def register_new_def Let_def case_prod_unfold
      intro!: unaudited_log audited_log [where env = env] split: sum.splits prod.splits if_splits)

lemma unregister_trail:
  assumes "clock_ok env" "lg_journal_enabled (w_log w)" "unregister env i purge w = (r, w')"
  shows "if is_ok r then audited AgentUnregistered i (''agent '' @ i @ '' unregistered (purge='' @ bool_str purge @ '')'') w w'
    else unaudited w w'"
  using assms
  by (auto simp: unregister_def unregister_known_def Let_def
      intro!: unaudited_log audited_log [where env = env] split: option.splits if_splits)

lemma start_trail:
  fixes env :: "('s, 'e, 'q, 'r) env"
  assumes "clock_ok env" "lg_journal_enabled (w_log w)" "start env i w = (r, w')"
  shows "if r = Returned (Inr ()) then \<exists>p. audited AgentStarted i (''agent '' @ i @ '' started with profile '' @ p) w w'
    else unaudited w w'"
proof -
  have e: "w_log w1 = w_log w" if "start_enter i w = (x :: 'e manager_error + _, w1)" for x w1
    using enter_log [of i w] that by (metis snd_conv)
  from assms(3) show ?thesis
  proof (cases rule: start_cases)
    case (refused x)
    then show ?thesis using e by (simp add: unaudited_log)
  next
    case (blocked a cfg w1 sys)
    then show ?thesis using e by (simp add: unaudited_log)
  next
    case (failed a cfg w1 sys x)
    then show ?thesis using e [OF failed(1)] by (simp add: unaudited_log)
  next
    case (started a cfg w1 sys u)
    then have "audited AgentStarted i (''agent '' @ i @ '' started with profile '' @ sc_profile cfg) w w'"
      using e [OF started(1)] assms(1,2) by (auto simp: start_audit_def intro!: audited_log [where env = env])
    with started show ?thesis by auto
  qed
qed

lemma stop_trail:
  assumes "clock_ok env" "lg_journal_enabled (w_log w)" "stop env i w = (r, w')"
  shows "if r = Returned (Inr ()) then audited AgentStopped i (''agent '' @ i @ '' stopped'') w w' else unaudited w w'"
  using assms(3)
proof (cases rule: stop_cases)
  case (stopped a sys u)
  then show ?thesis using assms(1,2) by (auto simp: stop_audit_def intro!: audited_log [where env = env])
qed (simp_all add: unaudited_log)

lemma kill_trail:
  assumes "clock_ok env" "lg_journal_enabled (w_log w)" "kill env i reason w = (r, w')"
  shows "if is_ok r then audited AgentKilled i (''agent '' @ i @ '' killed: '' @ reason) w w' else unaudited w w'"
  using assms(3)
proof (cases rule: kill_cases)
  case (killed u rs sys)
  then show ?thesis using assms(1,2) by (auto simp: kill_audit_def intro!: audited_log [where env = env])
qed (simp add: unaudited_log)

section \<open>Effects on the disk\<close>

lemma node_faults [simp]:
  "os_faults (put_node p n s) = os_faults s" "os_faults (drop_node p s) = os_faults s"
  "os_faults (remove_paths ps s) = os_faults s" "os_faults (snd (tick s)) = os_faults s"
  by (simp_all add: put_node_def drop_node_def remove_paths_def tick_def)

lemma write_faults [simp]: "os_faults (snd (os_write_file n d m s)) = os_faults s"
  by (simp add: os_write_file_def Let_def case_prod_unfold split: option.split fault.split)

lemma rename_faults [simp]: "os_faults (snd (os_rename a b s)) = os_faults s"
  by (simp add: os_rename_def Let_def case_prod_unfold split: option.split node.split)

lemma save_faults [simp]: "os_faults (snd (save_registry root agents s)) = os_faults s"
proof -
  obtain r s' where sv: "save_registry root agents s = (r, s')" by fastforce
  then have "os_faults s' = os_faults s"
    by (cases rule: save_cases) (use write_faults rename_faults in \<open>metis snd_conv\<close>)+
  with sv show ?thesis by simp
qed

lemma persist_os:
  "w_os (snd (persist env w)) = snd (save_registry (env_workspace_root env) (fst (iterate env w)) (w_os w))"
  by (simp add: persist_def iterate_def case_prod_unfold Let_def)

lemma persist_os_frame:
  assumes "env_workspace_root env \<noteq> []" and "q \<noteq> resolve (env_workspace_root env) @ [''registry.json'']"
    and "q \<noteq> resolve (env_workspace_root env) @ [''registry.json.tmp'']"
  shows "os_look (w_os (snd (persist env w))) q = os_look (w_os w) q"
proof -
  obtain r s where sv: "save_registry (env_workspace_root env) (fst (iterate env w)) (w_os w) = (r, s)" by fastforce
  from save_frame [OF sv assms] show ?thesis by (simp add: persist_os sv)
qed

text \<open>A purge names the agent's own directory, which is neither empty nor a dot.\<close>

lemma last_join_slash_snoc: "w \<noteq> [] \<Longrightarrow> last (join_slash (ws @ [w])) = last w"
proof (induction ws)
  case (Cons v ws)
  have "join_slash (ws @ [w]) \<noteq> []" using Cons.prems by (cases ws) (auto simp: join_slash_Cons)
  with Cons show ?case by (simp add: join_slash_Cons)
qed simp

lemma last_path_join:
  assumes "p \<noteq> []" and "plain_elem w"
  shows "path_join [p, w] \<noteq> []" and "last (path_join [p, w]) = last w"
proof -
  have w: "w \<noteq> []" using assms(2) by (simp add: plain_elem_def)
  have sp: "split_slash (p @ slash # w) = split_slash p @ [w]"
    using assms(2) by (simp add: split_slash_append split_slash_plain plain_elem_def)
  let ?ws = "clean_elems (is_rooted p) (split_slash p)"
  have "path_join [p, w] = (if is_rooted p then slash # join_slash (?ws @ [w]) else join_slash (?ws @ [w]))"
    using assms by (simp add: path_join_def path_clean_def sp is_rooted_append clean_elems_snoc Let_def)
  moreover have "join_slash (?ws @ [w]) \<noteq> []" using w by (cases ?ws) (auto simp: join_slash_Cons)
  ultimately show "path_join [p, w] \<noteq> []" "last (path_join [p, w]) = last w"
    using last_join_slash_snoc [OF w, of ?ws] by auto
qed

lemma agent_dir_name:
  assumes "root \<noteq> []" and "valid_id i"
  shows "path_dir (workspace_path root i) \<noteq> []" and "\<not> ends_with_dot (path_dir (workspace_path root i))"
proof -
  have d: "path_dir (workspace_path root i) = path_join [root, i]" by (rule dir_workspace_path [OF assms(1)])
  note l = last_path_join [OF assms(1) valid_id_plain [OF assms(2)]]
  have "i \<noteq> []" using assms(2) by (auto simp: valid_id_def)
  then have "last i \<noteq> CHR ''.''" using valid_id_no_char(2) [OF assms(2)] last_in_set by metis
  moreover have "last n = CHR ''.''" if "ends_with_dot n" for n
    using that by (auto simp: ends_with_dot_def dot_def suffix_def)
  ultimately show "path_dir (workspace_path root i) \<noteq> []" "\<not> ends_with_dot (path_dir (workspace_path root i))"
    using l by (auto simp: d)
qed

lemma remove_all_works:
  "quiet s \<Longrightarrow> n \<noteq> [] \<Longrightarrow> \<not> ends_with_dot n \<Longrightarrow> \<exists>s'. os_remove_all n s = (Inr (), s')"
  by (simp add: os_remove_all_def quiet_def tick_def)

lemma unregister_known_os:
  "w_os (unregister_known env i purge path w) =
    (let s = w_os (snd (persist env (w\<lparr>w_agents := AList.delete i (w_agents w), w_eng := unregister_agent i (w_eng w)\<rparr>)))
     in if purge then snd (os_remove_all (path_dir path) s) else s)"
  by (simp add: unregister_known_def Let_def)

section \<open>What a restart finds\<close>

lemma iterate_mem: "ra \<in> set (fst (iterate env w)) \<longleftrightarrow>
    (\<exists>j \<in> set (env_order env (w_iters w) (map fst (w_agents w))). agent_at w j = Some ra)"
  by (force simp: iterate_def List.map_filter_def)

lemma iterate_find:
  assumes inv: "mgr_inv w" and order: "\<And>n ids. set (env_order env n ids) = set ids"
  shows "List.find (\<lambda>e. re_id e = i) (map entry_of (fst (iterate env w))) = map_option entry_of (agent_at w i)"
proof -
  let ?ras = "fst (iterate env w)"
  have mem: "ra \<in> set ?ras \<longleftrightarrow> (\<exists>j. agent_at w j = Some ra)" for ra
  proof
    assume "\<exists>j. agent_at w j = Some ra"
    then obtain j where j: "agent_at w j = Some ra" ..
    then have "map_of (w_agents w) j \<noteq> None" using mgr_inv_known [OF inv, of j] by auto
    then have "j \<in> set (map fst (w_agents w))" by (simp add: map_of_eq_None_iff)
    with j order show "ra \<in> set ?ras" by (auto simp: iterate_mem)
  qed (auto simp: iterate_mem)
  show ?thesis
  proof (cases "agent_at w i")
    case None
    have "re_id (entry_of ra) \<noteq> i" if "ra \<in> set ?ras" for ra
      using that None mgr_inv_id [OF inv] by (auto simp: mem entry_of_def)
    with None show ?thesis by (simp add: find_None_iff)
  next
    case (Some ra)
    have u: "ra' = ra" if "ra' \<in> set ?ras" "re_id (entry_of ra') = i" for ra'
      using that Some mgr_inv_id [OF inv] by (auto simp: mem entry_of_def)
    have "ra \<in> set ?ras" using Some mem by blast
    moreover have "re_id (entry_of ra) = i" using mgr_inv_id [OF inv Some] by (simp add: entry_of_def)
    ultimately have "List.find (\<lambda>e. re_id e = i) (map entry_of ?ras) \<noteq> None" by (auto simp: find_None_iff)
    then obtain e where e: "List.find (\<lambda>e. re_id e = i) (map entry_of ?ras) = Some e" by blast
    then obtain k where "k < length ?ras" "re_id (entry_of (?ras ! k)) = i" "e = entry_of (?ras ! k)"
      by (auto simp: find_Some_iff)
    then have "e = entry_of ra" using u [of "?ras ! k"] by simp
    with e Some show ?thesis by simp
  qed
qed

text \<open>An agent, after its entry went to the disk and back.\<close>

definition restored :: "runtime_agent \<Rightarrow> runtime_agent" where
  "restored ra = new_runtime (policy_view ra) (ra_exec_path ra)"

lemma restored_entry: "new_runtime (to_agent_record (entry_of ra)) (re_exec_path (entry_of ra)) = restored ra"
  by (simp add: restored_def to_agent_record_def entry_of_def policy_view_def)

lemma load_restores:
  assumes fresh: "mgr_inv v" "w_agents v = []" and inv: "mgr_inv w"
    and order: "\<And>n ids. set (env_order env n ids) = set ids"
    and disk: "fst (load_registry (env_workspace_root env) (w_os v)) = Inr (map entry_of (fst (iterate env w)))"
    and run: "load_persisted_agents env v = (r, v')"
  shows "r = Inr () \<and> agent_at v' i = map_option restored (agent_at w i)"
proof -
  obtain s where l: "load_registry (env_workspace_root env) (w_os v) = (Inr (map entry_of (fst (iterate env w))), s)"
    using disk by (metis prod.collapse)
  have "mgr_inv (v\<lparr>w_os := s\<rparr>)" "agent_at (v\<lparr>w_os := s\<rparr>) i = None" using fresh by (simp_all add: agent_at_def)
  with l run show ?thesis
    by (auto simp: load_persisted_agents_def fold_restore_at iterate_find [OF inv order] option.map_comp comp_def restored_entry)
qed

end
