(* ===== verification/ManagerProps.thy ===== *)
theory ManagerProps
  imports ManagerSpec
begin

text \<open>
  The properties of the manager: registration, limits, start and stop, what unregistering deletes,
  what survives a restart, and the audit trail of the operations.
\<close>

section \<open>A world to evaluate the definitions on\<close>

definition sample_fs :: os where
  "sample_fs = \<lparr>os_files = [([''v''], DirNode 0)], os_faults = (\<lambda>_. Works), os_calls = 0, os_cmds = []\<rparr>"

definition sample_env :: "(nat, string, string list, string) env" where
  "sample_env = \<lparr>env_workspace_root = ''/v'', env_max_agents = 2, env_conn = sample_conn, env_lib = sample_lib,
     env_sinks = \<lparr>sink_send = (\<lambda>_. True), sink_write = (\<lambda>_. True)\<rparr>, env_now = (\<lambda>_. sample_time),
     env_order = (\<lambda>_ ids. ids)\<rparr>"

definition bare_engine :: "string list engine" where
  "bare_engine = sample_engine\<lparr>eng_agents := []\<rparr>"

definition sample_world :: "(nat, string list) world" where
  "sample_world = new_manager sample_fs 0 sample_logger bare_engine 0"

text \<open>The same world with one agent in a given state.\<close>

definition world_with :: "agent_state \<Rightarrow> (nat, string list) world" where
  "world_with st = set_state 0 st (install (register_record ''a1'' ''minimal'' ''/v/a1/workspace'' sample_time) ''/bin/x'' sample_world)"

lemma bare_engine_wf [simp]: "engine_wf bare_engine" "eng_agents bare_engine = []"
  using sample_engine_wf by (simp_all add: bare_engine_def engine_wf_def)

lemma sample_world_inv [simp]: "mgr_inv sample_world"
  unfolding sample_world_def by (rule new_manager_inv) simp_all

lemma world_with_inv [simp]: "mgr_inv (world_with st)"
  unfolding world_with_def
  by (rule set_state_inv, rule install_inv)
    (simp_all add: register_record_def, simp add: sample_world_def new_manager_def)

lemma world_with_at:
  "agent_at (world_with st) ''a1'' =
     Some ((new_runtime (register_record ''a1'' ''minimal'' ''/v/a1/workspace'' sample_time) ''/bin/x'')\<lparr>ra_state := st\<rparr>)"
  "state_of (world_with st) ''a1'' = Some st"
  by (simp_all add: world_with_def state_of_def agent_at_def set_state_def modify_agent_def install_def
      register_record_def sample_world_def new_manager_def)

lemma world_with_other: "agent_at (world_with st) j = Some ra \<Longrightarrow> j = ''a1''"
  by (simp add: world_with_def agent_at_def set_state_def modify_agent_def install_def
      register_record_def sample_world_def new_manager_def split: if_splits)

lemma sample_env_ok [simp]: "clock_ok sample_env" "lg_journal_enabled (w_log sample_world)"
  "w_log (world_with st) = sample_logger"
  by (simp_all add: clock_ok_def sample_env_def sample_world_def new_manager_def world_with_def)

section \<open>Properties\<close>

text \<open>
  C1. Whatever sequence of operations the manager performs, on a disk and a bus that may fail at any
  call, its state stays well formed, and the policy engine knows exactly the registered agents,
  each with the record it was registered with. No two agents share a runtime record.
\<close>

theorem manager_invariant:
  assumes "engine_wf e" and "eng_agents e = []"
  shows "mgr_inv (fold (apply_op env) ops (new_manager s sys l e c))
    \<and> (\<forall>i. get_agent i (w_eng (fold (apply_op env) ops (new_manager s sys l e c)))
          = map_option policy_view (agent_at (fold (apply_op env) ops (new_manager s sys l e c)) i))"
proof -
  have "mgr_inv (fold (apply_op env) ops (new_manager s sys l e c))"
    by (rule mgr.run_inv, rule new_manager_inv [OF assms])
  then show ?thesis by (simp add: mgr_inv_def)
qed

lemma manager_invariant_witness:
  "mgr_inv (fold (apply_op sample_env) [OpRegister ''a1'' ''minimal'' ''/bin/x'', OpStart ''a1'', OpKill ''a1'' ''x'']
     (new_manager sample_fs 0 sample_logger bare_engine 0))"
  by (rule conjunct1 [OF manager_invariant [OF bare_engine_wf]])

text \<open>
  C35. The configured maximum bounds the number of registered agents (running or not) in every state
  that operations other than the restoring of persisted agents lead to.
\<close>

theorem registrations_bounded:
  assumes "0 < env_max_agents env" and "list_all (\<lambda>op. op \<noteq> OpLoadPersisted) ops"
    and "engine_wf e" and "eng_agents e = []"
  shows "int (length (w_agents (fold (apply_op env) ops (new_manager s sys l e c)))) \<le> env_max_agents env"
proof -
  have "list_all (\<lambda>op. op \<noteq> OpLoadPersisted \<and> 0 < env_max_agents env) ops"
    using assms(1,2) by (simp add: list_all_iff)
  moreover have "length (w_agents (new_manager s sys l e c)) \<le> (if 0 < env_max_agents env then nat (env_max_agents env) else 0)"
    by (simp add: new_manager_def)
  ultimately have "length (w_agents (fold (apply_op env) ops (new_manager s sys l e c)))
      \<le> (if 0 < env_max_agents env then nat (env_max_agents env) else 0)"
    using new_manager_inv [OF assms(3,4)] by (intro mgr_capacity.run_bound)
  with assms(1) show ?thesis by simp
qed

lemma registrations_bounded_witness:
  "int (length (w_agents (fold (apply_op sample_env)
      [OpRegister ''a1'' ''m'' [], OpRegister ''a2'' ''m'' [], OpRegister ''a3'' ''m'' []]
      (new_manager sample_fs 0 sample_logger bare_engine 0)))) \<le> 2"
  using registrations_bounded [OF _ _ bare_engine_wf, of sample_env
      "[OpRegister ''a1'' ''m'' [], OpRegister ''a2'' ''m'' [], OpRegister ''a3'' ''m'' []]"]
  by (simp add: sample_env_def)

text \<open>
  C36. Restoring persisted agents ignores the maximum: every entry with an identifier of its own is
  registered, however many there are and whatever their identifiers look like.
\<close>

theorem restore_ignores_limit:
  fixes w :: "('s, 'q) world"
  assumes "fst (load_registry (env_workspace_root env) (w_os w)) = Inr es" and "distinct (map re_id es)"
    and "w_agents w = []"
  shows "length (w_agents (snd (load_persisted_agents env w))) = length es"
proof -
  have n: "map_of (w_agents v) (re_id e) = None \<longleftrightarrow> re_id e \<notin> set (map fst (w_agents v))" for e and v :: "('s, 'q) world"
    by (simp add: map_of_eq_None_iff)
  have "set (map re_id es) \<inter> set (map fst (w_agents v)) = {} \<Longrightarrow> distinct (map re_id es) \<Longrightarrow>
      length (w_agents (fold restore_entry es v)) = length (w_agents v) + length es" for v :: "('s, 'q) world"
  proof (induction es arbitrary: v)
    case (Cons e es)
    then have new: "map_of (w_agents v) (re_id e) = None" by (auto simp: n)
    then have "w_agents (restore_entry e v) = w_agents v @ [(re_id e, w_next v)]"
      by (simp add: restore_entry_def to_agent_record_def update_new del: map_of_update)
    with Cons show ?case by auto
  qed simp
  from this [of "w\<lparr>w_os := snd (load_registry (env_workspace_root env) (w_os w))\<rparr>"] assms show ?thesis
    by (simp add: load_persisted_agents_def case_prod_unfold Let_def)
qed

text \<open>
  C19. \<open>Register\<close> succeeds only for a valid, unknown identifier below the maximum; it then adds exactly
  that agent, in state registered, with the requested profile and executable and its own workspace,
  to the manager and to the policy engine. When it fails nothing but the disk has changed.
\<close>

theorem register_outcome:
  assumes "mgr_inv w" and "register env i profile exec w = (r, w')"
  shows "case r of
      Inl _ \<Rightarrow> w' = w\<lparr>w_os := w_os w'\<rparr>
    | Inr _ \<Rightarrow> validate_id i = Inr () \<and> agent_at w i = None \<and>
        \<not> (0 < env_max_agents env \<and> env_max_agents env \<le> int (length (w_agents w))) \<and>
        agent_at w' = (agent_at w)(i \<mapsto> new_runtime
          (register_record i profile (workspace_path (env_workspace_root env) i) (env_now env (w_clock w))) exec) \<and>
        get_agent i (w_eng w') =
          Some (register_record i profile (workspace_path (env_workspace_root env) i) (env_now env (w_clock w)))"
proof (cases r)
  case (Inl e)
  with register_effect [OF assms] show ?thesis by simp
next
  case (Inr a)
  have "mgr_inv w'" using register_inv [OF assms(1), of env i profile exec] assms(2) by simp
  then have g: "get_agent i (w_eng w') = map_option policy_view (agent_at w' i)" by (simp add: mgr_inv_def)
  from Inr register_effect [OF assms] show ?thesis
    by (simp add: g policy_view_new) (simp add: policy_view_def register_record_def)
qed

text \<open>
  C2. The manager refines the lifecycle of an agent: after any operation every agent is in the state the
  state machine gives for the agent's old state and for what the disk and the bus answered (was the
  registration accepted, what did systemd report of the job, did it take the signal, does the registry
  file list the agent). An operation aimed at another agent changes nothing.
\<close>

theorem lifecycle_refinement:
  assumes "mgr_inv w"
  shows "state_of (apply_op env op w) j = lifecycle (event_for env op w j) (state_of w j)"
  using assms by (rule apply_op_lifecycle)

lemma lifecycle_refinement_witness:
  "state_of (apply_op sample_env (OpStop ''a1'') (world_with StateRunning)) ''a1'' = Some StateStopped
   \<and> state_of (apply_op sample_env (OpKill ''a1'' ''x'') (world_with StateRunning)) ''a1'' = Some StateKilled"
  using lifecycle_refinement [OF world_with_inv, of sample_env "OpStop ''a1''" StateRunning "''a1''"]
    lifecycle_refinement [OF world_with_inv, of sample_env "OpKill ''a1'' ''x''" StateRunning "''a1''"]
  by (simp add: world_with_at sample_env_def sample_conn_def del: apply_op.simps)

definition two_entries :: string where
  "two_entries = json_marshal_indent (the (registry_json
     [zero_entry\<lparr>re_id := ''a1''\<rparr>, zero_entry\<lparr>re_id := ''a2''\<rparr>, zero_entry\<lparr>re_id := ''../x''\<rparr>]))"

lemma restore_ignores_limit_witness:
  "env_max_agents sample_env = 2 \<and>
   length (w_agents (snd (load_persisted_agents sample_env (sample_world\<lparr>w_os :=
     put_node [''v'', ''registry.json''] (FileNode 0 two_entries) sample_fs\<rparr>)))) = 3"
proof -
  let ?s = "put_node [''v'', ''registry.json''] (FileNode 0 two_entries) sample_fs"
  let ?es = "[zero_entry\<lparr>re_id := ''a1''\<rparr>, zero_entry\<lparr>re_id := ''a2''\<rparr>, zero_entry\<lparr>re_id := ''../x''\<rparr>]"
  have "\<exists>d. registry_json ?es = Some d"
    by (simp add: registry_json_def entry_json_def time_marshal_def zero_entry_def zero_time_def time_printable_def)
  then obtain d where d: "registry_json ?es = Some d" by blast
  have "resolve (registry_file_path ''/v'') = [''v'', ''registry.json'']" by code_simp
  then have c: "os_content ?s (resolve (registry_file_path ''/v'')) = Some (json_marshal_indent d)"
    by (simp add: os_content_def two_entries_def d)
  have "list_all entry_ok ?es"
    by (simp add: entry_ok_def utf8_ok_ascii ascii_lits zero_entry_def zero_time_def time_wf_def days_in_def)
  moreover have "quiet ?s" by (simp add: quiet_def sample_fs_def put_node_def)
  ultimately have l: "fst (load_registry ''/v'' ?s) = Inr ?es" using load_of_content [OF _ c d] by blast
  then show ?thesis
    using restore_ignores_limit [of sample_env "sample_world\<lparr>w_os := ?s\<rparr>" ?es]
    by (simp add: sample_env_def sample_world_def new_manager_def)
qed

lemma sample_register: "\<exists>a w'. register sample_env ''a1'' profile x sample_world = (Inr a, w')"
proof -
  have v: "validate_id ''a1'' = Inr ()" by code_simp
  have "is_ok (fst (provision_workspace ''/v'' ''a1'' sample_fs))" by code_simp
  then obtain path s where "provision_workspace ''/v'' ''a1'' sample_fs = (Inr path, s)" by (blast dest: is_ok_fst)
  then show ?thesis
    by (cases "register_new sample_env ''a1'' profile x path (sample_world\<lparr>w_os := s\<rparr>)")
      (simp add: register_def v, simp add: sample_env_def sample_world_def new_manager_def)
qed

lemma register_outcome_witness:
  "\<exists>a w'. register sample_env ''a1'' ''developer'' ''/bin/x'' sample_world = (Inr a, w') \<and>
     state_of w' ''a1'' = Some StateRegistered"
proof -
  obtain a w' where r: "register sample_env ''a1'' ''developer'' ''/bin/x'' sample_world = (Inr a, w')"
    using sample_register by blast
  with register_outcome [OF sample_world_inv r] show ?thesis by (simp add: state_of_def)
qed

text \<open>
  C20. \<open>Start\<close>: an unknown, running or starting agent is refused and nothing changes at all, in
  particular the bus is not asked. For any other agent the reply of systemd decides: the agent ends up
  running with its start time, and \<open>Start\<close> returns no error, exactly when the job is reported \<open>done\<close>;
  it is failed, and the error names the cause, when systemd refuses the unit or reports anything else;
  and it is starting, for ever, while nothing is reported. No other agent changes.
\<close>

theorem start_outcome:
  assumes "mgr_inv w" and "start env i w = (r, w')"
  shows "case agent_at w i of
      None \<Rightarrow> r = Returned (Inl (NotRegistered i)) \<and> w' = w
    | Some ra \<Rightarrow>
        if ra_state ra = StateRunning \<or> ra_state ra = StateStarting
        then r = Returned (Inl (AlreadyIs i (ra_state ra))) \<and> w' = w
        else (case start_reply env ra w of
            Inr Blocked \<Rightarrow> r = Blocked \<and> agent_at w' = (agent_at w)(i \<mapsto> ra\<lparr>ra_state := StateStarting\<rparr>)
          | Inl e \<Rightarrow> r = Returned (Inl (StartingSandbox (StartingTransientUnit (systemd_unit_name i) e)))
              \<and> agent_at w' = (agent_at w)(i \<mapsto> ra\<lparr>ra_state := StateFailed\<rparr>)
          | Inr (Returned res) \<Rightarrow>
              if res = ''done''
              then r = Returned (Inr ()) \<and> agent_at w' = (agent_at w)(i \<mapsto> running_agent (env_now env (w_clock w)) ra)
              else r = Returned (Inl (StartingSandbox (JobFinishedWith (systemd_unit_name i) res)))
                \<and> agent_at w' = (agent_at w)(i \<mapsto> ra\<lparr>ra_state := StateFailed\<rparr>))"
proof (cases "agent_at w i")
  case (Some ra)
  show ?thesis
  proof (cases "ra_state ra = StateRunning \<or> ra_state ra = StateStarting")
    case False
    with start_result [OF assms(1) Some, of env] start_entered [OF assms Some] assms(2) Some show ?thesis
      by (cases "start_reply env ra w" rule: report_of.cases) auto
  qed (use start_effect [OF assms] Some in simp)
qed (use start_effect [OF assms] in simp)

lemma start_outcome_witness:
  "state_of (snd (start (sample_env\<lparr>env_conn := sample_conn\<lparr>cn_start_transient_unit :=
     (\<lambda>u m ps s. (Inr (Returned ''failed''), s))\<rparr>\<rparr>) ''a1'' (world_with StateStopped))) ''a1'' = Some StateFailed"
proof -
  let ?env = "sample_env\<lparr>env_conn := sample_conn\<lparr>cn_start_transient_unit := (\<lambda>u m ps s. (Inr (Returned ''failed''), s))\<rparr>\<rparr>"
  obtain r w' where st: "start ?env ''a1'' (world_with StateStopped) = (r, w')" by fastforce
  have "start_reply ?env ra w = Inr (Returned ''failed'')" for ra w by (simp add: start_reply_def)
  with start_outcome [OF world_with_inv st] st show ?thesis by (simp add: world_with_at)
qed

text \<open>
  C33. A stop that fails or never hears from systemd leaves the agent in state stopping, and an agent
  in that state can no longer be unregistered, although its unit may well be gone.
\<close>

theorem failed_stop_locks_agent:
  assumes "mgr_inv w" and "stop env i w = (r, w')" and "agent_at w i \<noteq> None" and "r \<noteq> Returned (Inr ())"
  shows "state_of w' i = Some StateStopping \<and>
    unregister env i purge w' = (Inl (MustStopFirst i StateStopping), w')"
proof -
  obtain ra where ra: "agent_at w i = Some ra" using assms(3) by blast
  have "agent_at w' = (agent_at w)(i \<mapsto> ra\<lparr>ra_state := StateStopping\<rparr>)"
    using stop_effect [OF assms(1,2)] ra assms(4) by (auto split: call.splits sum.splits)
  then show ?thesis by (simp add: state_of_def unregister_def)
qed

lemma failed_stop_locks_agent_witness:
  "state_of (snd (stop (sample_env\<lparr>env_conn := sample_conn\<lparr>cn_stop_unit := (\<lambda>u m s. (Inl ''no such unit'', s))\<rparr>\<rparr>)
      ''a1'' (world_with StateRegistered))) ''a1'' = Some StateStopping"
proof -
  let ?env = "sample_env\<lparr>env_conn := sample_conn\<lparr>cn_stop_unit := (\<lambda>u m s. (Inl ''no such unit'', s))\<rparr>\<rparr>"
  obtain r w' where s: "stop ?env ''a1'' (world_with StateRegistered) = (r, w')" by fastforce
  have "\<not> (r = Returned (Inr ()))"
    using s by (cases rule: stop_cases) (auto simp: stop_agent_def Let_def)
  with failed_stop_locks_agent [OF world_with_inv s, of False] s show ?thesis by (simp add: world_with_at)
qed

text \<open>
  The limits \<open>docs/agent-profiles.md\<close> promises for each profile: memory in mebibytes, processor time in
  per cent, tasks, and whether there is a network. Other profiles get those of the minimal one.
\<close>

definition documented_limits :: "string \<Rightarrow> nat \<times> nat \<times> nat \<times> bool" where
  "documented_limits p =
     (if p = ''infrastructure'' then (2048, 200, 256, True)
      else if p = ''developer'' then (1024, 150, 128, True)
      else (256, 50, 32, False))"

text \<open>The values of a numeric property of a unit, and a unit that keeps to the documented limits.\<close>

definition quantity :: "string \<Rightarrow> unit_property list \<Rightarrow> nat list" where
  "quantity name ps =
     List.map_filter (\<lambda>q. case q of Prop n (VUint64 v) \<Rightarrow> (if n = name then Some (unat v) else None) | _ \<Rightarrow> None) ps"

definition keeps_limits :: "string \<Rightarrow> unit_property list \<Rightarrow> bool" where
  "keeps_limits profile ps \<longleftrightarrow>
     (case documented_limits profile of (mib, percent, tasks, network) \<Rightarrow>
        quantity ''MemoryMax'' ps = [mib * 1048576] \<and> quantity ''CPUQuotaPerSecUSec'' ps = [percent * 10000]
        \<and> quantity ''TasksMax'' ps = [tasks]
        \<and> filter (\<lambda>q. case q of Prop n v \<Rightarrow> n = ''PrivateNetwork'' | _ \<Rightarrow> False) ps
            = [Prop ''PrivateNetwork'' (VBool (\<not> network))])"

text \<open>A bus that refuses every unit with other properties.\<close>

definition strict_bus :: "(unit_property list \<Rightarrow> bool) \<Rightarrow> 'e \<Rightarrow> ('s, 'e) dbus_conn \<Rightarrow> ('s, 'e) dbus_conn" where
  "strict_bus ok e conn = conn\<lparr>cn_start_transient_unit :=
     (\<lambda>u m ps s. if ok ps then cn_start_transient_unit conn u m ps s else (Inl e, s))\<rparr>"

lemma unit_keeps_limits: "keeps_limits p (unit_properties (start_config i x ws p))"
  by (simp add: keeps_limits_def documented_limits_def quantity_def unit_properties_def start_config_def
      default_sandbox_config_def Let_def uint64_def map_filter_simps)

lemma strict_start_agent:
  assumes "ok (unit_properties cfg)"
  shows "start_agent (strict_bus ok e conn) cfg s = start_agent conn cfg s"
proof -
  have same: "cn_get_unit_properties (strict_bus ok e conn) = cn_get_unit_properties conn"
      "cn_reset_failed_unit (strict_bus ok e conn) = cn_reset_failed_unit conn"
    by (simp_all add: strict_bus_def)
  have "reset_stale (strict_bus ok e conn) u s = reset_stale conn u s" for u s
    unfolding reset_stale_def same ..
  with assms show ?thesis by (simp add: start_agent_def) (simp add: strict_bus_def)
qed

text \<open>
  C37. Agents run within the limits documented for their profile: memory, processor time, tasks and
  network reach systemd as documented, without wrapping around, and an unknown profile gets the limits
  of the minimal one. So a bus that refuses every unit with other limits than those documented for the
  agent's profile makes no difference to a start, whatever the bus, the agent and its state are.
\<close>

theorem profile_limits:
  fixes env :: "('s, 'e, 'q, 'r) env"
  assumes "mgr_inv w" and "agent_at w i = Some ra"
  shows "start (env\<lparr>env_conn := strict_bus (keeps_limits (ar_profile ra)) e (env_conn env)\<rparr>) i w = start env i w"
proof -
  let ?cfg = "start_config i (exec_start ra) (ar_workspace_path ra) (ar_profile ra)"
  let ?env = "env\<lparr>env_conn := strict_bus (keeps_limits (ar_profile ra)) e (env_conn env)\<rparr>"
  have same: "start_agent (env_conn ?env) ?cfg = start_agent (env_conn env) ?cfg"
      "start_audit ?env = start_audit env" "start_commit ?env = start_commit env"
    by (rule ext, simp add: strict_start_agent unit_keeps_limits)
      (simp_all add: fun_eq_iff start_audit_def start_commit_def audit_lifecycle_def read_clock_def)
  note enter = start_enter_result [OF assms(1), of i, where 'e = 'e, unfolded assms(2) option.case]
  show ?thesis
  proof (cases "ra_state ra = StateRunning \<or> ra_state ra = StateStarting")
    case True
    with enter show ?thesis by (simp add: start_def)
  next
    case False
    then have e: "start_enter i w = (Inr (the (map_of (w_agents w) i), ?cfg) :: 'e manager_error + _,
        set_state (the (map_of (w_agents w) i)) StateStarting w)" using enter by (simp only: if_False)
    show ?thesis unfolding start_def e prod.case sum.case same ..
  qed
qed

lemma profile_limits_witness:
  "fst (start (sample_env\<lparr>env_conn := strict_bus (keeps_limits ''minimal'') ''refused'' (env_conn sample_env)\<rparr>)
     ''a1'' (world_with StateStopped)) = Returned (Inr ())"
proof -
  let ?w = "world_with StateStopped"
  have "fst (start sample_env ''a1'' ?w) = Returned (Inr ())"
    using start_result [OF world_with_inv world_with_at(1), of StateStopped sample_env]
    by (simp add: start_reply_def) (simp add: sample_env_def sample_conn_def)
  moreover have "ar_profile ((new_runtime (register_record ''a1'' ''minimal'' ''/v/a1/workspace'' sample_time) ''/bin/x'')
      \<lparr>ra_state := StateStopped\<rparr>) = ''minimal''" by (simp add: register_record_def)
  ultimately show ?thesis
    using profile_limits [OF world_with_inv world_with_at(1), where env = sample_env and e = "''refused''"] by simp
qed

text \<open>
  C7. Every change of an agent is on the audit trail: registering, unregistering, starting, stopping
  and killing add exactly one event, naming the agent and what happened, when they succeed, and none
  when they fail.
\<close>

theorem operations_audited:
  assumes "clock_ok env" and "lg_journal_enabled (w_log w)"
  shows "(case register env i p x w of (r, w') \<Rightarrow>
        if is_ok r then audited AgentRegistered i (''agent '' @ i @ '' registered with profile '' @ p) w w' else unaudited w w')
    \<and> (case unregister env i purge w of (r, w') \<Rightarrow>
        if is_ok r then audited AgentUnregistered i (''agent '' @ i @ '' unregistered (purge='' @ bool_str purge @ '')'') w w'
        else unaudited w w')
    \<and> (case start env i w of (r, w') \<Rightarrow> if r = Returned (Inr ())
        then \<exists>q. audited AgentStarted i (''agent '' @ i @ '' started with profile '' @ q) w w' else unaudited w w')
    \<and> (case stop env i w of (r, w') \<Rightarrow>
        if r = Returned (Inr ()) then audited AgentStopped i (''agent '' @ i @ '' stopped'') w w' else unaudited w w')
    \<and> (case kill env i reason w of (r, w') \<Rightarrow>
        if is_ok r then audited AgentKilled i (''agent '' @ i @ '' killed: '' @ reason) w w' else unaudited w w')"
  by (intro conjI case_prodI2)
    (erule register_trail [OF assms] unregister_trail [OF assms] start_trail [OF assms] stop_trail [OF assms] kill_trail [OF assms])+

lemma operations_audited_witness:
  "case kill sample_env ''a1'' ''x'' (world_with StateRunning) of (r, w') \<Rightarrow>
     if is_ok r then audited AgentKilled ''a1'' (''agent '' @ ''a1'' @ '' killed: '' @ ''x'') (world_with StateRunning) w'
     else unaudited (world_with StateRunning) w'"
proof -
  have c: "clock_ok sample_env" "lg_journal_enabled (w_log (world_with StateRunning))"
    by (simp_all add: sample_logger_def)
  from operations_audited [OF c, where i = "''a1''" and reason = "''x''" and p = "[]" and x = "[]" and purge = False]
  show ?thesis by (elim conjE)
qed

text \<open>
  C14. What unregistering deletes. Apart from the registry file and its temporary file, it touches
  nothing without \<open>purge\<close>, and with \<open>purge\<close> only the directory above the workspace path the agent's
  record holds (for an agent restored from the registry file: whatever path that file says). When that
  path is the workspace of the identifier, as it is after \<open>Register\<close>, the directory is the agent's own,
  and on a working disk everything in it is gone afterwards.
\<close>

theorem unregister_contained:
  assumes "unregister env i purge w = (Inr u, w')" and "agent_at w i = Some ra" and "env_workspace_root env \<noteq> []"
  shows "let root = resolve (env_workspace_root env); dir = resolve (path_dir (ar_workspace_path ra)) in
    (\<forall>q. (purge \<longrightarrow> \<not> prefix dir q) \<longrightarrow> q \<notin> {root @ [''registry.json''], root @ [''registry.json.tmp'']} \<longrightarrow>
        os_look (w_os w') q = os_look (w_os w) q)
    \<and> (valid_id i \<and> ar_workspace_path ra = workspace_path (env_workspace_root env) i \<longrightarrow>
        dir = root @ [i] \<and> (purge \<and> quiet (w_os w) \<longrightarrow> (\<forall>q. prefix dir q \<longrightarrow> os_look (w_os w') q = None)))"
proof -
  let ?root = "env_workspace_root env" and ?dir = "path_dir (ar_workspace_path ra)"
  let ?v = "w\<lparr>w_agents := AList.delete i (w_agents w), w_eng := unregister_agent i (w_eng w)\<rparr>"
  let ?s = "w_os (snd (persist env ?v))"
  have w': "w_os w' = (if purge then snd (os_remove_all ?dir ?s) else ?s)"
    using assms(1,2) by (auto simp: unregister_def unregister_known_os Let_def split: if_splits)
  have "resolve ?dir = resolve ?root @ [i] \<and>
      (purge \<and> quiet (w_os w) \<longrightarrow> (\<forall>q. prefix (resolve ?dir) q \<longrightarrow> os_look (w_os w') q = None))"
    if own: "valid_id i" "ar_workspace_path ra = workspace_path ?root i"
  proof (intro conjI impI allI)
    show dir: "resolve ?dir = resolve ?root @ [i]"
      using resolve_dir_workspace_path [OF assms(3) own(1)] own(2) by simp
    fix q
    assume p: "purge \<and> quiet (w_os w)" and q: "prefix (resolve ?dir) q"
    have name: "?dir \<noteq> []" "\<not> ends_with_dot ?dir" using agent_dir_name [OF assms(3) own(1)] own(2) by simp_all
    have "quiet ?s" using p by (simp add: quiet_def persist_os)
    then obtain s' where s': "os_remove_all ?dir ?s = (Inr (), s')" using remove_all_works [OF _ name] by blast
    have "q \<noteq> []" using q dir by auto
    from remove_all_gone [OF s' name(1) this q] p show "os_look (w_os w') q = None" by (simp add: w' s')
  qed
  moreover have "os_look (w_os w') q = os_look ?s q" if "purge \<longrightarrow> \<not> prefix (resolve ?dir) q" for q
    using that remove_all_outside [of ?dir q ?s] by (auto simp: w')
  ultimately show ?thesis using persist_os_frame [OF assms(3), of _ ?v] by (simp add: Let_def)
qed

text \<open>
  C10. What was registered when the registry was last saved is registered after a restart, with the
  same profile, workspace, executable and registration time, in state registered; nothing else is.
\<close>

theorem restart_restores:
  assumes "mgr_inv w" and "\<forall>n ids. set (env_order env n ids) = set ids" and "env_workspace_root env \<noteq> []"
    and "\<forall>j ra. agent_at w j = Some ra \<longrightarrow> entry_ok (entry_of ra)" and "persist env w = (Inr u, w')"
    and "engine_wf e" and "eng_agents e = []"
    and "load_persisted_agents env (new_manager (restart (w_os w')) sys lg e c) = (r, v)"
  shows "r = Inr () \<and> agent_at v i = map_option restored (agent_at w i)"
proof -
  obtain s where sv: "save_registry (env_workspace_root env) (fst (iterate env w)) (w_os w) = (Inr u, s)" "w_os w' = s"
    using assms(5) by (auto simp: persist_def iterate_def Let_def split: prod.splits)
  have "list_all (\<lambda>a. entry_ok (entry_of a)) (fst (iterate env w))"
    using assms(4) by (auto simp: list_all_iff iterate_mem)
  from saved_loads [OF sv(1) assms(3) this] sv(2)
  have "fst (load_registry (env_workspace_root env) (w_os (new_manager (restart (w_os w')) sys lg e c)))
      = Inr (map entry_of (fst (iterate env w)))" by (simp add: new_manager_def)
  moreover have "mgr_inv (new_manager (restart (w_os w')) sys lg e c)" using assms(6,7) by (rule new_manager_inv)
  moreover have "w_agents (new_manager (restart (w_os w')) sys lg e c) = []" by (simp add: new_manager_def)
  ultimately show ?thesis using assms(1,2,8) by (intro load_restores [where env = env]) auto
qed


lemma unregister_contained_witness:
  "(let w = (world_with StateKilled)\<lparr>w_os := put_node [''v'', ''a1'', ''agent.id''] (FileNode 0 ''a1'') sample_fs\<rparr>;
       w' = snd (unregister sample_env ''a1'' True w :: (string manager_error + unit) \<times> _)
    in os_look (w_os w) [''v'', ''a1'', ''agent.id''] \<noteq> None \<and> os_look (w_os w') [''v'', ''a1'', ''agent.id''] = None \<and>
       os_look (w_os w') [''v''] = Some (DirNode 0))"
proof -
  let ?w = "(world_with StateKilled)\<lparr>w_os := put_node [''v'', ''a1'', ''agent.id''] (FileNode 0 ''a1'') sample_fs\<rparr>"
  obtain r w' where u: "unregister sample_env ''a1'' True ?w = (r :: string manager_error + unit, w')" by fastforce
  have at: "agent_at ?w ''a1'' =
      Some ((new_runtime (register_record ''a1'' ''minimal'' ''/v/a1/workspace'' sample_time) ''/bin/x'')\<lparr>ra_state := StateKilled\<rparr>)"
    by (simp add: world_with_at)
  have r: "r = Inr ()" using u at by (simp add: unregister_def)
  have root: "env_workspace_root sample_env = ''/v''" "resolve ''/v'' = [''v'']" "valid_id ''a1''"
    and ws: "workspace_path ''/v'' ''a1'' = ''/v/a1/workspace''"
    by (simp add: sample_env_def, code_simp, code_simp, code_simp)
  have "quiet (w_os ?w)" by (simp add: quiet_def put_node_def sample_fs_def)
  with unregister_contained [OF u [unfolded r] at, unfolded Let_def] u show ?thesis
    by (simp add: root ws register_record_def) (simp add: sample_fs_def os_look_def)
qed

lemma sample_persist: "\<exists>u w'. persist sample_env (world_with StateRunning) = (Inr u, w')"
proof -
  let ?w = "world_with StateRunning" and ?ra = "(new_runtime (register_record ''a1'' ''minimal'' ''/v/a1/workspace'' sample_time) ''/bin/x'')
    \<lparr>ra_state := StateRunning\<rparr>"
  have "env_order sample_env (w_iters ?w) (map fst (w_agents ?w)) = [''a1'']"
    by (simp add: sample_env_def world_with_def set_state_def modify_agent_def install_def register_record_def
        sample_world_def new_manager_def)
  then have it: "fst (iterate sample_env ?w) = [?ra]" by (simp add: iterate_def world_with_at map_filter_simps)
  have "w_os ?w = sample_fs"
    by (simp add: world_with_def sample_world_def new_manager_def set_state_def modify_agent_def install_def)
  moreover have "is_ok (fst (save_registry ''/v'' [?ra] sample_fs))" by code_simp
  ultimately show "\<exists>u w'. persist sample_env ?w = (Inr u, w')"
    using is_ok_fst [of "save_registry ''/v'' [?ra] sample_fs"] it
    by (auto simp: persist_def sample_env_def case_prod_unfold Let_def iterate_def)
qed

lemma restart_restores_witness:
  "\<exists>w' r v. persist sample_env (world_with StateRunning) = (Inr (), w') \<and>
     load_persisted_agents sample_env (new_manager (restart (w_os w')) 0 sample_logger bare_engine 0) = (r, v) \<and>
     state_of v ''a1'' = Some StateRegistered"
proof -
  let ?w = "world_with StateRunning" and ?ra = "(new_runtime (register_record ''a1'' ''minimal'' ''/v/a1/workspace'' sample_time) ''/bin/x'')
    \<lparr>ra_state := StateRunning\<rparr>"
  obtain u w' where p: "persist sample_env ?w = (Inr u, w')" using sample_persist by blast
  obtain r v where l: "load_persisted_agents sample_env (new_manager (restart (w_os w')) 0 sample_logger bare_engine 0) = (r, v)"
    by fastforce
  have e: "entry_ok (entry_of ?ra)"
    by (simp add: entry_of_def entry_ok_def utf8_ok_ascii ascii_lits register_record_def sample_time_def
        zero_time_def time_wf_def days_in_def)
  have ok: "\<forall>j ra. agent_at ?w j = Some ra \<longrightarrow> entry_ok (entry_of ra)"
  proof (intro allI impI)
    fix j ra assume a: "agent_at ?w j = Some ra"
    then have "j = ''a1''" by (rule world_with_other)
    with a e show "entry_ok (entry_of ra)" by (simp add: world_with_at)
  qed
  have "\<forall>n ids. set (env_order sample_env n ids) = set ids" "env_workspace_root sample_env \<noteq> []"
    by (simp_all add: sample_env_def)
  from restart_restores [OF world_with_inv this ok p bare_engine_wf l, of "''a1''"] p l show ?thesis
    by (auto simp: state_of_def world_with_at restored_def)
qed


end
