(* ===== verification/Concurrency.thy ===== *)
theory Concurrency
  imports ManagerProps
begin

text \<open>
  The manager under concurrent requests. Each request is served by a goroutine of its own; \<open>Start\<close>, \<open>Stop\<close>
  and \<open>Kill\<close> hold the manager's lock only around parts of their work, so that the parts of several
  requests interleave. A state is a world and the goroutines in progress, each at the boundary of two
  parts; a step lets one request begin or one goroutine do its next part. (The reading of the clock
  belongs to the part after it. The other operations hold the lock throughout.)
\<close>

section \<open>Goroutines in progress\<close>

datatype task =
    TStart string nat sandbox_config
  | TStartFailed nat
  | TStarted string nat sandbox_config
  | TStartAudit string string
  | TStop string nat
  | TStopped string nat
  | TStopAudit string
  | TKill string string
  | TKilled string string
  | TKillAudit string string

text \<open>The first part of an operation.\<close>

definition begin_start :: "string \<Rightarrow> ('s, 'q) world \<Rightarrow> task list \<times> ('s, 'q) world" where
  "begin_start i w =
     (case (start_enter i w :: (unit manager_error + nat \<times> sandbox_config) \<times> ('s, 'q) world) of
        (Inl _, w1) \<Rightarrow> ([], w1)
      | (Inr (a, cfg), w1) \<Rightarrow> ([TStart i a cfg], w1))"

definition begin_stop :: "string \<Rightarrow> ('s, 'q) world \<Rightarrow> task list \<times> ('s, 'q) world" where
  "begin_stop i w =
     (case (stop_enter i w :: (unit manager_error + nat) \<times> ('s, 'q) world) of
        (Inl _, w1) \<Rightarrow> ([], w1)
      | (Inr a, w1) \<Rightarrow> ([TStop i a], w1))"

fun begin_op :: "('s, 'e, 'q, 'r) env \<Rightarrow> manager_op \<Rightarrow> ('s, 'q) world \<Rightarrow> task list \<times> ('s, 'q) world" where
  "begin_op env (OpStart i) w = begin_start i w"
| "begin_op env (OpStop i) w = begin_stop i w"
| "begin_op env (OpKill i reason) w = ([TKill i reason], w)"
| "begin_op env op w = ([], apply_op env op w)"

text \<open>The next part; a goroutine that waits for systemd for ever never comes back.\<close>

fun advance :: "('s, 'e, 'q, 'r) env \<Rightarrow> task \<Rightarrow> ('s, 'q) world \<Rightarrow> task list \<times> ('s, 'q) world" where
  "advance env (TStart i a cfg) w =
     (let (r, sys) = start_agent (env_conn env) cfg (w_sys w); w1 = w\<lparr>w_sys := sys\<rparr> in
      case r of
        Blocked \<Rightarrow> ([], w1)
      | Returned (Inl e) \<Rightarrow> ([TStartFailed a], w1)
      | Returned (Inr _) \<Rightarrow> ([TStarted i a cfg], w1))"
| "advance env (TStartFailed a) w = ([], set_state a StateFailed w)"
| "advance env (TStarted i a cfg) w = ([TStartAudit i (sc_profile cfg)], start_commit env a w)"
| "advance env (TStartAudit i p) w = ([], start_audit env i p w)"
| "advance env (TStop i a) w =
     (let (r, sys) = stop_agent (env_conn env) i (w_sys w); w1 = w\<lparr>w_sys := sys\<rparr> in
      case r of
        Returned (Inr _) \<Rightarrow> ([TStopped i a], w1)
      | _ \<Rightarrow> ([], w1))"
| "advance env (TStopped i a) w = ([TStopAudit i], stop_commit env a w)"
| "advance env (TStopAudit i) w = ([], stop_audit env i w)"
| "advance env (TKill i reason) w =
     (case kill_agent (env_conn env) i (w_sys w) of
        (Inl e, _, sys) \<Rightarrow> ([], w\<lparr>w_sys := sys\<rparr>)
      | (Inr _, resets, sys) \<Rightarrow> ([TKilled i reason], w\<lparr>w_sys := sys, w_resets := w_resets w @ resets\<rparr>))"
| "advance env (TKilled i reason) w = ([TKillAudit i reason], kill_commit env i reason w)"
| "advance env (TKillAudit i reason) w = ([], kill_audit env i reason w)"

text \<open>The steps, restricted to operations that may begin.\<close>

inductive conc_step ::
    "('s, 'e, 'q, 'r) env \<Rightarrow> (manager_op \<Rightarrow> bool) \<Rightarrow> ('s, 'q) world \<times> task list \<Rightarrow> ('s, 'q) world \<times> task list \<Rightarrow> bool"
  for env :: "('s, 'e, 'q, 'r) env" and allowed :: "manager_op \<Rightarrow> bool" where
  Begins: "allowed op \<Longrightarrow> begin_op env op w = (ts, w') \<Longrightarrow> conc_step env allowed (w, pend) (w', pend @ ts)"
| Advances: "advance env t w = (ts, w') \<Longrightarrow> conc_step env allowed (w, xs @ t # ys) (w', xs @ ts @ ys)"

section \<open>Reachable states\<close>

text \<open>A relation whose steps keep an invariant, and the states it leads to.\<close>

locale transition_system =
  fixes step :: "'c \<Rightarrow> 'c \<Rightarrow> bool" and good :: "'c \<Rightarrow> bool"
  assumes step_good: "step c c' \<Longrightarrow> good c \<Longrightarrow> good c'"
begin

lemma reachable_good: "step\<^sup>*\<^sup>* c c' \<Longrightarrow> good c \<Longrightarrow> good c'"
  by (induction rule: rtranclp_induct) (auto intro: step_good)

end

section \<open>Every interleaving keeps the invariant\<close>

lemma begin_op_inv: "mgr_inv w \<Longrightarrow> begin_op env op w = (ts, w') \<Longrightarrow> mgr_inv w'"
proof (cases op)
  case (OpStart i)
  assume "mgr_inv w" "begin_op env op w = (ts, w')"
  with OpStart start_enter_inv [of w i, where 'c = unit] show ?thesis
    by (auto simp: begin_start_def split: prod.splits sum.splits)
next
  case (OpStop i)
  assume "mgr_inv w" "begin_op env op w = (ts, w')"
  with OpStop stop_enter_inv [of w i, where 'c = unit] show ?thesis
    by (auto simp: begin_stop_def split: prod.splits sum.splits)
qed (use apply_op_inv [of w env op] in auto)

lemma advance_inv: "mgr_inv w \<Longrightarrow> advance env t w = (ts, w') \<Longrightarrow> mgr_inv w'"
  by (cases t)
    (auto simp: start_audit_def stop_audit_def kill_audit_def Let_def split: prod.splits sum.splits call.splits)

lemma conc_step_inv: "conc_step env allowed c c' \<Longrightarrow> mgr_inv (fst c) \<Longrightarrow> mgr_inv (fst c')"
  by (induction rule: conc_step.induct) (auto dest: begin_op_inv advance_inv)

interpretation interleaved: transition_system "conc_step env allowed" "\<lambda>c. mgr_inv (fst c)" for env allowed
  by unfold_locales (rule conc_step_inv)

section \<open>Starting is exclusive\<close>

text \<open>
  A goroutine that is on its way to start an agent, and the operations that begin and end nothing
  but starts.
\<close>

fun start_target :: "task \<Rightarrow> nat option" where
  "start_target (TStart i a cfg) = Some a"
| "start_target (TStartFailed a) = Some a"
| "start_target (TStarted i a cfg) = Some a"
| "start_target _ = None"

fun only_starts :: "manager_op \<Rightarrow> bool" where
  "only_starts (OpStop i) = False"
| "only_starts (OpKill i reason) = False"
| "only_starts _ = True"

fun start_task :: "task \<Rightarrow> bool" where
  "start_task (TStartAudit i p) = True"
| "start_task t = (start_target t \<noteq> None)"

definition starts_under_way :: "task list \<Rightarrow> nat list" where
  "starts_under_way pend = List.map_filter start_target pend"

lemma starts_under_way_simps [simp]:
  "starts_under_way [] = []"
  "starts_under_way (t # ts) = (case start_target t of None \<Rightarrow> [] | Some a \<Rightarrow> [a]) @ starts_under_way ts"
  "starts_under_way (xs @ ys) = starts_under_way xs @ starts_under_way ys"
  by (auto simp: starts_under_way_def List.map_filter_def split: option.split)

text \<open>Whoever is being started is in state starting and its pointer is one that was handed out.\<close>

definition starts_ok :: "('s, 'q) world \<times> task list \<Rightarrow> bool" where
  "starts_ok c \<longleftrightarrow>
     list_all start_task (snd c) \<and> distinct (starts_under_way (snd c))
     \<and> list_all (\<lambda>a. a < w_next (fst c) \<and> map_option ra_state (w_heap (fst c) a) = Some StateStarting)
         (starts_under_way (snd c))"

text \<open>Operations that neither start, stop nor kill leave the agents there are as they are.\<close>

definition heap_grows :: "('s, 'q) world \<Rightarrow> ('s, 'q) world \<Rightarrow> bool" where
  "heap_grows w w' \<longleftrightarrow> w_next w \<le> w_next w' \<and> (\<forall>a < w_next w. w_heap w' a = w_heap w a)"

lemma heap_grows_refl [simp]: "heap_grows w w"
  by (simp add: heap_grows_def)

lemma heap_grows_trans: "heap_grows u v \<Longrightarrow> heap_grows v w \<Longrightarrow> heap_grows u w"
  by (auto simp: heap_grows_def)

lemma heap_grows_same: "w_next w' = w_next w \<Longrightarrow> w_heap w' = w_heap w \<Longrightarrow> heap_grows w w'"
  by (simp add: heap_grows_def)

lemma heap_grows_install: "heap_grows w (install r x w)"
  by (simp add: heap_grows_def install_def)

lemma heap_grows_restore: "heap_grows w (fold restore_entry es w)"
proof (induction es arbitrary: w)
  case (Cons e es)
  have "heap_grows w (restore_entry e w)" by (simp add: restore_entry_def heap_grows_install)
  then show ?case using Cons [of "restore_entry e w"] by (auto intro: heap_grows_trans)
qed simp

lemma heap_grows_audit: "heap_grows w v \<Longrightarrow> heap_grows w (audit_lifecycle env i ty m v)"
  by (erule heap_grows_trans) (simp add: heap_grows_same)

lemma heap_grows_persist: "heap_grows w v \<Longrightarrow> heap_grows w (snd (persist env v))"
  by (erule heap_grows_trans) (simp add: heap_grows_same)

lemma register_heap: "heap_grows w (snd (register env i p x w))"
proof -
  have "heap_grows v (snd (register_new env i p x path v))" for path v
  proof -
    have "heap_grows v (install r x (snd (read_clock env v)))" for r
      by (rule heap_grows_trans [OF heap_grows_same heap_grows_install]) simp_all
    then show ?thesis
      by (simp add: register_new_def Let_def case_prod_unfold heap_grows_audit heap_grows_persist)
  qed
  from heap_grows_trans [OF heap_grows_same this]
  have "heap_grows w (snd (register_new env i p x path (w\<lparr>w_os := s\<rparr>)))" for path s by simp
  then show ?thesis
    by (simp add: register_def heap_grows_same case_prod_unfold Let_def split: sum.split)
qed

lemma unregister_heap: "heap_grows w (snd (unregister env i purge w))"
  by (auto simp: unregister_def unregister_known_def Let_def heap_grows_same
      intro!: heap_grows_audit split: option.split)

lemma load_heap: "heap_grows w (snd (load_persisted_agents env w))"
proof -
  have "heap_grows w (fold restore_entry es (w\<lparr>w_os := s\<rparr>))" for es s
    by (rule heap_grows_trans [OF heap_grows_same heap_grows_restore]) simp_all
  then show ?thesis
    by (simp add: load_persisted_agents_def case_prod_unfold Let_def heap_grows_same split: sum.split)
qed

lemma reset_heap: "heap_grows w (run_reset env w)"
  by (simp add: run_reset_def heap_grows_same split: list.split)

lemmas heap_rules = register_heap unregister_heap load_heap reset_heap

lemma starts_ok_grows: "starts_ok (w, pend) \<Longrightarrow> heap_grows w w' \<Longrightarrow> starts_ok (w', pend)"
  by (auto simp: starts_ok_def heap_grows_def list_all_iff)

lemma begin_start_ok:
  assumes "starts_ok (w, pend)" and "mgr_inv w" and "begin_start i w = (ts, w')"
  shows "starts_ok (w', pend @ ts)"
proof -
  obtain r w1 where e: "start_enter i w = (r :: unit manager_error + nat \<times> sandbox_config, w1)" by fastforce
  show ?thesis
  proof (cases r)
    case (Inl x)
    then have "w1 = w" using e by (auto simp: start_enter_def split: option.splits if_splits)
    with Inl e assms show ?thesis by (simp add: begin_start_def)
  next
    case (Inr ac)
    then obtain a ra where a: "map_of (w_agents w) i = Some a" "w_heap w a = Some ra" "fst ac = a"
        "ra_state ra \<noteq> StateStarting" "w1 = set_state a StateStarting w"
      using e by (auto simp: start_enter_def split: option.splits if_splits)
    have "a < w_next w" using mgr_inv_agent [OF assms(2) a(1)] by blast
    moreover have "a \<notin> set (starts_under_way pend)"
      using assms(1) a(2,4) by (auto simp: starts_ok_def list_all_iff)
    moreover have "ts = [TStart i a (snd ac)]" "w' = w1"
      using assms(3) e Inr a(3) by (auto simp: begin_start_def case_prod_unfold)
    ultimately show ?thesis
      using assms(1) a(2,5) by (auto simp: starts_ok_def list_all_iff set_state_def modify_agent_def)
  qed
qed

lemma begin_op_ok:
  assumes "starts_ok (w, pend)" and "mgr_inv w" and "only_starts op" and "begin_op env op w = (ts, w')"
  shows "starts_ok (w', pend @ ts)"
proof (cases op)
  case (OpStart i)
  with assms show ?thesis by (simp add: begin_start_ok)
qed (use assms in \<open>auto intro!: starts_ok_grows [OF assms(1)] heap_rules\<close>)

lemma advance_ok:
  assumes "starts_ok (w, xs @ t # ys)" and "advance env t w = (ts, w')"
  shows "starts_ok (w', xs @ ts @ ys)"
proof (cases t)
  case (TStart i a cfg)
  with assms show ?thesis
    by (auto simp: starts_ok_def case_prod_unfold Let_def split: call.splits sum.splits)
next
  case (TStartFailed a)
  with assms show ?thesis by (auto simp: starts_ok_def list_all_iff set_state_def modify_agent_def)
next
  case (TStarted i a cfg)
  with assms show ?thesis
    by (auto simp: starts_ok_def list_all_iff start_commit_def case_prod_unfold Let_def modify_agent_def)
next
  case (TStartAudit i p)
  with assms show ?thesis by (auto simp: starts_ok_def start_audit_def)
qed (use assms in \<open>auto simp: starts_ok_def\<close>)

lemma conc_step_ok:
  "conc_step env only_starts c c' \<Longrightarrow> mgr_inv (fst c) \<Longrightarrow> starts_ok c \<Longrightarrow> starts_ok c'"
  by (induction rule: conc_step.induct) (auto intro: begin_op_ok advance_ok)

interpretation only_starting: transition_system "conc_step env only_starts" "\<lambda>c. mgr_inv (fst c) \<and> starts_ok c" for env
  by unfold_locales (auto intro: conc_step_inv conc_step_ok)

end
