(* ===== verification/ConcurrencyProps.thy ===== *)
theory ConcurrencyProps
  imports Concurrency
begin

text \<open>
  Properties of the manager under concurrent requests: the sequential operations are among the
  interleavings, all interleavings keep the invariant, starts exclude each other, and a kill and a
  start do not.
\<close>

section \<open>Schedules\<close>

lemma run_task: "advance env t w = (ts, w') \<Longrightarrow> (conc_step env allowed)\<^sup>*\<^sup>* (w', ts @ pend) c \<Longrightarrow>
  (conc_step env allowed)\<^sup>*\<^sup>* (w, t # pend) c"
  using Advances [of env t w ts w' allowed "[]" pend] by (auto intro: converse_rtranclp_into_rtranclp)

lemma run_second: "advance env t w = (ts, w') \<Longrightarrow> (conc_step env allowed)\<^sup>*\<^sup>* (w', u # ts) c \<Longrightarrow>
  (conc_step env allowed)\<^sup>*\<^sup>* (w, [u, t]) c"
  using Advances [of env t w ts w' allowed "[u]" "[]"] by (auto intro: converse_rtranclp_into_rtranclp)

lemma run_begin: "allowed op \<Longrightarrow> begin_op env op w = (ts, w') \<Longrightarrow>
  (conc_step env allowed)\<^sup>*\<^sup>* (w', pend @ ts) c \<Longrightarrow> (conc_step env allowed)\<^sup>*\<^sup>* (w, pend) c"
  by (rule converse_rtranclp_into_rtranclp, rule Begins)

lemma schedule_kill:
  assumes "advance env (TKill i reason) w = ([TKilled i reason], w1)"
    and "advance env (TKilled i reason) w1 = ([TKillAudit i reason], w2)"
    and "(conc_step env allowed)\<^sup>*\<^sup>* (kill_audit env i reason w2, [t]) c"
  shows "(conc_step env allowed)\<^sup>*\<^sup>* (w, [t, TKill i reason]) c"
  by (rule run_second [OF assms(1)], rule run_second [OF assms(2)], rule run_second [where ts = "[]"])
    (simp, simp add: assms(3))

text \<open>A request that runs without interruption does what the operation does.\<close>

lemma start_enter_error:
  "start_enter i w = (Inl x :: 'a manager_error + nat \<times> sandbox_config, w') \<Longrightarrow>
   w' = w \<and> (\<exists>y. start_enter i w = (Inl y :: 'b manager_error + nat \<times> sandbox_config, w))"
  by (auto simp: start_enter_def split: option.splits if_splits)

lemma start_enter_retype:
  "start_enter i w = (Inr ac :: 'a manager_error + nat \<times> sandbox_config, w') \<Longrightarrow>
   start_enter i w = (Inr ac :: 'b manager_error + nat \<times> sandbox_config, w')"
  by (auto simp: start_enter_def split: option.splits if_splits)

lemma begin_start_refused:
  "start_enter i w = (Inl x :: 'e manager_error + nat \<times> sandbox_config, w') \<Longrightarrow> begin_start i w = ([], w)"
  by (drule start_enter_error [where 'b = unit]) (auto simp: begin_start_def)

lemma begin_start_entered:
  "start_enter i w = (Inr (a, cfg) :: 'e manager_error + nat \<times> sandbox_config, w') \<Longrightarrow>
   begin_start i w = ([TStart i a cfg], w')"
  by (drule start_enter_retype [where 'b = unit]) (auto simp: begin_start_def)

lemma sequential_start:
  fixes env :: "('s, 'e, 'q, 'r) env"
  assumes "allowed (OpStart i)"
  shows "(conc_step env allowed)\<^sup>*\<^sup>* (w, []) (snd (start env i w), [])"
proof -
  obtain r w' where st: "start env i w = (r, w')" by fastforce
  have b: "(conc_step env allowed)\<^sup>*\<^sup>* (w1, ts) c \<Longrightarrow> (conc_step env allowed)\<^sup>*\<^sup>* (w, []) c"
    if "begin_start i w = (ts, w1)" for ts w1 c
    using assms that run_begin [where pend = "[]" and op = "OpStart i"] by simp
  from st have "(conc_step env allowed)\<^sup>*\<^sup>* (w, []) (w', [])"
  proof (cases rule: start_cases)
    case (refused e)
    then have "w' = w" using start_enter_error by blast
    then show ?thesis by simp
  next
    case (blocked a cfg w1 sys)
    show ?thesis by (rule b [OF begin_start_entered [OF blocked(1)]], rule run_task) (use blocked in auto)
  next
    case (failed a cfg w1 sys e)
    show ?thesis
      by (rule b [OF begin_start_entered [OF failed(1)]], rule run_task [where ts = "[TStartFailed a]"])
        (use failed in \<open>auto intro!: run_task\<close>)
  next
    case (started a cfg w1 sys u)
    show ?thesis
      by (rule b [OF begin_start_entered [OF started(1)]], rule run_task [where ts = "[TStarted i a cfg]"])
        (use started in \<open>auto intro!: run_task\<close>)
  qed
  with st show ?thesis by simp
qed

lemma sequential_stop:
  fixes env :: "('s, 'e, 'q, 'r) env"
  assumes "allowed (OpStop i)"
  shows "(conc_step env allowed)\<^sup>*\<^sup>* (w, []) (snd (stop env i w), [])"
proof -
  obtain r w' where st: "stop env i w = (r, w')" by fastforce
  have b: "(conc_step env allowed)\<^sup>*\<^sup>* (w1, ts) c \<Longrightarrow> (conc_step env allowed)\<^sup>*\<^sup>* (w, []) c"
    if "begin_stop i w = (ts, w1)" for ts w1 c
    using assms that run_begin [where pend = "[]" and op = "OpStop i"] by simp
  have e: "begin_stop i w = ([TStop i a], set_state a StateStopping w)" if "map_of (w_agents w) i = Some a" for a
    using that by (simp add: begin_stop_def stop_enter_def)
  have sys: "w_sys (set_state a StateStopping w) = w_sys w" for a by (simp add: set_state_def)
  from st have "(conc_step env allowed)\<^sup>*\<^sup>* (w, []) (w', [])"
  proof (cases rule: stop_cases)
    case unknown
    then show ?thesis by simp
  next
    case (blocked a sys)
    show ?thesis by (rule b [OF e [OF blocked(1)]], rule run_task) (use blocked sys in auto)
  next
    case (failed a sys err)
    show ?thesis by (rule b [OF e [OF failed(1)]], rule run_task) (use failed sys in auto)
  next
    case (stopped a sys u)
    show ?thesis
      by (rule b [OF e [OF stopped(1)]], rule run_task [where ts = "[TStopped i a]"])
        (use stopped sys in \<open>auto intro!: run_task\<close>)
  qed
  with st show ?thesis by simp
qed

lemma sequential_kill:
  assumes "allowed (OpKill i reason)"
  shows "(conc_step env allowed)\<^sup>*\<^sup>* (w, []) (snd (kill env i reason w), [])"
proof -
  obtain r w' where k: "kill env i reason w = (r, w')" by fastforce
  have b: "(conc_step env allowed)\<^sup>*\<^sup>* (w, [TKill i reason]) c \<Longrightarrow> (conc_step env allowed)\<^sup>*\<^sup>* (w, []) c" for c
    by (rule run_begin [where pend = "[]" and op = "OpKill i reason" and allowed = allowed])
      (simp_all add: assms)
  from k have "(conc_step env allowed)\<^sup>*\<^sup>* (w, []) (w', [])"
  proof (cases rule: kill_cases)
    case (failed e rs sys)
    show ?thesis by (rule b, rule run_task) (use failed in auto)
  next
    case (killed u rs sys)
    show ?thesis
      by (rule b, rule run_task [where ts = "[TKilled i reason]"]) (use killed in \<open>auto intro!: run_task\<close>)
  qed
  with k show ?thesis by simp
qed

text \<open>So the sequential operations of the manager are among the interleavings.\<close>

lemma sequential_op: "allowed op \<Longrightarrow> (conc_step env allowed)\<^sup>*\<^sup>* (w, []) (apply_op env op w, [])"
proof (cases op)
qed (auto simp: sequential_start sequential_stop sequential_kill intro!: r_into_rtranclp
      dest: Begins [where env = env and w = w and pend = "[]" and ts = "[]"])

section \<open>Properties\<close>

text \<open>
  C5. However the parts of concurrent requests interleave, the manager's state stays well formed and
  the policy engine knows exactly the registered agents, with the records they were registered with.
\<close>

theorem interleavings_keep_invariant:
  assumes "engine_wf e" and "eng_agents e = []"
    and "(conc_step env (\<lambda>_. True))\<^sup>*\<^sup>* (new_manager s sys l e c, []) (w, pend)"
  shows "mgr_inv w \<and> (\<forall>i. get_agent i (w_eng w) = map_option policy_view (agent_at w i))"
proof -
  from interleaved.reachable_good [OF assms(3)] have "mgr_inv w" by (simp add: new_manager_inv [OF assms(1,2)])
  then show ?thesis by (simp add: mgr_inv_def)
qed

lemma interleavings_keep_invariant_witness:
  "\<exists>w. (conc_step sample_env (\<lambda>_. True))\<^sup>*\<^sup>* (new_manager sample_fs 0 sample_logger bare_engine 0, [])
       (w, [TKill ''a1'' ''x'']) \<and> mgr_inv w"
proof -
  let ?start = "new_manager sample_fs 0 sample_logger bare_engine 0 :: (nat, string list) world"
  let ?w = "apply_op sample_env (OpRegister ''a1'' ''minimal'' ''/bin/x'') ?start"
  have "(conc_step sample_env (\<lambda>_. True))\<^sup>*\<^sup>* (?start, []) (?w, [])"
    by (rule sequential_op [where allowed = "\<lambda>_. True" and op = "OpRegister ''a1'' ''minimal'' ''/bin/x''"]) (rule TrueI)
  moreover have "conc_step sample_env (\<lambda>_. True) (?w, []) (?w, [] @ [TKill ''a1'' ''x''])"
    by (rule Begins [where op = "OpKill ''a1'' ''x''"]) (rule TrueI, simp only: begin_op.simps)
  ultimately have "(conc_step sample_env (\<lambda>_. True))\<^sup>*\<^sup>* (?start, []) (?w, [TKill ''a1'' ''x''])"
    unfolding append_Nil by (rule rtranclp.rtrancl_into_rtrancl)
  with interleavings_keep_invariant [OF bare_engine_wf this] show ?thesis by blast
qed

text \<open>
  C16. Starting is exclusive: as long as nobody stops or kills, no two goroutines are ever on their way
  to start the same agent, however many requests arrive and however they interleave with registering and
  unregistering, and whoever is being started is in state starting.
\<close>

theorem starts_exclusive:
  assumes "mgr_inv w\<^sub>0" and "(conc_step env only_starts)\<^sup>*\<^sup>* (w\<^sub>0, []) (w, pend)"
  shows "distinct (starts_under_way pend)
    \<and> (\<forall>a \<in> set (starts_under_way pend). map_option ra_state (w_heap w a) = Some StateStarting)"
proof -
  from only_starting.reachable_good [OF assms(2)] have "starts_ok (w, pend)"
    using assms(1) by (simp add: starts_ok_def)
  then show ?thesis by (auto simp: starts_ok_def list_all_iff)
qed

lemma starts_exclusive_witness:
  "\<exists>w cfg. (conc_step sample_env only_starts)\<^sup>*\<^sup>* (world_with StateStopped, []) (w, [TStart ''a1'' 0 cfg])
     \<and> map_option ra_state (w_heap w 0) = Some StateStarting"
proof -
  obtain w cfg where "begin_op sample_env (OpStart ''a1'') (world_with StateStopped) = ([TStart ''a1'' 0 cfg], w)"
    by (simp add: begin_start_def start_enter_def world_with_def set_state_def modify_agent_def install_def
        register_record_def sample_world_def new_manager_def new_runtime_def agent_record.defs)
  then have "(conc_step sample_env only_starts)\<^sup>*\<^sup>* (world_with StateStopped, []) (w, [TStart ''a1'' 0 cfg])"
    by - (rule run_begin [where op = "OpStart ''a1''"], simp, assumption, simp)
  with starts_exclusive [OF world_with_inv this] show ?thesis by auto
qed

text \<open>
  C17. A kill and a start do not exclude each other: when an agent is killed while its unit has started but
  \<open>Start\<close> has not yet taken the lock again, both requests succeed, systemd is left as the kill left it, and
  the manager records the agent as running.
\<close>

theorem kill_start_race:
  fixes env :: "('s, 'e, 'q, 'r) env"
  assumes "mgr_inv w" and "agent_at w i = Some ra" and "ra_state ra \<noteq> StateRunning" and "ra_state ra \<noteq> StateStarting"
    and "start_agent (env_conn env) (start_config i (exec_start ra) (ar_workspace_path ra) (ar_profile ra)) (w_sys w)
           = (Returned (Inr ()), s1)"
    and "kill_agent (env_conn env) i s1 = (Inr (), rs, s2)"
  shows "\<exists>w'. (conc_step env (\<lambda>_. True))\<^sup>*\<^sup>* (w, []) (w', []) \<and> w_sys w' = s2 \<and> state_of w' i = Some StateRunning"
proof -
  obtain a where a: "map_of (w_agents w) i = Some a" "w_heap w a = Some ra"
    using assms(2) by (auto simp: agent_at_def bind_eq_Some_conv)
  let ?cfg = "start_config i (exec_start ra) (ar_workspace_path ra) (ar_profile ra)"
  define w1 where "w1 = (set_state a StateStarting w)\<lparr>w_sys := s1\<rparr>"
  define w2 where "w2 = kill_commit env i [] (w1\<lparr>w_sys := s2, w_resets := w_resets w1 @ rs\<rparr>)"
  define w3 where "w3 = start_commit env a (kill_audit env i [] w2)"
  have sys: "w_sys (set_state a StateStarting w) = w_sys w" by (simp add: set_state_def)
  have enter: "begin_start i w = ([TStart i a ?cfg], set_state a StateStarting w)"
    using a assms(3,4) by (simp add: begin_start_def start_enter_def)
  have adv: "advance env (TStart i a ?cfg) (set_state a StateStarting w) = ([TStarted i a ?cfg], w1)"
    by (simp add: assms(5) sys w1_def)
  have "advance env (TKill i []) w1 = ([TKilled i []], w1\<lparr>w_sys := s2, w_resets := w_resets w1 @ rs\<rparr>)"
    using assms(6) by (simp add: w1_def)
  moreover have "advance env (TKilled i []) (w1\<lparr>w_sys := s2, w_resets := w_resets w1 @ rs\<rparr>) = ([TKillAudit i []], w2)"
    by (simp add: w2_def)
  moreover have "(conc_step env (\<lambda>_. True))\<^sup>*\<^sup>* (kill_audit env i [] w2, [TStarted i a ?cfg])
      (start_audit env i (sc_profile ?cfg) w3, [])"
    by (rule run_task [where ts = "[TStartAudit i (sc_profile ?cfg)]" and w' = w3], simp add: w3_def)
      (simp, rule run_task [where ts = "[]"], simp, simp)
  ultimately have "(conc_step env (\<lambda>_. True))\<^sup>*\<^sup>* (w1, [TStarted i a ?cfg, TKill i []])
      (start_audit env i (sc_profile ?cfg) w3, [])"
    by (rule schedule_kill)
  then have "(conc_step env (\<lambda>_. True))\<^sup>*\<^sup>* (w1, [TStarted i a ?cfg]) (start_audit env i (sc_profile ?cfg) w3, [])"
    by - (rule run_begin [where op = "OpKill i []" and ts = "[TKill i []]" and w' = w1], simp_all)
  then have "(conc_step env (\<lambda>_. True))\<^sup>*\<^sup>* (set_state a StateStarting w, [TStart i a ?cfg])
      (start_audit env i (sc_profile ?cfg) w3, [])"
    by (rule run_task [where pend = "[]", OF adv, unfolded append.simps])
  then have "(conc_step env (\<lambda>_. True))\<^sup>*\<^sup>* (w, []) (start_audit env i (sc_profile ?cfg) w3, [])"
    by - (rule run_begin [where op = "OpStart i" and ts = "[TStart i a ?cfg]" and w' = "set_state a StateStarting w"],
      simp_all add: enter)
  moreover have "w_sys (start_audit env i (sc_profile ?cfg) w3) = s2"
    by (simp add: w3_def w2_def start_audit_def kill_audit_def start_commit_def kill_commit_def Let_def
        case_prod_unfold split: option.split)
  moreover have "state_of (start_audit env i (sc_profile ?cfg) w3) i = Some StateRunning"
    using a by (simp add: w3_def w2_def w1_def state_of_def start_audit_def kill_audit_def start_commit_def
        kill_commit_def Let_def case_prod_unfold set_state_def modify_agent_at split: option.split)
  ultimately show ?thesis by blast
qed

lemma kill_start_race_witness:
  "\<exists>w'. (conc_step sample_env (\<lambda>_. True))\<^sup>*\<^sup>* (world_with StateRegistered, []) (w', [])
     \<and> w_sys w' = 2 \<and> state_of w' ''a1'' = Some StateRunning"
proof -
  let ?w = "world_with StateRegistered"
  have "start_agent (env_conn sample_env) cfg (w_sys ?w) = (Returned (Inr ()), 1)" for cfg
    by (simp add: start_agent_def reset_stale_def sample_env_def sample_conn_def world_with_def set_state_def
        sample_world_def new_manager_def)
  moreover have "kill_agent (env_conn sample_env) ''a1'' 1 = (Inr (), [systemd_unit_name ''a1''], 2)"
    by (simp add: kill_agent_def sample_env_def sample_conn_def)
  ultimately show ?thesis
    using kill_start_race [OF world_with_inv world_with_at(1), where env = sample_env] by simp
qed

end
