(* ===== verification/GoHttp.thy ===== *)
theory GoHttp
  imports Decode
begin

text \<open>
  What the daemon and its client use of \<open>net/http\<close> and \<open>net/url\<close> (Go 1.24): percent encoding, query
  strings, the routing of \<open>ServeMux\<close> with its method patterns and one-segment wildcards, request
  bodies, and the way a client turns the text of a URL into the target of a request. Connections,
  headers other than the content type, and the bodies of the library's own replies are not modelled.
\<close>

section \<open>Percent encoding\<close>

fun percent_decode :: "bool \<Rightarrow> string \<Rightarrow> string option" where
  "percent_decode query [] = Some []"
| "percent_decode query (c # cs) =
     (if c = CHR ''%'' then
        (case cs of
           a # b # r \<Rightarrow>
             (case (hex_value a, hex_value b) of
                (Some p, Some q) \<Rightarrow> map_option ((#) (char_of (16 * p + q))) (percent_decode query r)
              | _ \<Rightarrow> None)
         | _ \<Rightarrow> None)
      else map_option ((#) (if query \<and> c = CHR ''+'' then CHR '' '' else c)) (percent_decode query cs))"

text \<open>\<open>url.PathUnescape\<close> as the router uses it: a malformed segment stands for itself.\<close>

definition segment_unescape :: "string \<Rightarrow> string" where
  "segment_unescape s = (case percent_decode False s of Some t \<Rightarrow> t | None \<Rightarrow> s)"

definition is_unreserved :: "char \<Rightarrow> bool" where
  "is_unreserved c \<longleftrightarrow> is_lower c \<or> is_upper c \<or> is_digit c \<or> c \<in> set ''-_.~''"

definition path_safe :: "char \<Rightarrow> bool" where
  "path_safe c \<longleftrightarrow> is_unreserved c \<or> c \<in> set ''$&+,/:;=@''"

definition upper_hex :: "nat \<Rightarrow> char" where
  "upper_hex n = char_of (if n < 10 then 48 + n else 55 + n)"

definition escape_byte :: "char \<Rightarrow> string" where
  "escape_byte c = [CHR ''%'', upper_hex (byte_of c div 16), upper_hex (byte_of c mod 16)]"

definition path_escape :: "string \<Rightarrow> string" where
  "path_escape s = concat (map (\<lambda>c. if path_safe c then [c] else escape_byte c) s)"

definition valid_encoded_path :: "string \<Rightarrow> bool" where
  "valid_encoded_path s \<longleftrightarrow> list_all (\<lambda>c. path_safe c \<or> c \<in> set ''!()*[]%'' \<or> byte_of c = 39) s"

section \<open>Query strings\<close>

fun split_on :: "char \<Rightarrow> string \<Rightarrow> string list" where
  "split_on c [] = [[]]"
| "split_on c (x # xs) =
     (if x = c then [] # split_on c xs
      else (case split_on c xs of [] \<Rightarrow> [[x]] | w # ws \<Rightarrow> (x # w) # ws))"

text \<open>\<open>strings.Cut\<close>: the parts before and after the first occurrence.\<close>

definition cut_at :: "char \<Rightarrow> string \<Rightarrow> string \<times> string" where
  "cut_at c s = (takeWhile (\<lambda>x. x \<noteq> c) s, drop 1 (dropWhile (\<lambda>x. x \<noteq> c) s))"

definition query_pair :: "string \<Rightarrow> (string \<times> string) option" where
  "query_pair s =
     (if s = [] \<or> CHR '';'' \<in> set s then None
      else (let (k, v) = cut_at (CHR ''='') s in
        case (percent_decode True k, percent_decode True v) of (Some k', Some v') \<Rightarrow> Some (k', v') | _ \<Rightarrow> None))"

definition parse_query :: "string \<Rightarrow> (string \<times> string) list" where
  "parse_query q = List.map_filter query_pair (split_on (CHR ''&'') q)"

definition query_get :: "string \<Rightarrow> string \<Rightarrow> string" where
  "query_get k q = (case map_of (parse_query q) k of Some v \<Rightarrow> v | None \<Rightarrow> [])"

section \<open>Requests and replies\<close>

text \<open>
  The path is the escaped path of the URL. A body is the bytes that arrive, and whether the
  connection breaks after them.
\<close>

record http_request =
  rq_method :: string
  rq_path :: string
  rq_query :: string
  rq_body :: string
  rq_broken :: bool

text \<open>
  A reply a handler makes with a JSON body, one it makes with a status alone, one the library makes
  itself, and its redirections.
\<close>

datatype http_reply =
    JsonReply nat string
  | EmptyReply nat
  | LibraryReply nat
  | RedirectReply nat string

fun reply_status :: "http_reply \<Rightarrow> nat" where
  "reply_status (JsonReply n b) = n"
| "reply_status (EmptyReply n) = n"
| "reply_status (LibraryReply n) = n"
| "reply_status (RedirectReply n l) = n"

text \<open>
  \<open>json.NewDecoder(body).Decode\<close>: the decoder stops at the end of an object or array; it has to look
  one byte past any other value, so that a broken body makes it fail there.
\<close>

fun self_delimiting :: "json \<Rightarrow> bool" where
  "self_delimiting (JObj kvs) = True"
| "self_delimiting (JArr xs) = True"
| "self_delimiting _ = False"

definition decode_stream :: "'a decoder \<Rightarrow> 'a \<Rightarrow> string \<Rightarrow> bool \<Rightarrow> 'a option" where
  "decode_stream dec zero body broken =
     (case p_val (parse_fuel body) body of
        None \<Rightarrow> None
      | Some (v, r) \<Rightarrow> if broken \<and> r = [] \<and> \<not> self_delimiting v then None else decoded dec zero (Some v))"

text \<open>\<open>io.ReadAll(io.LimitReader(body, n))\<close>.\<close>

definition read_limited :: "nat \<Rightarrow> string \<Rightarrow> bool \<Rightarrow> string option" where
  "read_limited n body broken = (if broken \<and> length body < n then None else Some (take n body))"

lemma decode_stream_first:
  "\<not> broken \<Longrightarrow> decode_stream dec zero body broken = decoded dec zero (json_decode_first body)"
  by (simp add: decode_stream_def json_decode_first_def split: option.split)

section \<open>Routing\<close>

datatype pat_seg = Lit string | Wild

datatype 'h routed = RouteTo 'h "string list" | MovedTo string | MethodNotAllowed | NotFoundPath

fun match_segs :: "pat_seg list \<Rightarrow> string list \<Rightarrow> string list option" where
  "match_segs [] [] = Some []"
| "match_segs (Lit l # ps) (s # ss) = (if s = l then match_segs ps ss else None)"
| "match_segs (Wild # ps) (s # ss) = (if s = ''/'' then None else map_option ((#) s) (match_segs ps ss))"
| "match_segs _ _ = None"

text \<open>The segments of a cleaned path; a slash at the end is a segment of its own.\<close>

definition path_segments :: "string \<Rightarrow> string list" where
  "path_segments p =
     (let ws = split_slash (tl p)
      in map segment_unescape (butlast ws) @ [if last ws = [] then ''/'' else segment_unescape (last ws)])"

definition method_matches :: "string \<Rightarrow> string \<Rightarrow> bool" where
  "method_matches pm m \<longleftrightarrow> pm = m \<or> pm = ''GET'' \<and> m = ''HEAD''"

definition clean_url_path :: "string \<Rightarrow> string" where
  "clean_url_path p =
     (if p = [] then ''/''
      else (let q = (if is_rooted p then p else slash # p); np = path_clean q
            in if last q = slash \<and> np \<noteq> ''/'' then np @ ''/'' else np))"

text \<open>
  The patterns of a table never overlap (\<open>routes_unambiguous\<close> shows it for the daemon's), so that the
  first match is the match.
\<close>

type_synonym 'h routes = "(string \<times> pat_seg list \<times> 'h) list"

fun first_match :: "'h routes \<Rightarrow> string \<Rightarrow> string list \<Rightarrow> ('h \<times> string list) option" where
  "first_match [] m ss = None"
| "first_match ((pm, ps, h) # rs) m ss =
     (case (if method_matches pm m then match_segs ps ss else None) of
        Some vs \<Rightarrow> Some (h, vs)
      | None \<Rightarrow> first_match rs m ss)"

definition mux_route :: "'h routes \<Rightarrow> string \<Rightarrow> string \<Rightarrow> 'h routed" where
  "mux_route rs m p =
     (let p' = (if m = ''CONNECT'' then p else clean_url_path p); ss = path_segments p' in
      if p' \<noteq> p then MovedTo p'
      else (case first_match rs m ss of
          Some (h, vs) \<Rightarrow> RouteTo h vs
        | None \<Rightarrow> if list_ex (\<lambda>(pm, ps, h). match_segs ps ss \<noteq> None) rs then MethodNotAllowed else NotFoundPath))"

section \<open>The client's side\<close>

text \<open>
  \<open>http.NewRequest(method, "http://unix" + text, ...)\<close>: what follows a \<open>#\<close> is not sent, the first \<open>?\<close>
  starts the query; a control character or a malformed escape is an error.
\<close>

definition has_control :: "string \<Rightarrow> bool" where
  "has_control s \<longleftrightarrow> list_ex (\<lambda>c. byte_of c < 0x20 \<or> byte_of c = 0x7F) s"

definition request_target :: "string \<Rightarrow> (string \<times> string) option" where
  "request_target txt =
     (let (u, frag) = cut_at (CHR ''#'') txt; (p, q) = cut_at (CHR ''?'') u in
      if has_control u \<or> percent_decode False frag = None then None
      else (case percent_decode False p of
          None \<Rightarrow> None
        | Some d \<Rightarrow> Some (if valid_encoded_path p then p else path_escape d, q)))"

end
