(* ===== verification/Messages.thy ===== *)
theory Messages
  imports Lifecycle
begin

text \<open>
  The texts of the errors the daemon reports to its clients. \<open>%q\<close> is \<open>strconv.Quote\<close>. The texts of
  errors made by the operating system, by systemd and by the policy library, and which runes beyond
  ASCII count as printable, are arguments (\<open>texts\<close>).
\<close>

record ('e, 'r) texts =
  tx_printable :: "string \<Rightarrow> bool"
  tx_io :: "io_error \<Rightarrow> string"
  tx_bus :: "'e \<Rightarrow> string"
  tx_rego :: "'r \<Rightarrow> string"
  tx_json :: "string \<Rightarrow> string"

section \<open>Quoting\<close>

definition quote_ascii :: "char \<Rightarrow> string" where
  "quote_ascii c =
     (let b = byte_of c in
      if c = dquote \<or> c = bsl then [bsl, c]
      else if b = 7 then [bsl, CHR ''a''] else if b = 8 then [bsl, CHR ''b'']
      else if b = 12 then [bsl, CHR ''f''] else if b = 10 then [bsl, CHR ''n'']
      else if b = 13 then [bsl, CHR ''r''] else if b = 9 then [bsl, CHR ''t'']
      else if b = 11 then [bsl, CHR ''v'']
      else if b < 32 \<or> b = 127 then [bsl, CHR ''x'', hex_digit (b div 16), hex_digit (b mod 16)]
      else [c])"

text \<open>The number of a rune beyond ASCII, from its bytes.\<close>

definition rune_value :: "char \<Rightarrow> string \<Rightarrow> nat" where
  "rune_value c cs =
     foldl (\<lambda>n d. 64 * n + (byte_of d - 128))
       (byte_of c - (if length cs = 1 then 192 else if length cs = 2 then 224 else 240)) cs"

definition quote_rune :: "(string \<Rightarrow> bool) \<Rightarrow> char \<Rightarrow> string \<Rightarrow> string" where
  "quote_rune printable c cs =
     (let v = rune_value c cs in
      if printable (c # cs) then c # cs
      else if v < 65536 then [bsl, CHR ''u''] @ hex4_of v
      else [bsl, CHR ''U''] @ hex4_of (v div 65536) @ hex4_of (v mod 65536))"

function quote_body :: "(string \<Rightarrow> bool) \<Rightarrow> string \<Rightarrow> string" where
  "quote_body printable [] = []"
| "quote_body printable (c # cs) =
     (case rune_tail c cs of
        None \<Rightarrow> [bsl, CHR ''x'', hex_digit (byte_of c div 16), hex_digit (byte_of c mod 16)] @ quote_body printable cs
      | Some k \<Rightarrow> (if k = 0 then quote_ascii c else quote_rune printable c (take k cs)) @ quote_body printable (drop k cs))"
  by pat_completeness auto
termination by (relation "measure (\<lambda>(p, s). length s)") auto

definition go_quote :: "(string \<Rightarrow> bool) \<Rightarrow> string \<Rightarrow> string" where
  "go_quote printable s = dquote # quote_body printable s @ [dquote]"

text \<open>A list of strings in the format \<open>%v\<close>.\<close>

definition show_strings :: "string list \<Rightarrow> string" where
  "show_strings xs = ''['' @ join_with '' '' xs @ '']''"

section \<open>Errors of the manager\<close>

fun id_error_text :: "('e, 'r) texts \<Rightarrow> id_error \<Rightarrow> string" where
  "id_error_text tx (IDLength n) = ''agent ID must be 2-64 characters, got '' @ nat_lit n"
| "id_error_text tx (IDPattern i) =
     ''agent ID must match [a-z0-9][a-z0-9-]{0,62}[a-z0-9], got '' @ go_quote (tx_printable tx) i"
| "id_error_text tx IDSeparators = ''agent ID must not contain path separators''"

fun provision_error_text :: "('e, 'r) texts \<Rightarrow> provision_error \<Rightarrow> string" where
  "provision_error_text tx (CreatingAgentDir d e) = ''creating agent dir '' @ d @ '': '' @ tx_io tx e"
| "provision_error_text tx (CreatingWorkspace d e) = ''creating workspace '' @ d @ '': '' @ tx_io tx e"
| "provision_error_text tx (WritingMetadata e) = ''writing agent metadata: '' @ tx_io tx e"

fun sandbox_error_text :: "('e, 'r) texts \<Rightarrow> 'e sandbox_error \<Rightarrow> string" where
  "sandbox_error_text tx (StartingTransientUnit u e) = ''starting transient unit '' @ u @ '': '' @ tx_bus tx e"
| "sandbox_error_text tx (JobFinishedWith u r) = ''systemd job for '' @ u @ '' finished with status: '' @ r"
| "sandbox_error_text tx (StoppingUnit u e) = ''stopping unit '' @ u @ '': '' @ tx_bus tx e"
| "sandbox_error_text tx (KillingUnit e) = tx_bus tx e"
| "sandbox_error_text tx (GettingProperties u e) = ''getting properties for '' @ u @ '': '' @ tx_bus tx e"

fun registry_error_text :: "('e, 'r) texts \<Rightarrow> registry_error \<Rightarrow> string" where
  "registry_error_text tx MarshalingRegistry = ''marshaling agent registry: '' @ tx_json tx []"
| "registry_error_text tx (WritingRegistry e) = ''writing agent registry: '' @ tx_io tx e"
| "registry_error_text tx (RenamingRegistry e) = tx_io tx e"
| "registry_error_text tx (ReadingRegistry p e) = ''reading agent registry '' @ p @ '': '' @ tx_io tx e"
| "registry_error_text tx (ParsingRegistry p) = ''parsing agent registry '' @ p @ '': '' @ tx_json tx p"

fun error_text :: "('e, 'r) texts \<Rightarrow> 'e manager_error \<Rightarrow> string" where
  "error_text tx (InvalidID e) = id_error_text tx e"
| "error_text tx (AlreadyRegistered i) = ''agent '' @ go_quote (tx_printable tx) i @ '' is already registered''"
| "error_text tx (MaxAgentsReached n) = ''maximum number of agents ('' @ int_lit n @ '') reached''"
| "error_text tx (ProvisioningWorkspace i e) = ''provisioning workspace for '' @ i @ '': '' @ provision_error_text tx e"
| "error_text tx (NotRegistered i) = ''agent '' @ go_quote (tx_printable tx) i @ '' not registered''"
| "error_text tx (MustStopFirst i st) =
     ''agent '' @ go_quote (tx_printable tx) i @ '' is '' @ state_name st @ ''; stop or kill it before unregistering''"
| "error_text tx (AlreadyIs i st) = ''agent '' @ go_quote (tx_printable tx) i @ '' is already '' @ state_name st"
| "error_text tx (NotFound i) = ''agent '' @ go_quote (tx_printable tx) i @ '' not found''"
| "error_text tx (StartingSandbox e) = ''starting agent sandbox: '' @ sandbox_error_text tx e"
| "error_text tx (StoppingAgent i e) = ''stopping agent '' @ i @ '': '' @ sandbox_error_text tx e"
| "error_text tx (KillingAgent i e) = ''killing agent '' @ i @ '': '' @ sandbox_error_text tx e"
| "error_text tx (LoadingPersisted e) = ''loading persisted agents: '' @ registry_error_text tx e"

section \<open>Errors of the policy engine\<close>

fun prep_error_text :: "('e, 'r) texts \<Rightarrow> 'r prep_error \<Rightarrow> string" where
  "prep_error_text tx (ReadingModule f e) = ''reading '' @ f @ '': '' @ tx_io tx e"
| "prep_error_text tx (NoPolicyFiles ds) = ''no policy files found in '' @ show_strings ds"
| "prep_error_text tx (RegoError e) = tx_rego tx e"

fun engine_error_text :: "('e, 'r) texts \<Rightarrow> 'r engine_error \<Rightarrow> string" where
  "engine_error_text tx (PreparingQuery p e) =
     ''loading policies: preparing query for profile '' @ p @ '': '' @ prep_error_text tx e"
| "engine_error_text tx (ReloadingProfile p e) = ''reloading profile '' @ p @ '': '' @ prep_error_text tx e"
| "engine_error_text tx (PolicyEvaluation e) = ''policy evaluation: '' @ tx_rego tx e"
| "engine_error_text tx UnexpectedResultType = ''unexpected policy result type''"

section \<open>Quoting an identifier\<close>

lemma quote_plain: "byte_of c < 128 \<Longrightarrow> quote_ascii c = [c] \<Longrightarrow> quote_body p (c # cs) = c # quote_body p cs"
  by (simp add: rune_tail_ascii)

lemma quote_body_plain: "list_all (\<lambda>c. byte_of c < 128 \<and> quote_ascii c = [c]) s \<Longrightarrow> quote_body p s = s"
  by (induction s) (simp_all add: quote_plain del: quote_body.simps(2))

lemma quote_valid_id: "valid_id i \<Longrightarrow> go_quote p i = dquote # i @ [dquote]"
proof -
  assume v: "valid_id i"
  have "byte_of c < 128 \<and> quote_ascii c = [c]" if "c \<in> set i" for c
    using valid_id_chars [OF v that]
    by (auto simp: quote_ascii_def Let_def id_char_def is_lower_def is_digit_def bsl_def dquote_def byte_of_def)
  then show ?thesis by (simp add: go_quote_def quote_body_plain list_all_iff)
qed

end
