(* ===== verification/ApiServer.thy ===== *)
theory ApiServer
  imports GoHttp Messages
begin

text \<open>
  \<open>daemon/internal/api/server.go\<close>: the requests and replies of the daemon's API, one definition per
  handler, the two routing tables (Unix socket and Falco listener) and \<open>serve\<close>, which routes a request
  and runs its handler. A handler that waits for systemd may never reply (\<open>Blocked\<close>). Listening,
  socket permissions and the \<open>slog\<close> messages are not modelled.
\<close>

section \<open>Documents\<close>

record register_request =
  rr_id :: string
  rr_profile :: string
  rr_exec :: string

definition zero_register_request :: register_request where
  "zero_register_request = \<lparr>rr_id = [], rr_profile = [], rr_exec = []\<rparr>"

definition register_fields :: "register_request fields" where
  "register_fields =
     [(''id'', in_field rr_id rr_id_update dec_string),
      (''profile'', in_field rr_profile rr_profile_update dec_string),
      (''exec'', in_field rr_exec rr_exec_update dec_string)]"

text \<open>\<open>AgentResponse\<close>, made from an agent.\<close>

definition agent_response :: "runtime_agent \<Rightarrow> json" where
  "agent_response ra =
     JObj [(''id'', JStr (ar_id ra)), (''profile'', JStr (ar_profile ra)),
       (''state'', JStr (state_name (ra_state ra))), (''workspace'', JStr (ar_workspace_path ra))]"

record policy_eval_request =
  pe_agent_id :: string
  pe_action_type :: string
  pe_resource :: string
  pe_context :: "(string \<times> string) list"

definition zero_eval_request :: policy_eval_request where
  "zero_eval_request = \<lparr>pe_agent_id = [], pe_action_type = [], pe_resource = [], pe_context = []\<rparr>"

definition eval_fields :: "policy_eval_request fields" where
  "eval_fields =
     [(''agent_id'', in_field pe_agent_id pe_agent_id_update dec_string),
      (''action_type'', in_field pe_action_type pe_action_type_update dec_string),
      (''resource'', in_field pe_resource pe_resource_update dec_string),
      (''context'', in_field pe_context pe_context_update dec_string_map)]"

definition decision_json :: "policy_decision \<Rightarrow> json" where
  "decision_json d =
     JObj ([(''allow'', JBool (pd_allow d))] @ omit_strs ''reasons'' (pd_reasons d)
       @ [(''audit_required'', JBool (pd_audit_required d)), (''profile'', JStr (pd_profile d))])"

record falco_fields =
  ff_container_id :: string
  ff_env_atomic :: string

record falco_payload =
  fp_output :: string
  fp_priority :: string
  fp_rule :: string
  fp_time :: string
  fp_fields :: falco_fields

definition zero_falco_payload :: falco_payload where
  "zero_falco_payload = \<lparr>fp_output = [], fp_priority = [], fp_rule = [], fp_time = [],
     fp_fields = \<lparr>ff_container_id = [], ff_env_atomic = []\<rparr>\<rparr>"

definition falco_output_fields :: "falco_fields fields" where
  "falco_output_fields =
     [(''container.id'', in_field ff_container_id ff_container_id_update dec_string),
      (''proc.env[ATOMIC_AGENT_ID]'', in_field ff_env_atomic ff_env_atomic_update dec_string)]"

definition falco_payload_fields :: "falco_payload fields" where
  "falco_payload_fields =
     [(''output'', in_field fp_output fp_output_update dec_string),
      (''priority'', in_field fp_priority fp_priority_update dec_string),
      (''rule'', in_field fp_rule fp_rule_update dec_string),
      (''time'', in_field fp_time fp_time_update dec_string),
      (''output_fields'', in_field fp_fields fp_fields_update (dec_struct falco_output_fields))]"

section \<open>Replies\<close>

text \<open>The encoder ends a document with a newline.\<close>

definition write_json :: "nat \<Rightarrow> json \<Rightarrow> http_reply" where
  "write_json status d = JsonReply status (json_marshal d @ [newline])"

definition write_error :: "nat \<Rightarrow> string \<Rightarrow> http_reply" where
  "write_error status msg = write_json status (JObj [(''error'', JStr msg)])"

definition status_json :: "string \<Rightarrow> json" where
  "status_json s = JObj [(''status'', JStr s)]"

section \<open>Handlers\<close>

text \<open>\<open>Register\<close> returns a pointer it has just stored the agent at.\<close>

definition handle_register_agent ::
    "('s, 'e, 'q, 'r) env \<Rightarrow> ('e, 'r) texts \<Rightarrow> http_request \<Rightarrow> ('s, 'q) world \<Rightarrow> http_reply \<times> ('s, 'q) world" where
  "handle_register_agent env tx r w =
     (case decode_stream (dec_struct register_fields) zero_register_request (rq_body r) (rq_broken r) of
        None \<Rightarrow> (write_error 400 ''invalid request body'', w)
      | Some req \<Rightarrow>
          (let profile = (if rr_profile req = [] then ''minimal'' else rr_profile req) in
           case register env (rr_id req) profile (rr_exec req) w of
             (Inl e, w1) \<Rightarrow> (write_error 400 (error_text tx e), w1)
           | (Inr a, w1) \<Rightarrow> (write_json 201 (agent_response (the (w_heap w1 a))), w1)))"

definition handle_list_agents :: "('s, 'e, 'q, 'r) env \<Rightarrow> ('s, 'q) world \<Rightarrow> http_reply \<times> ('s, 'q) world" where
  "handle_list_agents env w =
     (let (ras, w1) = list_agents env w in (write_json 200 (JArr (map agent_response ras)), w1))"

definition handle_get_agent :: "('e, 'r) texts \<Rightarrow> string \<Rightarrow> ('s, 'q) world \<Rightarrow> http_reply \<times> ('s, 'q) world" where
  "handle_get_agent tx i w =
     (case get_status i w of
        Inl e \<Rightarrow> (write_error 404 (error_text tx e), w)
      | Inr ra \<Rightarrow> (write_json 200 (agent_response ra), w))"

definition handle_start_agent ::
    "('s, 'e, 'q, 'r) env \<Rightarrow> ('e, 'r) texts \<Rightarrow> string \<Rightarrow> ('s, 'q) world \<Rightarrow> http_reply call \<times> ('s, 'q) world" where
  "handle_start_agent env tx i w =
     (case start env i w of
        (Blocked, w1) \<Rightarrow> (Blocked, w1)
      | (Returned (Inl e), w1) \<Rightarrow> (Returned (write_error 500 (error_text tx e)), w1)
      | (Returned (Inr _), w1) \<Rightarrow> (Returned (write_json 200 (status_json ''started'')), w1))"

definition handle_stop_agent ::
    "('s, 'e, 'q, 'r) env \<Rightarrow> ('e, 'r) texts \<Rightarrow> string \<Rightarrow> ('s, 'q) world \<Rightarrow> http_reply call \<times> ('s, 'q) world" where
  "handle_stop_agent env tx i w =
     (case stop env i w of
        (Blocked, w1) \<Rightarrow> (Blocked, w1)
      | (Returned (Inl e), w1) \<Rightarrow> (Returned (write_error 500 (error_text tx e)), w1)
      | (Returned (Inr _), w1) \<Rightarrow> (Returned (write_json 200 (status_json ''stopped'')), w1))"

definition handle_kill_agent ::
    "('s, 'e, 'q, 'r) env \<Rightarrow> ('e, 'r) texts \<Rightarrow> string \<Rightarrow> ('s, 'q) world \<Rightarrow> http_reply \<times> ('s, 'q) world" where
  "handle_kill_agent env tx i w =
     (case kill env i ''operator requested kill'' w of
        (Inl e, w1) \<Rightarrow> (write_error 500 (error_text tx e), w1)
      | (Inr _, w1) \<Rightarrow> (write_json 200 (status_json ''killed''), w1))"

definition handle_unregister_agent ::
    "('s, 'e, 'q, 'r) env \<Rightarrow> ('e, 'r) texts \<Rightarrow> string \<Rightarrow> http_request \<Rightarrow> ('s, 'q) world
      \<Rightarrow> http_reply \<times> ('s, 'q) world" where
  "handle_unregister_agent env tx i r w =
     (let purge = (query_get ''purge'' (rq_query r) = ''true'') in
      case unregister env i purge w of
        (Inl e, w1) \<Rightarrow> (write_error 400 (error_text tx e), w1)
      | (Inr _, w1) \<Rightarrow> (write_json 200 (status_json ''unregistered''), w1))"

text \<open>The action carries no time stamp; the decision is on the audit trail before it is replied.\<close>

definition handle_evaluate_policy ::
    "('s, 'e, 'q, 'r) env \<Rightarrow> ('e, 'r) texts \<Rightarrow> http_request \<Rightarrow> ('s, 'q) world \<Rightarrow> http_reply \<times> ('s, 'q) world" where
  "handle_evaluate_policy env tx r w =
     (case decode_stream (dec_struct eval_fields) zero_eval_request (rq_body r) (rq_broken r) of
        None \<Rightarrow> (write_error 400 ''invalid request body'', w)
      | Some req \<Rightarrow>
          (let action = \<lparr>act_agent_id = pe_agent_id req, act_action_type = pe_action_type req,
                 act_resource = pe_resource req, act_context = pe_context req, act_timestamp = zero_time\<rparr>
           in case evaluate (env_lib env) (w_eng w) action of
                (_, Some e) \<Rightarrow> (write_error 500 (engine_error_text tx e), w)
              | (decision, None) \<Rightarrow>
                  (let (now, w1) = read_clock env w;
                       w2 = w1\<lparr>w_log := log_agent_action (env_sinks env) now (pe_agent_id req) (pe_action_type req)
                              (pe_resource req) (pd_profile decision)
                              (if pd_allow decision then ''allow'' else ''deny'') (pd_reasons decision) (w_log w1)\<rparr>
                   in (write_json 200 (decision_json decision), w2))))"

definition audit_message ::
    "('s, 'e, 'q, 'r) env \<Rightarrow> event_type \<Rightarrow> string \<Rightarrow> ('s, 'q) world \<Rightarrow> ('s, 'q) world" where
  "audit_message env ty msg w =
     (let (now, w1) = read_clock env w
      in w1\<lparr>w_log := log_event (env_sinks env) (new_event now ty SeverityInfo msg) (w_log w1)\<rparr>)"

definition reload_policies ::
    "('s, 'e, 'q, 'r) env \<Rightarrow> ('s, 'q) world \<Rightarrow> ('r engine_error + unit) \<times> ('s, 'q) world" where
  "reload_policies env w =
     (let (r, e, s) = reload (env_lib env) (w_eng w) (w_os w) in (r, w\<lparr>w_eng := e, w_os := s\<rparr>))"

definition handle_reload_policy ::
    "('s, 'e, 'q, 'r) env \<Rightarrow> ('e, 'r) texts \<Rightarrow> ('s, 'q) world \<Rightarrow> http_reply \<times> ('s, 'q) world" where
  "handle_reload_policy env tx w =
     (case reload_policies env w of
        (Inl e, w1) \<Rightarrow> (write_error 500 (engine_error_text tx e), w1)
      | (Inr _, w1) \<Rightarrow>
          (write_json 200 (status_json ''reloaded''),
           audit_message env PolicyReloaded ''policies reloaded by operator'' w1))"

definition handle_health :: http_reply where
  "handle_health = write_json 200 (status_json ''ok'')"

text \<open>
  A payload that is not JSON, or not of the expected shape, is answered with success and ignored.
\<close>

definition falco_alert :: "('s, 'e, 'q, 'r) env \<Rightarrow> falco_payload \<Rightarrow> ('s, 'q) world \<Rightarrow> ('s, 'q) world" where
  "falco_alert env payload w =
     (let agentID = replace_all (CHR ''_'') (CHR ''-'') (ff_env_atomic (fp_fields payload));
          isCritical = (to_upper (fp_priority payload) = ''CRITICAL'');
          (now, w1) = read_clock env w;
          w2 = w1\<lparr>w_log := log_runtime_alert (env_sinks env) now agentID (fp_rule payload) (fp_output payload)
                 isCritical (w_log w1)\<rparr>
      in if isCritical \<and> agentID \<noteq> [] then snd (kill env agentID (''falco critical: '' @ fp_rule payload) w2)
         else w2)"

definition falco_body_limit :: nat where
  "falco_body_limit = 2 ^ 20"

definition handle_falco_webhook ::
    "('s, 'e, 'q, 'r) env \<Rightarrow> http_request \<Rightarrow> ('s, 'q) world \<Rightarrow> http_reply \<times> ('s, 'q) world" where
  "handle_falco_webhook env r w =
     (case read_limited falco_body_limit (rq_body r) (rq_broken r) of
        None \<Rightarrow> (write_error 400 ''reading body'', w)
      | Some body \<Rightarrow>
          (case decoded (dec_struct falco_payload_fields) zero_falco_payload (json_unmarshal body) of
             None \<Rightarrow> (EmptyReply 200, w)
           | Some payload \<Rightarrow> (EmptyReply 200, falco_alert env payload w)))"

section \<open>Routes\<close>

datatype endpoint =
    EpRegister | EpList | EpGet | EpStart | EpStop | EpUnregister | EpKill | EpEvaluate | EpReload
  | EpHealth | EpFalco

definition api_routes :: "endpoint routes" where
  "api_routes =
     [(''POST'', [Lit ''v1'', Lit ''agents''], EpRegister),
      (''GET'', [Lit ''v1'', Lit ''agents''], EpList),
      (''GET'', [Lit ''v1'', Lit ''agents'', Wild], EpGet),
      (''POST'', [Lit ''v1'', Lit ''agents'', Wild, Lit ''start''], EpStart),
      (''POST'', [Lit ''v1'', Lit ''agents'', Wild, Lit ''stop''], EpStop),
      (''POST'', [Lit ''v1'', Lit ''agents'', Wild, Lit ''unregister''], EpUnregister),
      (''DELETE'', [Lit ''v1'', Lit ''agents'', Wild], EpKill),
      (''POST'', [Lit ''v1'', Lit ''policy'', Lit ''evaluate''], EpEvaluate),
      (''POST'', [Lit ''v1'', Lit ''policy'', Lit ''reload''], EpReload),
      (''GET'', [Lit ''v1'', Lit ''health''], EpHealth),
      (''POST'', [Lit ''falco''], EpFalco)]"

definition falco_routes :: "endpoint routes" where
  "falco_routes = [(''POST'', [Lit ''falco''], EpFalco)]"

definition replying :: "http_reply \<times> ('s, 'q) world \<Rightarrow> http_reply call \<times> ('s, 'q) world" where
  "replying p = (Returned (fst p), snd p)"

text \<open>\<open>i\<close> is the path value named \<open>id\<close>, of no meaning for a route without one.\<close>

fun handle ::
    "('s, 'e, 'q, 'r) env \<Rightarrow> ('e, 'r) texts \<Rightarrow> endpoint \<Rightarrow> string \<Rightarrow> http_request \<Rightarrow> ('s, 'q) world
      \<Rightarrow> http_reply call \<times> ('s, 'q) world" where
  "handle env tx EpRegister i r w = replying (handle_register_agent env tx r w)"
| "handle env tx EpList i r w = replying (handle_list_agents env w)"
| "handle env tx EpGet i r w = replying (handle_get_agent tx i w)"
| "handle env tx EpStart i r w = handle_start_agent env tx i w"
| "handle env tx EpStop i r w = handle_stop_agent env tx i w"
| "handle env tx EpUnregister i r w = replying (handle_unregister_agent env tx i r w)"
| "handle env tx EpKill i r w = replying (handle_kill_agent env tx i w)"
| "handle env tx EpEvaluate i r w = replying (handle_evaluate_policy env tx r w)"
| "handle env tx EpReload i r w = replying (handle_reload_policy env tx w)"
| "handle env tx EpHealth i r w = (Returned handle_health, w)"
| "handle env tx EpFalco i r w = replying (handle_falco_webhook env r w)"

definition path_value :: "string list \<Rightarrow> string" where
  "path_value vs = (case vs of [] \<Rightarrow> [] | v # _ \<Rightarrow> v)"

definition serve_mux ::
    "endpoint routes \<Rightarrow> ('s, 'e, 'q, 'r) env \<Rightarrow> ('e, 'r) texts \<Rightarrow> http_request \<Rightarrow> ('s, 'q) world
      \<Rightarrow> http_reply call \<times> ('s, 'q) world" where
  "serve_mux rs env tx r w =
     (case mux_route rs (rq_method r) (rq_path r) of
        RouteTo h vs \<Rightarrow> handle env tx h (path_value vs) r w
      | MovedTo p \<Rightarrow>
          (Returned (RedirectReply 301 (path_escape p @ (if rq_query r = [] then [] else CHR ''?'' # rq_query r))), w)
      | MethodNotAllowed \<Rightarrow> (Returned (LibraryReply 405), w)
      | NotFoundPath \<Rightarrow> (Returned (LibraryReply 404), w))"

definition serve ::
    "('s, 'e, 'q, 'r) env \<Rightarrow> ('e, 'r) texts \<Rightarrow> http_request \<Rightarrow> ('s, 'q) world \<Rightarrow> http_reply call \<times> ('s, 'q) world" where
  "serve env tx r w = serve_mux api_routes env tx r w"

definition serve_falco ::
    "('s, 'e, 'q, 'r) env \<Rightarrow> ('e, 'r) texts \<Rightarrow> http_request \<Rightarrow> ('s, 'q) world \<Rightarrow> http_reply call \<times> ('s, 'q) world" where
  "serve_falco env tx r w = serve_mux falco_routes env tx r w"

end
