(* ===== verification/ApiSpec.thy ===== *)
theory ApiSpec
  imports ApiServer ManagerProps
begin

text \<open>
  Rules for the API: which route a path takes, what each handler does to the manager's state, and
  that every request keeps the manager's invariant.
\<close>

section \<open>Paths made of plain elements\<close>

lemma no_percent: "CHR ''%'' \<notin> set s \<Longrightarrow> percent_decode False s = Some s"
  by (induction s) auto

lemma segment_unescape_plain: "CHR ''%'' \<notin> set s \<Longrightarrow> segment_unescape s = s"
  by (simp add: segment_unescape_def no_percent)

lemma clean_plain_path:
  assumes "ws \<noteq> []" and "\<forall>w \<in> set ws. plain_elem w"
  shows "path_clean (slash # join_slash ws) = slash # join_slash ws"
proof -
  have "\<forall>w \<in> set ws. slash \<notin> set w" using assms(2) by (auto dest: plain_no_slash)
  then have "split_slash (slash # join_slash ws) = [] # ws" using assms(1) by (intro split_clean)
  moreover have "clean_elems True ([] # ws) = ws" using clean_elems_plain [OF assms(2), of True] by (simp add: clean_elems_def)
  ultimately show ?thesis by (simp add: path_clean_def is_rooted_def)
qed

lemma last_plain_path:
  assumes "ws \<noteq> []" and "\<forall>w \<in> set ws. plain_elem w"
  shows "last (slash # join_slash ws) \<noteq> slash"
proof -
  have w: "last ws \<noteq> []" "slash \<notin> set (last ws)"
    using assms by (auto simp: plain_elem_def dest: plain_no_slash)
  have "last (join_slash ws) = last (last ws)"
    using last_join_slash_snoc [OF w(1), of "butlast ws"] assms(1) by simp
  moreover have "join_slash ws \<noteq> []"
    using w(1) assms(1) by (cases ws rule: rev_cases; cases "butlast ws") (auto simp: join_slash_Cons)
  moreover have "last (last ws) \<noteq> slash" using w last_in_set [OF w(1)] by metis
  ultimately show ?thesis by simp
qed

lemma route_plain:
  assumes "ws \<noteq> []" and "\<forall>w \<in> set ws. plain_elem w \<and> CHR ''%'' \<notin> set w"
  shows "clean_url_path (slash # join_slash ws) = slash # join_slash ws"
    and "path_segments (slash # join_slash ws) = ws"
proof -
  have p: "\<forall>w \<in> set ws. plain_elem w" using assms(2) by simp
  show "clean_url_path (slash # join_slash ws) = slash # join_slash ws"
    using clean_plain_path [OF assms(1) p] last_plain_path [OF assms(1) p]
    by (simp add: clean_url_path_def is_rooted_def)
  have "split_slash (join_slash ws) = ws" using p assms(1) by (intro split_join) (auto dest: plain_no_slash)
  moreover have "map segment_unescape (butlast ws) = butlast ws"
    using assms(2) by (intro map_idI) (auto dest: in_set_butlastD simp: segment_unescape_plain)
  moreover have "segment_unescape (last ws) = last ws" "last ws \<noteq> []"
    using assms by (auto simp: segment_unescape_plain plain_elem_def)
  ultimately show "path_segments (slash # join_slash ws) = ws" using assms(1) by (simp add: path_segments_def)
qed

lemma mux_plain:
  assumes "ws \<noteq> []" and "\<forall>w \<in> set ws. plain_elem w \<and> CHR ''%'' \<notin> set w" and "first_match rs m ws = Some (h, vs)"
  shows "mux_route rs m (slash # join_slash ws) = RouteTo h vs"
  using route_plain [OF assms(1,2)] assms(3) by (cases "m = ''CONNECT''") (simp_all add: mux_route_def Let_def)

lemma plain_api: "plain_elem ''v1''" "plain_elem ''agents''" "plain_elem ''start''" "plain_elem ''stop''"
  "plain_elem ''unregister''"
  by (simp_all add: plain_elem_def dot_def dotdot_def)

lemma id_not_special:
  assumes "valid_id i"
  shows "CHR ''%'' \<notin> set i" and "i \<noteq> ''/''"
  using valid_id_no_char(1) [OF assms] valid_id_chars [OF assms, of "CHR ''%''"]
  by (auto simp: id_char_def is_lower_def is_digit_def byte_of_def)

text \<open>The routes of an agent with a valid identifier.\<close>

lemma agent_routes:
  assumes "valid_id i"
  shows "mux_route api_routes ''GET'' (''/v1/agents/'' @ i) = RouteTo EpGet [i]"
    and "mux_route api_routes ''DELETE'' (''/v1/agents/'' @ i) = RouteTo EpKill [i]"
    and "mux_route api_routes ''POST'' (''/v1/agents/'' @ i @ ''/start'') = RouteTo EpStart [i]"
    and "mux_route api_routes ''POST'' (''/v1/agents/'' @ i @ ''/stop'') = RouteTo EpStop [i]"
    and "mux_route api_routes ''POST'' (''/v1/agents/'' @ i @ ''/unregister'') = RouteTo EpUnregister [i]"
proof -
  note p = valid_id_plain [OF assms] id_not_special [OF assms] plain_api
  show "mux_route api_routes ''GET'' (''/v1/agents/'' @ i) = RouteTo EpGet [i]"
    using mux_plain [of "[''v1'', ''agents'', i]" api_routes "''GET''" EpGet "[i]"] p
    by (simp add: api_routes_def method_matches_def)
  show "mux_route api_routes ''DELETE'' (''/v1/agents/'' @ i) = RouteTo EpKill [i]"
    using mux_plain [of "[''v1'', ''agents'', i]" api_routes "''DELETE''" EpKill "[i]"] p
    by (simp add: api_routes_def method_matches_def)
  show "mux_route api_routes ''POST'' (''/v1/agents/'' @ i @ ''/start'') = RouteTo EpStart [i]"
    using mux_plain [of "[''v1'', ''agents'', i, ''start'']" api_routes "''POST''" EpStart "[i]"] p
    by (simp add: api_routes_def method_matches_def)
  show "mux_route api_routes ''POST'' (''/v1/agents/'' @ i @ ''/stop'') = RouteTo EpStop [i]"
    using mux_plain [of "[''v1'', ''agents'', i, ''stop'']" api_routes "''POST''" EpStop "[i]"] p
    by (simp add: api_routes_def method_matches_def)
  show "mux_route api_routes ''POST'' (''/v1/agents/'' @ i @ ''/unregister'') = RouteTo EpUnregister [i]"
    using mux_plain [of "[''v1'', ''agents'', i, ''unregister'']" api_routes "''POST''" EpUnregister "[i]"] p
    by (simp add: api_routes_def method_matches_def)
qed

text \<open>The fixed paths.\<close>

lemma fixed_routes:
  "mux_route api_routes ''POST'' ''/v1/agents'' = RouteTo EpRegister []"
  "mux_route api_routes ''GET'' ''/v1/agents'' = RouteTo EpList []"
  "mux_route api_routes ''POST'' ''/v1/policy/evaluate'' = RouteTo EpEvaluate []"
  "mux_route api_routes ''POST'' ''/v1/policy/reload'' = RouteTo EpReload []"
  "mux_route api_routes ''GET'' ''/v1/health'' = RouteTo EpHealth []"
  "mux_route api_routes ''POST'' ''/falco'' = RouteTo EpFalco []"
  by code_simp+

text \<open>Two patterns that no request can match both.\<close>

fun overlap :: "pat_seg list \<Rightarrow> pat_seg list \<Rightarrow> bool" where
  "overlap [] [] = True"
| "overlap (Lit a # ps) (Lit b # qs) = (a = b \<and> overlap ps qs)"
| "overlap (Wild # ps) (q # qs) = overlap ps qs"
| "overlap (Lit a # ps) (Wild # qs) = overlap ps qs"
| "overlap [] (q # qs) = False"
| "overlap (p # ps) [] = False"

lemma match_overlap: "match_segs ps ss = Some us \<Longrightarrow> match_segs qs ss = Some vs \<Longrightarrow> overlap ps qs"
proof (induction ps qs arbitrary: ss us vs rule: overlap.induct)
  case (2 a ps b qs)
  then show ?case by (cases ss) (auto split: if_splits)
next
  case (3 ps q qs)
  then show ?case by (cases ss; cases q) (auto split: if_splits)
next
  case (4 a ps qs)
  then show ?case by (cases ss) (auto split: if_splits)
next
  case (5 q qs)
  then show ?case by (cases ss) auto
next
  case (6 p ps)
  then show ?case by (cases ss) auto
qed simp

definition clash :: "string \<times> pat_seg list \<times> 'h \<Rightarrow> string \<times> pat_seg list \<times> 'h \<Rightarrow> bool" where
  "clash x y = ((fst x = fst y \<or> fst x \<in> {''GET'', ''HEAD''} \<and> fst y \<in> {''GET'', ''HEAD''}) \<and> overlap (fst (snd x)) (fst (snd y)))"

lemma filter_le_one: "sorted_wrt (\<lambda>x y. \<not> (P x \<and> P y)) xs \<Longrightarrow> length (filter P xs) \<le> 1"
proof (induction xs)
  case (Cons x xs)
  show ?case
  proof (cases "P x")
    case True
    with Cons.prems have "filter P xs = []" by (auto simp: filter_empty_conv)
    with True show ?thesis by simp
  qed (use Cons in simp)
qed simp

lemma one_match:
  assumes "sorted_wrt (\<lambda>x y. \<not> clash x y) rs"
  shows "length (filter (\<lambda>(pm, ps, h). method_matches pm m \<and> match_segs ps ss \<noteq> None) rs) \<le> 1"
  using assms
  by (intro filter_le_one, elim sorted_wrt_mono_rel [rotated])
    (auto simp: clash_def method_matches_def dest: match_overlap)

lemma one_route: "length (filter (\<lambda>(pm, ps, h). method_matches pm m \<and> match_segs ps ss \<noteq> None) api_routes) \<le> 1"
  by (rule one_match) code_simp

section \<open>Effects of the handlers\<close>

lemma audit_message_frame [simp]:
  "mgr_inv (audit_message env ty msg w) = mgr_inv w"
  "w_sys (audit_message env ty msg w) = w_sys w" "w_eng (audit_message env ty msg w) = w_eng w"
  "w_agents (audit_message env ty msg w) = w_agents w" "w_os (audit_message env ty msg w) = w_os w"
  by (simp_all add: audit_message_def Let_def case_prod_unfold)

lemma audit_message_at [simp]: "agent_at (audit_message env ty msg w) = agent_at w"
  by (simp add: audit_message_def Let_def case_prod_unfold)

lemma reload_policies_frame:
  assumes "mgr_inv w" and "reload_policies env w = (r, w')"
  shows "mgr_inv w'" and "agent_at w' = agent_at w" and "w_sys w' = w_sys w" and "w_log w' = w_log w"
proof -
  obtain e s where rl: "reload (env_lib env) (w_eng w) (w_os w) = (r, e, s)" "w' = w\<lparr>w_eng := e, w_os := s\<rparr>"
    using assms(2) by (auto simp: reload_policies_def split: prod.splits)
  have wf: "engine_wf e" using assms(1) reload_wf [OF _ rl(1)] by (simp add: mgr_inv_def)
  have "eng_agents e = eng_agents (w_eng w)" using rl(1) by (auto simp: reload_def split: prod.splits sum.splits)
  with wf assms(1) rl(2) show "mgr_inv w'" by (simp add: mgr_inv_def get_agent_def agent_at_def)
  show "agent_at w' = agent_at w" "w_sys w' = w_sys w" "w_log w' = w_log w" by (simp_all add: rl(2) agent_at_def)
qed

lemma reload_policies_inv: "mgr_inv w \<Longrightarrow> mgr_inv (snd (reload_policies env w))"
  using reload_policies_frame(1) [of w env "fst (reload_policies env w)" "snd (reload_policies env w)"] by simp

lemma falco_alert_inv: "mgr_inv w \<Longrightarrow> mgr_inv (falco_alert env p w)"
proof -
  assume "mgr_inv w"
  then have "mgr_inv ((snd (read_clock env w))\<lparr>w_log := l\<rparr>)" for l by simp
  then show ?thesis by (simp add: falco_alert_def Let_def case_prod_unfold kill_inv)
qed

text \<open>A registration returns the pointer that is in the map.\<close>

lemma register_new_pointer:
  assumes "map_of (w_agents w) i = None" and "register_new env i p x path w = (a, w')"
  shows "map_of (w_agents w') i = Some a"
  using assms by (auto simp: register_new_def Let_def case_prod_unfold install_def register_record_def)

lemma register_pointer: "register env i p x w = (Inr a, w') \<Longrightarrow> map_of (w_agents w') i = Some a"
  by (auto simp: register_def Let_def split: sum.splits prod.splits if_splits dest!: register_new_pointer [rotated])

lemma handle_inv:
  assumes "mgr_inv w"
  shows "mgr_inv (snd (handle env tx h i r w))"
proof (cases h)
  case EpRegister
  then show ?thesis
    by (simp add: replying_def handle_register_agent_def Let_def case_prod_unfold register_inv assms
        split: option.split sum.split)
next
  case EpList
  then show ?thesis using assms mgr_inv_cong [of "w\<lparr>w_iters := n\<rparr>" w for n]
    by (simp add: replying_def handle_list_agents_def list_agents_def iterate_def)
next
  case EpGet
  then show ?thesis using assms by (simp add: replying_def handle_get_agent_def split: sum.split)
next
  case EpStart
  then show ?thesis
    by (simp add: handle_start_agent_def case_prod_unfold start_inv assms split: call.split sum.split)
next
  case EpStop
  then show ?thesis
    by (simp add: handle_stop_agent_def case_prod_unfold stop_inv assms split: call.split sum.split)
next
  case EpUnregister
  then show ?thesis
    by (simp add: replying_def handle_unregister_agent_def Let_def case_prod_unfold unregister_inv assms split: sum.split)
next
  case EpKill
  then show ?thesis
    by (simp add: replying_def handle_kill_agent_def case_prod_unfold kill_inv assms split: sum.split)
next
  case EpEvaluate
  then show ?thesis
    by (simp add: replying_def handle_evaluate_policy_def Let_def case_prod_unfold assms split: option.split)
next
  case EpReload
  then show ?thesis
    by (simp add: replying_def handle_reload_policy_def case_prod_unfold reload_policies_inv assms split: sum.split)
next
  case EpFalco
  then show ?thesis
    by (simp add: replying_def handle_falco_webhook_def assms falco_alert_inv split: option.split)
qed (use assms in simp)

lemma serve_mux_inv: "mgr_inv w \<Longrightarrow> mgr_inv (snd (serve_mux rs env tx r w))"
  by (simp add: serve_mux_def handle_inv split: routed.split)

interpretation api: op_system "\<lambda>r w. snd (serve_mux rs env tx r w)" mgr_inv for rs env tx
  by unfold_locales (rule serve_mux_inv)

end
