(* ===== verification/Daemon.thy ===== *)
theory Daemon
  imports ApiSpec
begin

text \<open>
  \<open>daemon/cmd/atomicagentd/main.go\<close>: the configuration and its defaults, the order in which the daemon
  puts its parts together, and the loop that waits for signals while requests are served. Reading
  TOML, connecting to the bus, opening sockets and parsing the webhook's URL are arguments
  (\<open>platform\<close>); \<open>slog\<close> and the flag parser are not modelled.
\<close>

section \<open>Configuration\<close>

record agents_section =
  cf_default_profile :: string
  cf_workspace_root :: string
  cf_api_socket :: string
  cf_max_concurrent :: int

record audit_section =
  cf_journal_enabled :: bool
  cf_journal_identifier :: string
  cf_file_enabled :: bool
  cf_file_path :: string

record policy_section =
  cf_policy_dir :: string
  cf_builtin_policy_dir :: string

record runtime_section =
  cf_falco_enabled :: bool
  cf_falco_webhook_url :: string
  cf_auto_kill_on_critical :: bool

record daemon_config =
  cf_agents :: agents_section
  cf_audit :: audit_section
  cf_policy :: policy_section
  cf_runtime :: runtime_section

definition or_default :: "string \<Rightarrow> string \<Rightarrow> string" where
  "or_default d s = (if s = [] then d else s)"

definition apply_defaults :: "daemon_config \<Rightarrow> daemon_config" where
  "apply_defaults cfg =
     cfg\<lparr>cf_agents := (cf_agents cfg)
          \<lparr>cf_workspace_root := or_default ''/var/lib/atomic/agents'' (cf_workspace_root (cf_agents cfg)),
           cf_api_socket := or_default ''/run/atomic/api.sock'' (cf_api_socket (cf_agents cfg)),
           cf_default_profile := or_default ''minimal'' (cf_default_profile (cf_agents cfg))\<rparr>,
        cf_policy := (cf_policy cfg)
          \<lparr>cf_builtin_policy_dir := or_default ''/usr/share/atomic/policy'' (cf_builtin_policy_dir (cf_policy cfg))\<rparr>\<rparr>"

definition logger_config :: "daemon_config \<Rightarrow> audit_config" where
  "logger_config cfg =
     \<lparr>ac_journal_enabled = cf_journal_enabled (cf_audit cfg),
      ac_journal_identifier = cf_journal_identifier (cf_audit cfg),
      ac_file_enabled = cf_file_enabled (cf_audit cfg), ac_file_path = cf_file_path (cf_audit cfg)\<rparr>"

section \<open>The platform\<close>

datatype 'n listen_outcome = ListenFails 'n | ChmodFails 'n | Listens

text \<open>
  \<open>pl_decode_config\<close> is \<open>toml.DecodeFile\<close>, \<open>pl_url_host\<close> the host \<open>url.Parse\<close> finds, if it finds no error.
\<close>

record ('s, 'e, 'q, 'r, 'n) platform =
  pl_decode_config :: "string \<Rightarrow> 'n + daemon_config"
  pl_connect_bus :: "'e + unit"
  pl_conn :: "('s, 'e) dbus_conn"
  pl_lib :: "('q, 'r) rego_lib"
  pl_sinks :: sinks
  pl_now :: "nat \<Rightarrow> gotime"
  pl_order :: "nat \<Rightarrow> string list \<Rightarrow> string list"
  pl_listen_unix :: "string \<Rightarrow> 'n listen_outcome"
  pl_listen_tcp :: "string \<Rightarrow> 'n + unit"
  pl_url_host :: "string \<Rightarrow> string option"

definition daemon_env :: "('s, 'e, 'q, 'r, 'n) platform \<Rightarrow> daemon_config \<Rightarrow> ('s, 'e, 'q, 'r) env" where
  "daemon_env pl cfg =
     \<lparr>env_workspace_root = cf_workspace_root (cf_agents cfg), env_max_agents = cf_max_concurrent (cf_agents cfg),
      env_conn = pl_conn pl, env_lib = pl_lib pl, env_sinks = pl_sinks pl, env_now = pl_now pl,
      env_order = pl_order pl\<rparr>"

section \<open>Start\<close>

datatype ('e, 'r, 'n) startup_error =
    LoadingConfig string 'n
  | InitAuditLogger "io_error logger_error"
  | InitPolicyEngine "'r engine_error"
  | InitSandboxManager 'e
  | StartingAPIServer string 'n
  | SettingSocketPermissions 'n

datatype os_signal = SIGHUP | SIGTERM | SIGINT

text \<open>
  The running daemon. \<open>dm_waiting\<close> counts the requests whose handler waits for a job of systemd that is never
  reported; \<open>dm_pending\<close> is the channel the signals are delivered to, which has room for one;
  \<open>dm_notified\<close> are the messages \<open>SdNotify\<close> was called with (whether they arrive is ignored by the code).
\<close>

record ('s, 'q) daemon =
  dm_world :: "('s, 'q) world"
  dm_api_open :: bool
  dm_falco_open :: bool
  dm_waiting :: nat
  dm_pending :: "os_signal option"
  dm_notified :: "string list"

text \<open>\<open>Server.Start\<close>: a stale socket is removed first. (The socket itself is the platform's, not on the disk.)\<close>

definition server_start ::
    "('s, 'e, 'q, 'r, 'n) platform \<Rightarrow> string \<Rightarrow> os \<Rightarrow> (('e, 'r, 'n) startup_error + unit) \<times> os" where
  "server_start pl socketPath fs =
     (let fs1 = snd (os_remove socketPath fs) in
      case pl_listen_unix pl socketPath of
        ListenFails e \<Rightarrow> (Inl (StartingAPIServer socketPath e), fs1)
      | ChmodFails e \<Rightarrow> (Inl (SettingSocketPermissions e), fs1)
      | Listens \<Rightarrow> (Inr (), fs1))"

text \<open>A listener that cannot be opened is only warned about.\<close>

definition start_falco_listener :: "('s, 'e, 'q, 'r, 'n) platform \<Rightarrow> daemon_config \<Rightarrow> bool" where
  "start_falco_listener pl cfg =
     (if cf_falco_enabled (cf_runtime cfg) \<and> cf_falco_webhook_url (cf_runtime cfg) \<noteq> [] then
        (case pl_url_host pl (cf_falco_webhook_url (cf_runtime cfg)) of
           None \<Rightarrow> False
         | Some h \<Rightarrow> h \<noteq> [] \<and> is_ok (pl_listen_tcp pl h))
      else False)"

definition start_manager ::
    "('s, 'e, 'q, 'r, 'n) platform \<Rightarrow> daemon_config \<Rightarrow> os \<Rightarrow> 's \<Rightarrow> logger \<Rightarrow> 'q engine \<Rightarrow> ('s, 'q) world" where
  "start_manager pl cfg fs sys lg eng =
     snd (load_persisted_agents (daemon_env pl cfg) (new_manager fs sys lg eng 0)
       :: ('e manager_error + unit) \<times> ('s, 'q) world)"

definition startup ::
    "('s, 'e, 'q, 'r, 'n) platform \<Rightarrow> string \<Rightarrow> string \<Rightarrow> os \<Rightarrow> 's \<Rightarrow> ('e, 'r, 'n) startup_error + daemon_config \<times> ('s, 'q) daemon" where
  "startup pl version configPath fs sys =
     (case pl_decode_config pl configPath of
        Inl e \<Rightarrow> Inl (LoadingConfig configPath e)
      | Inr raw \<Rightarrow>
          (let cfg = apply_defaults raw in
           case new_logger (logger_config cfg) fs of
             (Inl e, fs1) \<Rightarrow> Inl (InitAuditLogger e)
           | (Inr lg, fs1) \<Rightarrow>
               (case new_engine (pl_lib pl) (cf_builtin_policy_dir (cf_policy cfg)) (cf_policy_dir (cf_policy cfg)) fs1 of
                  (Inl e, fs2) \<Rightarrow> Inl (InitPolicyEngine e)
                | (Inr eng, fs2) \<Rightarrow>
                    (case pl_connect_bus pl of
                       Inl e \<Rightarrow> Inl (InitSandboxManager e)
                     | Inr _ \<Rightarrow>
                         (let w = start_manager pl cfg fs2 sys lg eng in
                          case server_start pl (cf_api_socket (cf_agents cfg)) (w_os w) of
                            (Inl e, fs3) \<Rightarrow> Inl e
                          | (Inr _, fs3) \<Rightarrow>
                              Inr (cfg,
                                \<lparr>dm_world = audit_message (daemon_env pl cfg) DaemonStarted
                                   (''atomicagentd '' @ version @ '' started'') (w\<lparr>w_os := fs3\<rparr>),
                                 dm_api_open = True, dm_falco_open = start_falco_listener pl cfg,
                                 dm_waiting = 0, dm_pending = None, dm_notified = [''READY=1'']\<rparr>))))))"

section \<open>Running\<close>

text \<open>
  What happens to a running daemon: a signal arrives, the main goroutine receives from its channel, a
  request comes in, the goroutine a kill left behind does its work.
\<close>

datatype daemon_event =
    Signal os_signal | Receive | ApiRequest http_request | FalcoRequest http_request | ResetFires

definition hangup :: "('s, 'e, 'q, 'r) env \<Rightarrow> ('s, 'q) world \<Rightarrow> ('s, 'q) world" where
  "hangup env w =
     (case reload_policies env w of
        (Inl e, w1) \<Rightarrow> w1
      | (Inr _, w1) \<Rightarrow> audit_message env PolicyReloaded ''policies reloaded via SIGHUP'' w1)"

text \<open>
  \<open>Server.Shutdown\<close> closes the falco listener, if there is one, and the socket, and waits for the requests in
  progress until its context's deadline: a handler that waits for ever makes it fail. The caller logs that
  failure and goes on: the event is logged and the audit file closed.
\<close>

datatype shutdown_error = DeadlineExceeded

definition server_shutdown :: "('s, 'q) daemon \<Rightarrow> (shutdown_error + unit) \<times> ('s, 'q) daemon" where
  "server_shutdown d =
     (let d1 = (if dm_falco_open d then d\<lparr>dm_falco_open := False\<rparr> else d);
          d2 = d1\<lparr>dm_api_open := False\<rparr>
      in (if dm_waiting d2 = 0 then Inr () else Inl DeadlineExceeded, d2))"

definition shutdown :: "('s, 'e, 'q, 'r) env \<Rightarrow> ('s, 'q) daemon \<Rightarrow> ('s, 'q) daemon" where
  "shutdown env d =
     (case server_shutdown (d\<lparr>dm_notified := dm_notified d @ [''STOPPING=1'']\<rparr>) of
        (_, d1) \<Rightarrow>
          (let w = audit_message env DaemonShutdown ''atomicagentd shutting down'' (dm_world d1)
           in d1\<lparr>dm_world := w\<lparr>w_log := snd (close_logger (w_log w))\<rparr>\<rparr>))"

text \<open>What serving a request makes of the daemon: a blocked handler goes on waiting.\<close>

definition served :: "('s, 'q) daemon \<Rightarrow> http_reply call \<times> ('s, 'q) world \<Rightarrow> ('s, 'q) daemon" where
  "served d x =
     (case x of
        (Returned _, w) \<Rightarrow> d\<lparr>dm_world := w\<rparr>
      | (Blocked, w) \<Rightarrow> d\<lparr>dm_world := w, dm_waiting := Suc (dm_waiting d)\<rparr>)"

text \<open>
  A request to a listener that is not open changes nothing. \<open>signal.Notify\<close> does not wait: a signal that
  finds the channel full is dropped. A receive from the empty channel waits.
\<close>

fun daemon_step ::
    "('s, 'e, 'q, 'r) env \<Rightarrow> ('e, 'r) texts \<Rightarrow> daemon_event \<Rightarrow> ('s, 'q) daemon \<Rightarrow> ('s, 'q) daemon" where
  "daemon_step env tx (Signal sig) d = (if dm_pending d = None then d\<lparr>dm_pending := Some sig\<rparr> else d)"
| "daemon_step env tx Receive d =
     (case dm_pending d of
        None \<Rightarrow> d
      | Some SIGHUP \<Rightarrow> d\<lparr>dm_pending := None, dm_world := hangup env (dm_world d)\<rparr>
      | Some _ \<Rightarrow> shutdown env (d\<lparr>dm_pending := None\<rparr>))"
| "daemon_step env tx (ApiRequest r) d =
     (if dm_api_open d then served d (serve env tx r (dm_world d)) else d)"
| "daemon_step env tx (FalcoRequest r) d =
     (if dm_falco_open d then served d (serve_falco env tx r (dm_world d)) else d)"
| "daemon_step env tx ResetFires d = d\<lparr>dm_world := run_reset env (dm_world d)\<rparr>"

text \<open>The loop returns when it receives \<open>SIGTERM\<close> or \<open>SIGINT\<close>; the flag says whether it has.\<close>

definition told_to_end :: "('s, 'q) daemon \<Rightarrow> bool" where
  "told_to_end d \<longleftrightarrow> dm_pending d = Some SIGTERM \<or> dm_pending d = Some SIGINT"

fun main_loop ::
    "('s, 'e, 'q, 'r) env \<Rightarrow> ('e, 'r) texts \<Rightarrow> daemon_event list \<Rightarrow> ('s, 'q) daemon \<Rightarrow> bool \<times> ('s, 'q) daemon" where
  "main_loop env tx [] d = (False, d)"
| "main_loop env tx (ev # evs) d =
     (if ev = Receive \<and> told_to_end d then (True, daemon_step env tx ev d)
      else main_loop env tx evs (daemon_step env tx ev d))"

definition run ::
    "('s, 'e, 'q, 'r, 'n) platform \<Rightarrow> ('e, 'r) texts \<Rightarrow> string \<Rightarrow> string \<Rightarrow> os \<Rightarrow> 's \<Rightarrow> daemon_event list
      \<Rightarrow> ('e, 'r, 'n) startup_error + bool \<times> ('s, 'q) daemon" where
  "run pl tx version configPath fs sys evs =
     (case startup pl version configPath fs sys of
        Inl e \<Rightarrow> Inl e
      | Inr (cfg, d) \<Rightarrow> Inr (main_loop (daemon_env pl cfg) tx evs d))"

section \<open>Rules\<close>

lemma new_logger_flags: "new_logger cfg s = (Inr l, s') \<Longrightarrow> lg_journal_enabled l = ac_journal_enabled cfg"
  by (auto simp: new_logger_def Let_def split: sum.splits prod.splits if_splits)

lemma hangup_inv: "mgr_inv w \<Longrightarrow> mgr_inv (hangup env w)"
  by (simp add: hangup_def case_prod_unfold reload_policies_inv split: sum.split)

lemma served_sel [simp]:
  "dm_world (served d x) = snd x" "dm_pending (served d x) = dm_pending d"
  by (simp_all add: served_def case_prod_unfold split: call.split)

lemma shutdown_world:
  "dm_world (shutdown env d) =
     (let w = audit_message env DaemonShutdown ''atomicagentd shutting down'' (dm_world d)
      in w\<lparr>w_log := snd (close_logger (w_log w))\<rparr>)"
  by (simp add: shutdown_def server_shutdown_def Let_def)

lemma daemon_step_inv: "mgr_inv (dm_world d) \<Longrightarrow> mgr_inv (dm_world (daemon_step env tx ev d))"
  by (cases ev)
    (auto simp: hangup_inv serve_def serve_falco_def serve_mux_inv run_reset_inv shutdown_world Let_def
      split: option.split os_signal.split)

lemma main_loop_inv: "mgr_inv (dm_world d) \<Longrightarrow> mgr_inv (dm_world (snd (main_loop env tx evs d)))"
  by (induction evs arbitrary: d) (auto simp: daemon_step_inv simp del: daemon_step.simps)

lemma restore_frame:
  "w_log (fold restore_entry es v) = w_log v" "w_clock (fold restore_entry es v) = w_clock v"
  by (induction es arbitrary: v) (simp_all add: restore_entry_def install_def)

lemma start_manager_inv:
  assumes "new_engine lib b p s = (Inr eng, s')"
  shows "mgr_inv (start_manager pl cfg fs sys lg eng)"
  unfolding start_manager_def
  by (rule load_inv, rule new_manager_inv) (use new_engine_wf [OF assms] in auto)

lemma start_manager_at:
  fixes pl :: "('s, 'e, 'q, 'r, 'n) platform"
  assumes "new_engine lib b p s = (Inr eng, s')"
  shows "agent_at (start_manager pl cfg fs sys lg eng) i =
    (case fst (load_registry (cf_workspace_root (cf_agents cfg)) fs) of
       Inl _ \<Rightarrow> None
     | Inr es \<Rightarrow> map_option (\<lambda>e. new_runtime (to_agent_record e) (re_exec_path e)) (List.find (\<lambda>e. re_id e = i) es))"
proof -
  have inv: "mgr_inv ((new_manager fs sys lg eng 0)\<lparr>w_os := t\<rparr>)" for t
    using new_manager_inv [of eng] new_engine_wf [OF assms] by simp
  have "agent_at ((new_manager fs sys lg eng 0)\<lparr>w_os := t\<rparr>) i = None"
      "w_os (new_manager fs sys lg eng 0) = fs" for t
    by (simp_all add: agent_at_def new_manager_def)
  then show ?thesis
    by (simp add: start_manager_def load_persisted_agents_def daemon_env_def case_prod_unfold Let_def
        fold_restore_at [OF inv] split: sum.split)
qed

lemma startup_cases:
  assumes "startup pl version path fs sys = Inr (cfg, d)"
  obtains raw lg fs1 eng fs2 fs3 where "pl_decode_config pl path = Inr raw" "cfg = apply_defaults raw"
    "new_logger (logger_config cfg) fs = (Inr lg, fs1)"
    "new_engine (pl_lib pl) (cf_builtin_policy_dir (cf_policy cfg)) (cf_policy_dir (cf_policy cfg)) fs1 = (Inr eng, fs2)"
    "d = \<lparr>dm_world = audit_message (daemon_env pl cfg) DaemonStarted (''atomicagentd '' @ version @ '' started'')
            ((start_manager pl cfg fs2 sys lg eng)\<lparr>w_os := fs3\<rparr>),
          dm_api_open = True, dm_falco_open = start_falco_listener pl cfg, dm_waiting = 0, dm_pending = None,
          dm_notified = [''READY=1'']\<rparr>"
  using assms by (auto simp: startup_def Let_def split: sum.splits prod.splits)

end
