(* ===== verification/ApiProps.thy ===== *)
theory ApiProps
  imports ApiSpec
begin

text \<open>
  The properties of the API: routing, the shape of the replies, that every request is answered, what
  evaluations leave on the audit trail, and what a runtime alert does.
\<close>

definition sample_texts :: "(string, string) texts" where
  "sample_texts = \<lparr>tx_printable = (\<lambda>_. True), tx_io = (\<lambda>_. ''i/o error''), tx_bus = (\<lambda>e. e), tx_rego = (\<lambda>e. e),
     tx_json = (\<lambda>_. ''bad json'')\<rparr>"

definition request :: "string \<Rightarrow> string \<Rightarrow> string \<Rightarrow> http_request" where
  "request m p body = \<lparr>rq_method = m, rq_path = p, rq_query = [], rq_body = body, rq_broken = False\<rparr>"

text \<open>
  Whatever requests arrive, well formed or not, on either listener, the manager and the policy
  engine stay consistent: the engine knows exactly the registered agents.
\<close>

lemma requests_keep_invariant:
  assumes "engine_wf e" and "eng_agents e = []"
  shows "let w = fold (\<lambda>r w. snd (serve_mux rs env tx r w)) reqs (new_manager s sys l e c)
    in mgr_inv w \<and> (\<forall>i. get_agent i (w_eng w) = map_option policy_view (agent_at w i))"
proof -
  have "mgr_inv (fold (\<lambda>r w. snd (serve_mux rs env tx r w)) reqs (new_manager s sys l e c))"
    by (rule api.run_inv, rule new_manager_inv [OF assms])
  then show ?thesis by (simp add: mgr_inv_def Let_def)
qed

text \<open>
  C38. No request matches two patterns of the table, so that the order in which the handlers are
  registered has no meaning; and an identifier a registration can have reaches the handler of
  each agent operation unchanged.
\<close>

theorem routes_unambiguous:
  "length (filter (\<lambda>(pm, ps, h). method_matches pm m \<and> match_segs ps ss \<noteq> None) api_routes) \<le> 1 \<and>
   (validate_id i = Inr () \<longrightarrow>
      mux_route api_routes ''GET'' (''/v1/agents/'' @ i) = RouteTo EpGet [i] \<and>
      mux_route api_routes ''DELETE'' (''/v1/agents/'' @ i) = RouteTo EpKill [i] \<and>
      mux_route api_routes ''POST'' (''/v1/agents/'' @ i @ ''/start'') = RouteTo EpStart [i] \<and>
      mux_route api_routes ''POST'' (''/v1/agents/'' @ i @ ''/stop'') = RouteTo EpStop [i] \<and>
      mux_route api_routes ''POST'' (''/v1/agents/'' @ i @ ''/unregister'') = RouteTo EpUnregister [i])"
  using one_route [of m ss] agent_routes [of i] by (simp add: validate_id_Inr)

lemma routes_unambiguous_witness:
  "mux_route api_routes ''POST'' (''/v1/agents/'' @ ''a-1'' @ ''/stop'') = RouteTo EpStop [''a-1'']"
proof -
  have "validate_id ''a-1'' = Inr ()" by code_simp
  with routes_unambiguous [of "''GET''" "[]" "''a-1''"] show ?thesis by blast
qed

text \<open>The messages that say what went wrong: those of the manager, of the policy engine and of unreadable bodies.\<close>

definition failure_texts :: "('e, 'r) texts \<Rightarrow> string set" where
  "failure_texts tx =
     range (error_text tx) \<union> range (engine_error_text tx) \<union> {''invalid request body'', ''reading body''}"

lemma error_text_not_Nil: "error_text tx e \<noteq> []"
proof (cases e)
  case (InvalidID x)
  then show ?thesis by (cases x) simp_all
qed simp_all

lemma failure_text_not_Nil: "msg \<in> failure_texts tx \<Longrightarrow> msg \<noteq> []"
proof -
  have "[] \<noteq> engine_error_text tx e" for e by (cases e) simp_all
  then show "msg \<in> failure_texts tx \<Longrightarrow> msg \<noteq> []" by (auto simp: failure_texts_def error_text_not_Nil [THEN not_sym])
qed

text \<open>What a reply may look like, by its status: a document, an error with a message, or nothing at all.\<close>

definition reply_ok :: "('e, 'r) texts \<Rightarrow> http_reply \<Rightarrow> bool" where
  "reply_ok tx rep = (case rep of
     JsonReply n b \<Rightarrow> (\<exists>d. b = json_marshal d @ [newline] \<and> json_decode_first b = Some (json_repair d) \<and>
       (if 400 \<le> n
        then n \<in> {400, 404, 500} \<and> (\<exists>msg \<in> failure_texts tx. msg \<noteq> [] \<and> d = JObj [(''error'', JStr msg)])
        else n = 200 \<or> n = 201))
   | EmptyReply n \<Rightarrow> n = 200
   | LibraryReply n \<Rightarrow> n = 404 \<or> n = 405
   | RedirectReply n loc \<Rightarrow> n = 301)"

lemma write_json_ok: "json_nums d \<Longrightarrow> n = 200 \<or> n = 201 \<Longrightarrow> reply_ok tx (write_json n d)"
  using decode_marshal [of d] by (auto simp: reply_ok_def write_json_def newline_def)

lemma write_error_ok: "n \<in> {400, 404, 500} \<Longrightarrow> msg \<in> failure_texts tx \<Longrightarrow> reply_ok tx (write_error n msg)"
  using decode_marshal [of "JObj [(''error'', JStr msg)]"] failure_text_not_Nil [of msg tx]
  by (auto simp: reply_ok_def write_error_def write_json_def newline_def)

lemma failure_texts_intro [simp]:
  "error_text tx e \<in> failure_texts tx" "engine_error_text tx x \<in> failure_texts tx"
  "''invalid request body'' \<in> failure_texts tx" "''reading body'' \<in> failure_texts tx"
  by (simp_all add: failure_texts_def)

lemma api_docs_nums [simp]:
  "json_nums (agent_response ra)" "json_nums (status_json s)" "json_nums (decision_json d)"
  by (simp_all add: agent_response_def status_json_def decision_json_def)

lemmas replies_ok = write_json_ok write_error_ok

lemma handle_reply_ok: "fst (handle env tx h i r w) = Returned rep \<Longrightarrow> reply_ok tx rep"
  by (cases h)
    (auto simp: replying_def handle_register_agent_def handle_list_agents_def handle_get_agent_def handle_start_agent_def
      handle_stop_agent_def handle_unregister_agent_def handle_kill_agent_def handle_evaluate_policy_def
      handle_reload_policy_def handle_health_def handle_falco_webhook_def Let_def case_prod_unfold list_all_iff
      intro!: replies_ok split: option.splits sum.splits call.splits, auto simp: reply_ok_def)

lemma mux_reply_ok: "serve_mux rs env tx r w = (Returned rep, w') \<Longrightarrow> reply_ok tx rep"
proof (cases "mux_route rs (rq_method r) (rq_path r)")
  case (RouteTo h vs)
  assume "serve_mux rs env tx r w = (Returned rep, w')"
  with RouteTo have "fst (handle env tx h (path_value vs) r w) = Returned rep" by (simp add: serve_mux_def)
  then show ?thesis by (rule handle_reply_ok)
qed (auto simp: serve_mux_def reply_ok_def)

text \<open>
  C15. On both listeners every JSON reply is one document and a newline, with status 200, 201, 400, 404 or
  500. From 400 on the document is an object whose only member is an error message, never empty, and
  always the text of an error of the manager or of the policy engine, or the complaint about the request's
  body. Other replies are the empty success of the webhook and the library's own: not found, method not
  allowed, moved.
\<close>

theorem replies_well_formed:
  assumes "serve env tx r w = (Returned rep, w') \<or> serve_falco env tx r w = (Returned rep, w')"
  shows "reply_ok tx rep"
  using assms by (auto simp: serve_def serve_falco_def intro: mux_reply_ok)

lemma replies_well_formed_witness:
  "reply_ok sample_texts (write_error 404 (error_text sample_texts (NotFound ''zz'' :: string manager_error)))"
proof -
  have "valid_id ''zz''" by code_simp
  moreover have "agent_at sample_world ''zz'' = None" by (simp add: sample_world_def new_manager_def agent_at_def)
  ultimately have "serve sample_env sample_texts (request ''GET'' (''/v1/agents/'' @ ''zz'') []) sample_world
      = (Returned (write_error 404 (error_text sample_texts (NotFound ''zz'' :: string manager_error))), sample_world)"
    using agent_routes(1) [of "''zz''"]
    by (simp add: serve_def serve_mux_def request_def handle_get_agent_def get_status_def replying_def path_value_def)
  then show ?thesis by (intro replies_well_formed disjI1)
qed

text \<open>The action an evaluation request asks about.\<close>

definition requested_action :: "policy_eval_request \<Rightarrow> agent_action" where
  "requested_action req =
     \<lparr>act_agent_id = pe_agent_id req, act_action_type = pe_action_type req,
      act_resource = pe_resource req, act_context = pe_context req, act_timestamp = zero_time\<rparr>"

text \<open>
  C4. No decision is reported that is not on the audit trail: with the journal on, an evaluation request
  answered with 200 has reported the decision of the policy engine on the action requested and left
  exactly one line on the trail, which names the agent and states the same decision; with any other
  answer it has left no trace. It never changes an agent or the engine.
\<close>

theorem decisions_audited:
  assumes "handle_evaluate_policy env tx r w = (rep, w')" and "clock_ok env" and "lg_journal_enabled (w_log w)"
  shows "agent_at w' = agent_at w \<and> w_eng w' = w_eng w \<and>
    (if reply_status rep = 200
     then \<exists>req d line doc.
       decode_stream (dec_struct eval_fields) zero_eval_request (rq_body r) (rq_broken r) = Some req \<and>
       evaluate (env_lib env) (w_eng w) (requested_action req) = (d, None) \<and> rep = write_json 200 (decision_json d) \<and>
       trail (w_log w') = trail (w_log w) @ [line] \<and> json_unmarshal line = Some doc \<and>
       obj_get ''agent_id'' doc = (if pe_agent_id req = [] then None else Some (JStr (utf8_repair (pe_agent_id req)))) \<and>
       obj_get ''decision'' doc = Some (JStr (if pd_allow d then ''allow'' else ''deny''))
     else w' = w)"
proof (cases "decode_stream (dec_struct eval_fields) zero_eval_request (rq_body r) (rq_broken r)")
  case None
  with assms(1) show ?thesis by (auto simp: handle_evaluate_policy_def write_error_def write_json_def)
next
  case (Some req)
  let ?action = "requested_action req"
  obtain d e where ev: "evaluate (env_lib env) (w_eng w) ?action = (d, e)" by fastforce
  show ?thesis
  proof (cases e)
    case (Some err)
    with ev assms(1) \<open>decode_stream _ _ _ _ = Some req\<close> show ?thesis
      by (auto simp: handle_evaluate_policy_def requested_action_def write_error_def write_json_def)
  next
    case None
    let ?l = "log_agent_action (env_sinks env) (env_now env (w_clock w)) (pe_agent_id req) (pe_action_type req)
      (pe_resource req) (pd_profile d) (if pd_allow d then ''allow'' else ''deny'') (pd_reasons d) (w_log w)"
    have w': "rep = write_json 200 (decision_json d)" "w' = (snd (read_clock env w))\<lparr>w_log := ?l\<rparr>"
      using assms(1) ev None \<open>decode_stream _ _ _ _ = Some req\<close>
      by (auto simp: handle_evaluate_policy_def requested_action_def read_clock_def)
    have now: "time_printable (env_now env (w_clock w))" using assms(2) by (simp add: clock_ok_def)
    let ?dec = "if pd_allow d then ''allow'' else ''deny''"
    from action_line [OF assms(3) now, of "env_sinks env" "pe_agent_id req" "pe_action_type req" "pe_resource req"
        "pd_profile d" ?dec "pd_reasons d"]
    obtain line doc where l: "trail ?l = trail (w_log w) @ [line]" "json_unmarshal line = Some doc"
        "obj_get ''agent_id'' doc = (if pe_agent_id req = [] then None else Some (JStr (utf8_repair (pe_agent_id req))))"
      and dec: "obj_get ''decision'' doc = (if ?dec = [] then None else Some (JStr (utf8_repair ?dec)))" by blast
    have "?dec \<noteq> []" "utf8_repair ?dec = ?dec" by (simp_all add: utf8_repair_ascii ascii_lits)
    with dec have "obj_get ''decision'' doc = Some (JStr ?dec)" by (simp only: if_False)
    with l w' ev have "evaluate (env_lib env) (w_eng w) ?action = (d, None)" "trail (w_log w') = trail (w_log w) @ [line]"
      "json_unmarshal line = Some doc" "obj_get ''decision'' doc = Some (JStr ?dec)" using None by simp_all
    moreover have "agent_at w' = agent_at w" "w_eng w' = w_eng w" by (simp_all add: w')
    moreover have ok: "reply_status rep = 200" by (simp add: w' write_json_def)
    ultimately show ?thesis using w'(1) l(3) \<open>decode_stream _ _ _ _ = Some req\<close> unfolding if_P [OF ok] by blast
  qed
qed

text \<open>
  C21. What a runtime alert does: once its body has been read as an alert the answer is success, whatever
  becomes of it; no agent but the one it names (underscores read as hyphens) changes, and that one only by
  an alert of critical priority, in any case of letters. It is then marked killed, with the rule as the
  reason, when systemd accepts the signal, and is left as it was when systemd refuses. Without a critical
  alert the bus is not asked.
\<close>

theorem alert_outcome:
  assumes "mgr_inv w" and "read_limited falco_body_limit (rq_body r) (rq_broken r) = Some body"
    and "decoded (dec_struct falco_payload_fields) zero_falco_payload (json_unmarshal body) = Some p"
    and "handle_falco_webhook env r w = (rep, w')"
  shows "let i = replace_all (CHR ''_'') (CHR ''-'') (ff_env_atomic (fp_fields p)) in
      rep = EmptyReply 200 \<and> (\<forall>j. j \<noteq> i \<longrightarrow> agent_at w' j = agent_at w j) \<and>
      (if to_upper (fp_priority p) = ''CRITICAL'' \<and> i \<noteq> []
       then agent_at w' i =
         (if is_ok (fst (cn_kill_unit (env_conn env) (systemd_unit_name i) 9 (w_sys w)))
          then map_option (killed_agent (env_now env (Suc (w_clock w))) (''falco critical: '' @ fp_rule p)) (agent_at w i)
          else agent_at w i)
       else agent_at w' i = agent_at w i \<and> w_sys w' = w_sys w)"
proof -
  let ?i = "replace_all (CHR ''_'') (CHR ''-'') (ff_env_atomic (fp_fields p))"
  let ?l = "log_runtime_alert (env_sinks env) (env_now env (w_clock w)) ?i (fp_rule p) (fp_output p)
    (to_upper (fp_priority p) = ''CRITICAL'') (w_log w)"
  let ?v = "(snd (read_clock env w))\<lparr>w_log := ?l\<rparr>"
  have rep: "rep = EmptyReply 200" and w': "w' = falco_alert env p w"
    using assms(2-4) by (auto simp: handle_falco_webhook_def)
  have v: "mgr_inv ?v" "agent_at ?v = agent_at w" "w_sys ?v = w_sys w" using assms(1) by simp_all
  have clock: "w_clock ?v = Suc (w_clock w)" by (simp add: read_clock_def)
  show ?thesis
  proof (cases "to_upper (fp_priority p) = ''CRITICAL'' \<and> ?i \<noteq> []")
    case True
    let ?reason = "''falco critical: '' @ fp_rule p"
    obtain x u where k: "kill env ?i ?reason ?v = (x, u)" by fastforce
    with True have u: "w' = u" by (simp add: w' falco_alert_def Let_def case_prod_unfold) (simp add: read_clock_def)
    from kill_effect [OF v(1) k, unfolded v(2) clock] have at: "case x of Inl _ \<Rightarrow> agent_at w' = agent_at w
      | Inr _ \<Rightarrow> agent_at w' = (agent_at w)(?i := map_option (killed_agent (env_now env (Suc (w_clock w))) ?reason) (agent_at w ?i))"
      unfolding u .
    have "is_ok x \<longleftrightarrow> is_ok (fst (cn_kill_unit (env_conn env) (systemd_unit_name ?i) 9 (w_sys w)))"
      using kill_result [of env ?i ?reason ?v, unfolded v(3)] k by (simp split: sum.splits)
    with at rep show ?thesis unfolding Let_def if_P [OF True] by (cases x) simp_all
  next
    case False
    then have "w' = ?v" by (auto simp: w' falco_alert_def Let_def case_prod_unfold read_clock_def)
    with v rep show ?thesis unfolding Let_def by (simp only: if_not_P [OF False]) simp
  qed
qed

lemma decisions_audited_witness:
  "\<exists>rep w' line. handle_evaluate_policy sample_env sample_texts (request ''POST'' ''/v1/policy/evaluate'' ''{}'') sample_world = (rep, w') \<and>
     trail (w_log w') = trail (w_log sample_world) @ [line]"
proof -
  let ?r = "request ''POST'' ''/v1/policy/evaluate'' ''{}''"
  obtain rep w' where h: "handle_evaluate_policy sample_env sample_texts ?r sample_world = (rep, w')" by fastforce
  have "decode_stream (dec_struct eval_fields) zero_eval_request ''{}'' False = Some zero_eval_request" by code_simp
  then have "reply_status (fst (handle_evaluate_policy sample_env sample_texts ?r sample_world)) = 200"
    by (simp add: handle_evaluate_policy_def request_def evaluate_def zero_eval_request_def sample_world_def
        new_manager_def write_json_def case_prod_unfold Let_def)
  with decisions_audited [OF h] h show ?thesis by auto
qed

definition sample_alert :: json where
  "sample_alert = JObj [(''priority'', JStr ''Critical''), (''rule'', JStr ''shell''),
     (''output_fields'', JObj [(''proc.env[ATOMIC_AGENT_ID]'', JStr ''a1'')])]"

lemma sample_alert_decoded:
  "decoded (dec_struct falco_payload_fields) zero_falco_payload (json_unmarshal (json_marshal sample_alert)) =
     Some (zero_falco_payload\<lparr>fp_priority := ''Critical'', fp_rule := ''shell'',
       fp_fields := \<lparr>ff_container_id = [], ff_env_atomic = ''a1''\<rparr>\<rparr>)"
  by code_simp

lemma alert_outcome_witness:
  "state_of (snd (handle_falco_webhook sample_env (request ''POST'' ''/falco'' (json_marshal sample_alert)) (world_with StateRunning))) ''a1''
     = Some StateKilled"
proof -
  obtain rep w' where h: "handle_falco_webhook sample_env (request ''POST'' ''/falco'' (json_marshal sample_alert)) (world_with StateRunning) = (rep, w')"
    by fastforce
  have b: "read_limited falco_body_limit (rq_body (request ''POST'' ''/falco'' (json_marshal sample_alert)))
      (rq_broken (request ''POST'' ''/falco'' (json_marshal sample_alert))) = Some (json_marshal sample_alert)"
  proof -
    have "length (json_marshal sample_alert) < 200" by code_simp
    then show ?thesis by (simp add: read_limited_def request_def falco_body_limit_def)
  qed
  have c: "to_upper ''Critical'' = ''CRITICAL''" "replace_all (CHR ''_'') (CHR ''-'') ''a1'' = ''a1''" by code_simp+
  have k: "is_ok (fst (cn_kill_unit (env_conn sample_env) u n s))" for u n s by (simp add: sample_env_def sample_conn_def)
  have "agent_at w' ''a1'' = map_option (killed_agent (env_now sample_env (Suc (w_clock (world_with StateRunning)))) (''falco critical: '' @ ''shell''))
      (agent_at (world_with StateRunning) ''a1'')"
    using alert_outcome [OF world_with_inv b sample_alert_decoded h]
    unfolding Let_def by (simp add: zero_falco_payload_def c k del: to_upper.simps)
  with h show ?thesis by (simp add: state_of_def world_with_at(1))
qed

text \<open>
  C30. A registered agent can be looked up: the document that answers a registration is the one a lookup
  of the requested identifier answers right after it.
\<close>

theorem registered_is_shown:
  assumes "mgr_inv w"
    and "decode_stream (dec_struct register_fields) zero_register_request (rq_body r) (rq_broken r) = Some req"
    and "handle_register_agent env tx r w = (JsonReply 201 b, w')"
  shows "serve env tx (request ''GET'' (''/v1/agents/'' @ rr_id req) []) w' = (Returned (JsonReply 200 b), w')"
proof -
  let ?p = "if rr_profile req = [] then ''minimal'' else rr_profile req"
  obtain x v where rg: "register env (rr_id req) ?p (rr_exec req) w = (x, v)" by fastforce
  with assms(2,3) obtain a where a: "x = Inr a" "w' = v" "b = json_marshal (agent_response (the (w_heap v a))) @ [newline]"
    by (cases x) (auto simp: handle_register_agent_def write_error_def write_json_def Let_def)
  have id: "valid_id (rr_id req)"
    using register_effect [OF assms(1) rg] a(1) by (simp add: validate_id_Inr)
  have "map_of (w_agents v) (rr_id req) = Some a" using register_pointer [OF rg [unfolded a(1)]] .
  moreover have "mgr_inv v" using register_inv [OF assms(1), of env "rr_id req" ?p "rr_exec req"] rg by simp
  ultimately obtain ra where "w_heap v a = Some ra" "agent_at v (rr_id req) = Some ra" by (elim mgr_inv_agent)
  then show ?thesis using agent_routes(1) [OF id] a
    by (simp add: serve_def serve_mux_def request_def path_value_def replying_def handle_get_agent_def get_status_def write_json_def)
qed

definition sample_registration :: json where
  "sample_registration = JObj [(''id'', JStr ''a1'')]"

lemma registered_is_shown_witness:
  "\<exists>b w'. handle_register_agent sample_env sample_texts (request ''POST'' ''/v1/agents'' (json_marshal sample_registration))
      sample_world = (JsonReply 201 b, w') \<and>
    fst (serve sample_env sample_texts (request ''GET'' (''/v1/agents/'' @ ''a1'') []) w') = Returned (JsonReply 200 b)"
proof -
  let ?r = "request ''POST'' ''/v1/agents'' (json_marshal sample_registration)"
  have d: "decode_stream (dec_struct register_fields) zero_register_request (json_marshal sample_registration) False
      = Some (zero_register_request\<lparr>rr_id := ''a1''\<rparr>)" by code_simp
  obtain a w' where g: "register sample_env ''a1'' ''minimal'' [] sample_world = (Inr a, w')"
    using sample_register by blast
  then have "\<exists>b. handle_register_agent sample_env sample_texts ?r sample_world = (JsonReply 201 b, w')"
    by (simp add: handle_register_agent_def request_def d [unfolded zero_register_request_def] zero_register_request_def write_json_def)
  then obtain b where h: "handle_register_agent sample_env sample_texts ?r sample_world = (JsonReply 201 b, w')" ..
  have d': "decode_stream (dec_struct register_fields) zero_register_request (rq_body ?r) (rq_broken ?r)
      = Some (zero_register_request\<lparr>rr_id := ''a1''\<rparr>)" by (simp add: d request_def)
  from registered_is_shown [OF sample_world_inv d' h] h show ?thesis by simp
qed

text \<open>
  C34. A kill does not ask whether the agent is registered: for any identifier at all, if systemd accepts
  the signal, the answer is success and no registered agent has changed; with the journal on, the audit
  trail has the unregistered agent killed. (An identifier that \<open>ValidateID\<close> accepts reaches the handler
  as it stands in the path of the request.)
\<close>

theorem kill_needs_no_registration:
  assumes "mgr_inv w" and "agent_at w i = None"
    and "is_ok (fst (cn_kill_unit (env_conn env) (systemd_unit_name i) 9 (w_sys w)))"
    and "handle_kill_agent env tx i w = (rep, w')"
  shows "rep = write_json 200 (status_json ''killed'') \<and> agent_at w' = agent_at w
    \<and> (clock_ok env \<and> lg_journal_enabled (w_log w) \<longrightarrow>
        audited AgentKilled i (''agent '' @ i @ '' killed: operator requested kill'') w w')
    \<and> (valid_id i \<longrightarrow> serve env tx (request ''DELETE'' (''/v1/agents/'' @ i) []) w = (Returned rep, w'))"
proof -
  obtain x v where k: "kill env i ''operator requested kill'' w = (x, v)" by fastforce
  have x: "x = Inr ()" using kill_result [of env i "''operator requested kill''" w] k assms(3) by (auto split: sum.splits)
  have rep: "rep = write_json 200 (status_json ''killed'')" "w' = v"
    using assms(4) k x by (simp_all add: handle_kill_agent_def)
  moreover have "agent_at v = agent_at w" using kill_effect [OF assms(1) k] x assms(2) by (simp add: fun_upd_idem)
  moreover have "serve env tx (request ''DELETE'' (''/v1/agents/'' @ i) []) w = (Returned rep, w')" if "valid_id i"
    using assms(4) agent_routes(2) [OF that] by (simp add: serve_def serve_mux_def request_def path_value_def replying_def)
  ultimately show ?thesis using kill_trail [OF _ _ k] x by simp
qed

lemma kill_needs_no_registration_witness:
  "agent_at sample_world ''zz'' = None \<and>
   fst (serve sample_env sample_texts (request ''DELETE'' (''/v1/agents/'' @ ''zz'') []) sample_world)
     = Returned (write_json 200 (status_json ''killed''))"
proof -
  obtain rep w' where s: "handle_kill_agent sample_env sample_texts ''zz'' sample_world = (rep, w')" by fastforce
  have n: "agent_at sample_world ''zz'' = None" by (simp add: sample_world_def new_manager_def agent_at_def)
  have "valid_id ''zz''" by code_simp
  with kill_needs_no_registration [OF sample_world_inv n _ s] n show ?thesis
    by (simp add: sample_env_def sample_conn_def)
qed

end
