(* ===== verification/DaemonProps.thy ===== *)
theory DaemonProps
  imports Daemon ApiProps
begin

text \<open>
  The properties of the daemon as a whole: what a successful start leads to, that the audit trail is only
  ever appended to, when the daemon ends, and which settings have no effect.
\<close>

section \<open>The audit trail only grows\<close>

definition log_grows :: "('s, 'q) world \<Rightarrow> ('s, 'q) world \<Rightarrow> bool" where
  "log_grows w w' \<longleftrightarrow> lg_journal_enabled (w_log w') = lg_journal_enabled (w_log w) \<and>
     prefix (trail (w_log w)) (trail (w_log w'))"

lemma log_grows_refl [simp]: "log_grows w w"
  by (simp add: log_grows_def)

lemma log_grows_trans: "log_grows u v \<Longrightarrow> log_grows v w \<Longrightarrow> log_grows u w"
  by (auto simp: log_grows_def)

lemma log_grows_same: "w_log w' = w_log w \<Longrightarrow> log_grows w w'"
  by (simp add: log_grows_def)

lemma log_event_prefix [simp]: "prefix (trail l) (trail (log_event sk e l))"
  by (auto simp: log_event_def Let_def to_journal_def split: option.split)

lemma log_grows_event: "w_log w' = log_event sk e (w_log w) \<Longrightarrow> log_grows w w'"
  by (simp add: log_grows_def)

lemma audit_lifecycle_grows: "w_log v = w_log w \<Longrightarrow> log_grows w (audit_lifecycle env i ty msg v)"
  by (rule log_grows_event) (simp add: audit_lifecycle_def log_agent_lifecycle_def read_clock_def)

lemma audit_message_grows [simp]: "log_grows w (audit_message env ty msg w)"
  by (rule log_grows_event) (simp add: audit_message_def read_clock_def)

lemma register_grows: "log_grows w (snd (register env i p x w))"
  by (auto simp: register_def register_new_def Let_def case_prod_unfold
      intro!: log_grows_same audit_lifecycle_grows split: sum.splits)

lemma unregister_grows: "log_grows w (snd (unregister env i purge w))"
  by (auto simp: unregister_def unregister_known_def Let_def intro!: log_grows_same audit_lifecycle_grows split: option.splits)

lemma start_grows:
  fixes env :: "('s, 'e, 'q, 'r) env"
  shows "log_grows w (snd (start env i w))"
proof -
  have e: "w_log w1 = w_log w" if "start_enter i w = (x :: 'e manager_error + _, w1)" for x w1
    using enter_log [of i w] that by (metis snd_conv)
  obtain r w' where "start env i w = (r, w')" by fastforce
  then show ?thesis
    by (cases rule: start_cases)
      (auto simp: \<open>start env i w = (r, w')\<close> start_audit_def dest!: e intro!: log_grows_same audit_lifecycle_grows)
qed

lemma stop_grows: "log_grows w (snd (stop env i w))"
proof -
  obtain r w' where "stop env i w = (r, w')" by fastforce
  then show ?thesis
    by (cases rule: stop_cases)
      (auto simp: \<open>stop env i w = (r, w')\<close> stop_audit_def intro!: log_grows_same audit_lifecycle_grows)
qed

lemma kill_grows: "log_grows w (snd (kill env i reason w))"
proof -
  obtain r w' where "kill env i reason w = (r, w')" by fastforce
  then show ?thesis
    by (cases rule: kill_cases)
      (auto simp: \<open>kill env i reason w = (r, w')\<close> kill_audit_def intro!: log_grows_same audit_lifecycle_grows)
qed

lemma reload_policies_grows: "log_grows w (snd (reload_policies env w))"
  by (rule log_grows_same) (simp add: reload_policies_def case_prod_unfold Let_def)

lemma reload_audit_grows: "log_grows w (audit_message env ty msg (snd (reload_policies env w)))"
  by (rule log_grows_trans [OF reload_policies_grows audit_message_grows])

lemma run_reset_grows: "log_grows w (run_reset env w)"
  by (rule log_grows_same) (simp add: run_reset_def split: list.split)

lemma falco_alert_grows: "log_grows w (falco_alert env p w)"
proof -
  let ?v = "(snd (read_clock env w))\<lparr>w_log := log_runtime_alert (env_sinks env) (fst (read_clock env w))
    (replace_all (CHR ''_'') (CHR ''-'') (ff_env_atomic (fp_fields p))) (fp_rule p) (fp_output p)
    (to_upper (fp_priority p) = ''CRITICAL'') (w_log (snd (read_clock env w)))\<rparr>"
  have "log_grows w ?v" by (rule log_grows_event) (simp add: log_runtime_alert_def Let_def read_clock_def)
  then show ?thesis
    by (simp only: falco_alert_def Let_def case_prod_unfold) (auto intro: log_grows_trans [OF _ kill_grows])
qed

lemma handle_grows: "log_grows w (snd (handle env tx h i r w))"
proof (cases h)
  case EpRegister
  then show ?thesis
    by (simp add: replying_def handle_register_agent_def Let_def case_prod_unfold register_grows
        split: option.split sum.split)
next
  case EpList
  then show ?thesis by (simp add: replying_def handle_list_agents_def list_agents_def iterate_def log_grows_same)
next
  case EpGet
  then show ?thesis by (simp add: replying_def handle_get_agent_def split: sum.split)
next
  case EpStart
  then show ?thesis
    by (simp add: handle_start_agent_def case_prod_unfold start_grows split: call.split sum.split)
next
  case EpStop
  then show ?thesis
    by (simp add: handle_stop_agent_def case_prod_unfold stop_grows split: call.split sum.split)
next
  case EpUnregister
  then show ?thesis
    by (simp add: replying_def handle_unregister_agent_def Let_def case_prod_unfold unregister_grows split: sum.split)
next
  case EpKill
  then show ?thesis
    by (simp add: replying_def handle_kill_agent_def case_prod_unfold kill_grows split: sum.split)
next
  case EpEvaluate
  then show ?thesis
    by (simp add: replying_def handle_evaluate_policy_def Let_def case_prod_unfold log_agent_action_def read_clock_def
        log_grows_event split: option.split)
next
  case EpReload
  then show ?thesis
    by (simp add: replying_def handle_reload_policy_def case_prod_unfold reload_policies_grows reload_audit_grows split: sum.split)
next
  case EpFalco
  then show ?thesis
    by (simp add: replying_def handle_falco_webhook_def falco_alert_grows split: option.split)
qed simp

lemma serve_grows: "log_grows w (snd (serve_mux rs env tx r w))"
  by (simp add: serve_mux_def handle_grows split: routed.split)

lemma close_logger_trail [simp]:
  "trail (snd (close_logger l)) = trail l" "lg_journal_enabled (snd (close_logger l)) = lg_journal_enabled l"
  by (simp_all add: close_logger_def trail_def split: audit_file.split)

lemma shutdown_grows: "dm_world e = dm_world d \<Longrightarrow> log_grows (dm_world d) (dm_world (shutdown env e))"
  using audit_message_grows [of "dm_world d" env DaemonShutdown "''atomicagentd shutting down''"]
  by (simp add: shutdown_world Let_def log_grows_def)

lemma hangup_grows: "log_grows w (hangup env w)"
  by (simp add: hangup_def case_prod_unfold reload_policies_grows reload_audit_grows split: sum.split)

lemma daemon_step_grows: "log_grows (dm_world d) (dm_world (daemon_step env tx ev d))"
  by (cases ev)
    (auto simp: hangup_grows serve_def serve_falco_def serve_grows run_reset_grows shutdown_grows
      split: option.split os_signal.split)

interpretation life: op_system "daemon_step env tx" "\<lambda>d. mgr_inv (dm_world d)" for env tx
  by unfold_locales (rule daemon_step_inv)

lemma events_grow: "log_grows (dm_world d) (dm_world (fold (daemon_step env tx) evs d))"
proof (induction evs arbitrary: d)
  case (Cons ev evs)
  show ?case using log_grows_trans [OF daemon_step_grows Cons.IH] by (simp del: daemon_step.simps)
qed simp

section \<open>Samples\<close>

definition sample_config :: daemon_config where
  "sample_config =
     \<lparr>cf_agents = \<lparr>cf_default_profile = [], cf_workspace_root = ''/v'', cf_api_socket = [], cf_max_concurrent = 5\<rparr>,
      cf_audit = \<lparr>cf_journal_enabled = True, cf_journal_identifier = [], cf_file_enabled = False, cf_file_path = []\<rparr>,
      cf_policy = \<lparr>cf_policy_dir = [], cf_builtin_policy_dir = ''/p''\<rparr>,
      cf_runtime = \<lparr>cf_falco_enabled = False, cf_falco_webhook_url = [], cf_auto_kill_on_critical = False\<rparr>\<rparr>"

definition sample_platform :: "(nat, string, string list, string, string) platform" where
  "sample_platform = \<lparr>pl_decode_config = (\<lambda>_. Inr sample_config), pl_connect_bus = Inr (), pl_conn = sample_conn,
     pl_lib = sample_lib, pl_sinks = \<lparr>sink_send = (\<lambda>_. True), sink_write = (\<lambda>_. True)\<rparr>,
     pl_now = (\<lambda>_. sample_time), pl_order = (\<lambda>_ ids. ids), pl_listen_unix = (\<lambda>_. Listens),
     pl_listen_tcp = (\<lambda>_. Inr ()), pl_url_host = (\<lambda>_. None)\<rparr>"

lemma sample_startup: "\<exists>cfg d. startup sample_platform ''1'' ''/etc/c'' sample_os 0 = Inr (cfg, d)"
proof -
  have "is_ok (fst (new_engine sample_lib ''/p'' [] sample_os))" by code_simp
  then obtain e s where "new_engine sample_lib ''/p'' [] sample_os = (Inr e, s)" by (blast dest: is_ok_fst)
  then show ?thesis
    by (simp add: startup_def sample_platform_def sample_config_def apply_defaults_def or_default_def logger_config_def
        new_logger_def server_start_def Let_def)
qed

section \<open>Properties\<close>

text \<open>
  C28. What a daemon that has started manages: exactly the agents its registry file lists, on the disk
  as the audit log and the policy engine left it, each in state registered with what the first entry of its
  identifier says, and none when the file cannot be read or parsed. The policy engine knows the same agents
  and has a query for each of the three shipped profiles; and with the journal on the start, and nothing
  else, is on the audit trail.
\<close>

theorem startup_state:
  assumes "startup pl version path fs sys = Inr (cfg, d)" and "\<forall>n. time_printable (pl_now pl n)"
  shows "\<exists>lg fs1 eng fs2. new_logger (logger_config cfg) fs = (Inr lg, fs1)
    \<and> new_engine (pl_lib pl) (cf_builtin_policy_dir (cf_policy cfg)) (cf_policy_dir (cf_policy cfg)) fs1 = (Inr eng, fs2)
    \<and> (\<forall>i. agent_at (dm_world d) i =
        (case fst (load_registry (cf_workspace_root (cf_agents cfg)) fs2) of
           Inl _ \<Rightarrow> None
         | Inr es \<Rightarrow> map_option (\<lambda>e. new_runtime (to_agent_record e) (re_exec_path e)) (List.find (\<lambda>e. re_id e = i) es)))
    \<and> (\<forall>i. get_agent i (w_eng (dm_world d)) = map_option policy_view (agent_at (dm_world d) i))
    \<and> dom (map_of (eng_queries (w_eng (dm_world d)))) = set profiles
    \<and> (cf_journal_enabled (cf_audit cfg) \<longrightarrow> trail (w_log (dm_world d)) =
        [event_line (new_event (pl_now pl 0) DaemonStarted SeverityInfo (''atomicagentd '' @ version @ '' started''))])"
  using assms(1)
proof (cases rule: startup_cases)
  case (1 raw lg fs1 eng fs2 fs3)
  let ?w = "(start_manager pl cfg fs2 sys lg eng)\<lparr>w_os := fs3\<rparr>"
  have inv: "mgr_inv ?w" by (simp add: start_manager_inv [OF 1(4)])
  have lg: "w_log ?w = lg" "w_clock ?w = 0"
    by (simp_all add: start_manager_def load_persisted_agents_def case_prod_unfold Let_def restore_frame new_manager_def split: sum.split)
  have new: "trail lg = []" "lg_journal_enabled lg = cf_journal_enabled (cf_audit cfg)"
    using 1(3) by (auto simp: new_logger_def logger_config_def trail_def Let_def split: sum.splits prod.splits if_splits)
  have "trail (log_event sk (new_event (pl_now pl 0) ty SeverityInfo msg) lg) = [event_line (new_event (pl_now pl 0) ty SeverityInfo msg)]"
    if "cf_journal_enabled (cf_audit cfg)" for sk ty msg
    using log_event_trail [of lg "new_event (pl_now pl 0) ty SeverityInfo msg" sk] that new assms(2) by simp
  moreover have "trail (w_log (audit_message (daemon_env pl cfg) ty msg ?w))
      = trail (log_event (pl_sinks pl) (new_event (pl_now pl 0) ty SeverityInfo msg) lg)" for ty msg
    using lg by (simp add: audit_message_def read_clock_def daemon_env_def)
  moreover have "dom (map_of (eng_queries (w_eng ?w))) = set profiles"
      "get_agent i (w_eng ?w) = map_option policy_view (agent_at ?w i)" for i
    using inv by (simp_all add: mgr_inv_def engine_wf_def)
  moreover have "agent_at ?w i =
      (case fst (load_registry (cf_workspace_root (cf_agents cfg)) fs2) of
         Inl _ \<Rightarrow> None
       | Inr es \<Rightarrow> map_option (\<lambda>e. new_runtime (to_agent_record e) (re_exec_path e)) (List.find (\<lambda>e. re_id e = i) es))" for i
    using start_manager_at [OF 1(4)] by simp
  ultimately show ?thesis using 1(3,4) by (simp add: 1(5))
qed

lemma startup_state_witness:
  "\<exists>cfg d. startup sample_platform ''1'' ''/etc/c'' sample_os 0 = Inr (cfg, d) \<and>
     dom (map_of (eng_queries (w_eng (dm_world d)))) = set profiles"
proof -
  obtain cfg d where s: "startup sample_platform ''1'' ''/etc/c'' sample_os 0 = Inr (cfg, d)" using sample_startup by blast
  have "\<forall>n. time_printable (pl_now sample_platform n)" by (simp add: sample_platform_def)
  from startup_state [OF s this] s show ?thesis by blast
qed

text \<open>
  C6. From its start on, through every request, signal and late reset, the daemon's state stays consistent,
  and its audit trail is only appended to: what was on it stays, in place.
\<close>

theorem daemon_invariant:
  assumes "startup pl version path fs sys = Inr (cfg, d)"
  shows "let e = fold (daemon_step (daemon_env pl cfg) tx) evs1 d; f = fold (daemon_step (daemon_env pl cfg) tx) evs2 e in
    mgr_inv (dm_world f) \<and> prefix (trail (w_log (dm_world e))) (trail (w_log (dm_world f)))"
proof -
  have "mgr_inv (dm_world d)" using assms by (cases rule: startup_cases) (simp add: start_manager_inv)
  then have "mgr_inv (dm_world (fold (daemon_step (daemon_env pl cfg) tx) evs1 d))" by (rule life.run_inv)
  then have "mgr_inv (dm_world (fold (daemon_step (daemon_env pl cfg) tx) evs2
      (fold (daemon_step (daemon_env pl cfg) tx) evs1 d)))" by (rule life.run_inv)
  then show ?thesis
    using events_grow [of "fold (daemon_step (daemon_env pl cfg) tx) evs1 d" "daemon_env pl cfg" tx evs2]
    by (simp add: Let_def log_grows_def)
qed

lemma daemon_invariant_witness:
  "\<exists>cfg d. startup sample_platform ''1'' ''/etc/c'' sample_os 0 = Inr (cfg, d) \<and>
     mgr_inv (dm_world (fold (daemon_step (daemon_env sample_platform cfg) sample_texts) [Signal SIGHUP, Receive] d))"
proof -
  obtain cfg d where s: "startup sample_platform ''1'' ''/etc/c'' sample_os 0 = Inr (cfg, d)" using sample_startup by blast
  from daemon_invariant [OF s, of sample_texts "[]" "[Signal SIGHUP, Receive]"] s show ?thesis by (auto simp: Let_def)
qed

text \<open>As long as the daemon does not receive, a pending signal stays.\<close>

lemma pending_stays:
  assumes "dm_pending d = Some sig" and "Receive \<notin> set evs"
  shows "dm_pending (fold (daemon_step env tx) evs d) = Some sig"
  using assms
proof (induction evs arbitrary: d)
  case (Cons ev evs)
  then have "dm_pending (daemon_step env tx ev d) = Some sig" by (cases ev) simp_all
  with Cons show ?case by (simp del: daemon_step.simps)
qed simp

lemma main_loop_waits:
  "Receive \<notin> set evs \<Longrightarrow> main_loop env tx (evs @ rest) d = main_loop env tx rest (fold (daemon_step env tx) evs d)"
  by (induction evs arbitrary: d) (auto simp del: daemon_step.simps)

lemma shutdown_trail:
  assumes "clock_ok env" and "lg_journal_enabled (w_log (dm_world d))"
  shows "trail (w_log (dm_world (shutdown env d))) = trail (w_log (dm_world d)) @
    [event_line (new_event (env_now env (w_clock (dm_world d))) DaemonShutdown SeverityInfo ''atomicagentd shutting down'')]"
proof -
  let ?e = "new_event (env_now env (w_clock (dm_world d))) DaemonShutdown SeverityInfo ''atomicagentd shutting down''"
  have "time_printable (e_time ?e)" using assms(1) by (simp add: clock_ok_def)
  with assms(2) show ?thesis
    by (simp add: shutdown_world audit_message_def read_clock_def Let_def log_event_trail)
qed

lemma signal_received:
  assumes "dm_pending d = None" and "sig = SIGTERM \<or> sig = SIGINT" and "Receive \<notin> set evs"
  shows "let e = fold (daemon_step env tx) evs (d\<lparr>dm_pending := Some sig\<rparr>) in
    \<exists>f. main_loop env tx (Signal sig # evs @ Receive # rest) d = (True, f)
      \<and> agent_at (dm_world f) = agent_at (dm_world e)
      \<and> (clock_ok env \<and> lg_journal_enabled (w_log (dm_world d)) \<longrightarrow>
          trail (w_log (dm_world f)) = trail (w_log (dm_world e)) @
            [event_line (new_event (env_now env (w_clock (dm_world e))) DaemonShutdown SeverityInfo
              ''atomicagentd shutting down'')])"
proof -
  let ?e = "fold (daemon_step env tx) evs (d\<lparr>dm_pending := Some sig\<rparr>)"
  let ?f = "shutdown env (?e\<lparr>dm_pending := None\<rparr>)"
  have p: "dm_pending ?e = Some sig" using assms(3) by (simp add: pending_stays)
  then have end_step: "told_to_end ?e" "daemon_step env tx Receive ?e = ?f"
    using assms(2) by (auto simp: told_to_end_def)
  have "main_loop env tx (Signal sig # evs @ Receive # rest) d = main_loop env tx (evs @ Receive # rest) (d\<lparr>dm_pending := Some sig\<rparr>)"
    using assms(1) by simp
  also have "\<dots> = (True, ?f)" using end_step main_loop_waits [OF assms(3), of env tx "Receive # rest"]
    by (simp del: daemon_step.simps)
  finally have "main_loop env tx (Signal sig # evs @ Receive # rest) d = (True, ?f)" .
  moreover have "agent_at (dm_world ?f) = agent_at (dm_world ?e)"
    by (simp add: shutdown_world Let_def)
  moreover have "lg_journal_enabled (w_log (dm_world ?e))" if "lg_journal_enabled (w_log (dm_world d))"
    using events_grow [of "d\<lparr>dm_pending := Some sig\<rparr>" env tx evs] that by (simp add: log_grows_def)
  ultimately show ?thesis using shutdown_trail [of env "?e\<lparr>dm_pending := None\<rparr>"] by (simp add: Let_def)
qed

lemma not_told_goes_on:
  "\<not> told_to_end d \<Longrightarrow> Signal SIGTERM \<notin> set evs \<Longrightarrow> Signal SIGINT \<notin> set evs \<Longrightarrow> \<not> fst (main_loop env tx evs d)"
proof (induction evs arbitrary: d)
  case (Cons ev evs)
  have "\<not> told_to_end (daemon_step env tx ev d)"
  proof (cases ev)
    case (Signal sig)
    with Cons.prems show ?thesis by (cases sig) (auto simp: told_to_end_def)
  next
    case Receive
    with Cons.prems(1) show ?thesis by (auto simp: told_to_end_def split: option.split os_signal.split)
  qed (use Cons.prems(1) in \<open>auto simp: told_to_end_def\<close>)
  with Cons show ?case by (simp del: daemon_step.simps)
qed simp

text \<open>
  C29. What a \<open>SIGTERM\<close> or \<open>SIGINT\<close> does depends on the channel. If it is empty, the daemon ends at its
  next receive, whatever requests, late resets and further signals come in between, and whatever requests are
  still waiting for systemd; what came in between has been done, no later event is, and with the journal on the
  shutdown is the last line on the audit trail. But if a \<open>SIGHUP\<close> is still waiting to be received the signal
  is lost: everything goes on as if it had not been sent, and unless another one comes the daemon never ends.
\<close>

theorem signal_needs_room:
  assumes "sig = SIGTERM \<or> sig = SIGINT" and "Receive \<notin> set evs"
  shows "let e = fold (daemon_step env tx) evs (d\<lparr>dm_pending := Some sig\<rparr>); later = evs @ Receive # rest in
    (dm_pending d = None \<longrightarrow>
      (\<exists>f. main_loop env tx (Signal sig # later) d = (True, f)
        \<and> agent_at (dm_world f) = agent_at (dm_world e)
        \<and> (clock_ok env \<and> lg_journal_enabled (w_log (dm_world d)) \<longrightarrow>
            trail (w_log (dm_world f)) = trail (w_log (dm_world e)) @
              [event_line (new_event (env_now env (w_clock (dm_world e))) DaemonShutdown SeverityInfo
                ''atomicagentd shutting down'')])))
    \<and> (dm_pending d = Some SIGHUP \<longrightarrow>
        main_loop env tx (Signal sig # later) d = main_loop env tx later d
        \<and> (Signal SIGTERM \<notin> set later \<and> Signal SIGINT \<notin> set later \<longrightarrow>
            \<not> fst (main_loop env tx (Signal sig # later) d)))"
proof -
  let ?later = "evs @ Receive # rest"
  have "main_loop env tx (Signal sig # ?later) d = main_loop env tx ?later d" if "dm_pending d = Some SIGHUP"
    using that by simp
  moreover have "\<not> fst (main_loop env tx ?later d)"
    if "dm_pending d = Some SIGHUP" "Signal SIGTERM \<notin> set ?later" "Signal SIGINT \<notin> set ?later"
    using that by (intro not_told_goes_on) (simp_all add: told_to_end_def)
  ultimately show ?thesis
    using signal_received [OF _ assms, of d env tx rest] by (simp only: Let_def) metis
qed

definition idle_daemon :: "os_signal option \<Rightarrow> (nat, string list) daemon" where
  "idle_daemon pending = \<lparr>dm_world = sample_world, dm_api_open = True, dm_falco_open = False, dm_waiting = 0,
     dm_pending = pending, dm_notified = []\<rparr>"

lemma signal_needs_room_witness:
  "fst (main_loop sample_env sample_texts [Signal SIGINT, ApiRequest (request ''GET'' ''/v1/health'' []), Receive] (idle_daemon None))
    \<and> \<not> fst (main_loop sample_env sample_texts [Signal SIGTERM, Receive, Receive] (idle_daemon (Some SIGHUP)))"
proof
  have p: "dm_pending (idle_daemon x) = x" for x by (simp add: idle_daemon_def)
  show "fst (main_loop sample_env sample_texts [Signal SIGINT, ApiRequest (request ''GET'' ''/v1/health'' []), Receive] (idle_daemon None))"
    using signal_needs_room [of SIGINT "[ApiRequest (request ''GET'' ''/v1/health'' [])]" sample_env sample_texts "idle_daemon None" "[]"]
    by (simp add: Let_def p del: daemon_step.simps main_loop.simps fold_simps) (metis fst_conv)
  show "\<not> fst (main_loop sample_env sample_texts [Signal SIGTERM, Receive, Receive] (idle_daemon (Some SIGHUP)))"
    using signal_needs_room [of SIGTERM "[]" sample_env sample_texts "idle_daemon (Some SIGHUP)" "[Receive]"]
    by (simp add: Let_def p del: daemon_step.simps main_loop.simps) metis
qed

lemma decode_irrelevant [simp]:
  "daemon_env (pl\<lparr>pl_decode_config := f\<rparr>) cfg = daemon_env pl cfg"
  "start_falco_listener (pl\<lparr>pl_decode_config := f\<rparr>) cfg = start_falco_listener pl cfg"
  "server_start (pl\<lparr>pl_decode_config := f\<rparr>) p fs = server_start pl p fs"
  by (simp_all add: daemon_env_def start_falco_listener_def server_start_def split: option.split)

lemma run_config_cong:
  assumes "\<And>s. new_logger (logger_config (apply_defaults a)) s = new_logger (logger_config (apply_defaults b)) s"
    and "daemon_env pl (apply_defaults a) = daemon_env pl (apply_defaults b)"
    and "start_falco_listener pl (apply_defaults a) = start_falco_listener pl (apply_defaults b)"
    and "cf_policy (apply_defaults a) = cf_policy (apply_defaults b)"
    and "cf_api_socket (cf_agents (apply_defaults a)) = cf_api_socket (cf_agents (apply_defaults b))"
  shows "run (pl\<lparr>pl_decode_config := (\<lambda>_. Inr a)\<rparr>) tx version path fs sys evs
    = run (pl\<lparr>pl_decode_config := (\<lambda>_. Inr b)\<rparr>) tx version path fs sys evs"
  using assms by (simp add: run_def startup_def start_manager_def Let_def split: sum.split prod.split)

text \<open>
  C39. Three settings have no effect whatever on what the daemon does: the default profile, the journal
  identifier and whether critical alerts kill automatically (they always do).
\<close>

theorem settings_without_effect:
  "run (pl\<lparr>pl_decode_config := (\<lambda>_. Inr (cfg\<lparr>cf_agents := (cf_agents cfg)\<lparr>cf_default_profile := p\<rparr>,
      cf_audit := (cf_audit cfg)\<lparr>cf_journal_identifier := j\<rparr>,
      cf_runtime := (cf_runtime cfg)\<lparr>cf_auto_kill_on_critical := b\<rparr>\<rparr>))\<rparr>) tx version path fs sys evs
   = run (pl\<lparr>pl_decode_config := (\<lambda>_. Inr cfg)\<rparr>) tx version path fs sys evs"
proof -
  let ?c = "cfg\<lparr>cf_agents := (cf_agents cfg)\<lparr>cf_default_profile := p\<rparr>,
      cf_audit := (cf_audit cfg)\<lparr>cf_journal_identifier := j\<rparr>,
      cf_runtime := (cf_runtime cfg)\<lparr>cf_auto_kill_on_critical := b\<rparr>\<rparr>"
  have "new_logger (logger_config (apply_defaults ?c)) s = new_logger (logger_config (apply_defaults cfg)) s" for s
    by (simp add: new_logger_def logger_config_def apply_defaults_def Let_def split: sum.split prod.split)
  moreover have "daemon_env q (apply_defaults ?c) = daemon_env q (apply_defaults cfg)"
      "start_falco_listener q (apply_defaults ?c) = start_falco_listener q (apply_defaults cfg)"
      "cf_policy (apply_defaults ?c) = cf_policy (apply_defaults cfg)"
      "cf_api_socket (cf_agents (apply_defaults ?c)) = cf_api_socket (cf_agents (apply_defaults cfg))" for q
    by (simp_all add: daemon_env_def start_falco_listener_def apply_defaults_def)
  ultimately show ?thesis by (intro run_config_cong)
qed

end
