(* ===== verification/Ctl.thy ===== *)
theory Ctl
  imports GoHttp Messages
begin

text \<open>
  \<open>daemon/cmd/atomic-agent-ctl/main.go\<close>: the commands of the command line client, over a connection
  that carries one request to the daemon and brings its reply back, after some time, if it answers at all.
  What a command writes is the
  text it prints (to standard output, except where \<open>stderr\<close> is in the name), before any alignment of
  table columns. The flag parser (cobra) is not part of the program: a command is a function of its
  arguments and flags.
\<close>

text \<open>
  What becomes of a request: no connection is made, no answer ever comes, or an answer comes after a number
  of milliseconds.
\<close>

datatype 'n exchange = NoConnection 'n | NoAnswer | Answer nat http_reply

type_synonym ('s, 'n) connection = "http_request \<Rightarrow> 's \<Rightarrow> 'n exchange \<times> 's"

datatype 'n ctl_error =
    CreatingRequest
  | Connecting "'n"
  | TimedOut
  | TooManyRedirects
  | BadLocation
  | ApiError nat string
  | DecodingReply
  | DirectoryNotFound string
  | Panic

section \<open>The call\<close>

text \<open>The client's \<open>Timeout\<close>, in milliseconds.\<close>

definition client_timeout :: nat where
  "client_timeout = 30 * 1000"

text \<open>
  \<open>client.Do\<close> follows redirections, with a \<open>GET\<close> without a body unless the method was \<open>GET\<close> or \<open>HEAD\<close>;
  ten requests at most, and all of them within the time limit, of which \<open>t\<close> has gone by. When the limit is
  reached, the daemon may have done, or may still do, what it was asked. (A reply is short enough to be there as
  a whole when its head is.)
\<close>

fun client_do ::
    "nat \<Rightarrow> ('s, 'n) connection \<Rightarrow> nat \<Rightarrow> http_request \<Rightarrow> 's \<Rightarrow> ('n ctl_error + http_reply) \<times> 's" where
  "client_do 0 conn t r s = (Inl TooManyRedirects, s)"
| "client_do (Suc n) conn t r s =
     (case conn r s of
        (NoConnection e, s1) \<Rightarrow> (Inl (Connecting e), s1)
      | (NoAnswer, s1) \<Rightarrow> (Inl TimedOut, s1)
      | (Answer d rep, s1) \<Rightarrow>
          (if client_timeout \<le> t + d then (Inl TimedOut, s1)
           else case rep of
             RedirectReply st loc \<Rightarrow>
               (case request_target loc of
                  None \<Rightarrow> (Inl BadLocation, s1)
                | Some (p, q) \<Rightarrow>
                    client_do n conn (t + d) \<lparr>rq_method = (if rq_method r = ''HEAD'' then ''HEAD'' else ''GET''),
                      rq_path = p, rq_query = q, rq_body = [], rq_broken = False\<rparr> s1)
           | _ \<Rightarrow> (Inr rep, s1)))"

text \<open>A map is marshalled with its keys in order.\<close>

definition map_json :: "(string \<times> string) list \<Rightarrow> json" where
  "map_json kvs = JObj (map (\<lambda>kv. (fst kv, JStr (snd kv))) (sort_key fst kvs))"

definition reply_body :: "http_reply \<Rightarrow> string" where
  "reply_body rep = (case rep of JsonReply n b \<Rightarrow> b | _ \<Rightarrow> [])"

text \<open>Whatever could be decoded of an error reply; the library's own replies are not JSON objects.\<close>

definition error_member :: "string \<Rightarrow> string" where
  "error_member body =
     (case json_decode_first body of
        None \<Rightarrow> []
      | Some d \<Rightarrow> (case map_of (fst (dec_string_map d [])) ''error'' of Some m \<Rightarrow> m | None \<Rightarrow> []))"

definition api_call ::
    "('s, 'n) connection \<Rightarrow> string \<Rightarrow> string \<Rightarrow> (string \<times> string) list option \<Rightarrow> 'a decoder \<Rightarrow> 'a \<Rightarrow> 's
      \<Rightarrow> ('n ctl_error + 'a) \<times> 's" where
  "api_call conn meth path body dec zero s =
     (case request_target path of
        None \<Rightarrow> (Inl CreatingRequest, s)
      | Some (p, q) \<Rightarrow>
          (case client_do 10 conn 0 \<lparr>rq_method = meth, rq_path = p, rq_query = q,
                  rq_body = (case body of Some kvs \<Rightarrow> json_marshal (map_json kvs) | None \<Rightarrow> []), rq_broken = False\<rparr> s of
             (Inl e, s1) \<Rightarrow> (Inl e, s1)
           | (Inr rep, s1) \<Rightarrow>
               (if 400 \<le> reply_status rep then (Inl (ApiError (reply_status rep) (error_member (reply_body rep))), s1)
                else (case decoded dec zero (json_decode_first (reply_body rep)) of
                        None \<Rightarrow> (Inl DecodingReply, s1)
                      | Some a \<Rightarrow> (Inr a, s1)))))"

section \<open>Values of replies\<close>

text \<open>
  \<open>map[string]interface{}\<close>, and such values printed with \<open>%s\<close>: \<open>other\<close> prints numbers, arrays and
  objects, which no reply of the daemon has where the client prints one.
\<close>

definition dec_value_map :: "(string \<times> json) list decoder" where
  "dec_value_map j old =
     (case j of
        JNull \<Rightarrow> ([], False)
      | JObj kvs \<Rightarrow> (fold (\<lambda>(k, v). AList.update k v) kvs old, False)
      | _ \<Rightarrow> (old, True))"

definition show_value :: "(json \<Rightarrow> string) \<Rightarrow> json option \<Rightarrow> string" where
  "show_value other v =
     (case v of
        None \<Rightarrow> ''%!s(<nil>)''
      | Some JNull \<Rightarrow> ''%!s(<nil>)''
      | Some (JStr s) \<Rightarrow> s
      | Some (JBool b) \<Rightarrow> (if b then ''%!s(bool=true)'' else ''%!s(bool=false)'')
      | Some d \<Rightarrow> other d)"

definition string_value :: "(string \<times> string) list \<Rightarrow> string \<Rightarrow> string" where
  "string_value m k = (case map_of m k of Some v \<Rightarrow> v | None \<Rightarrow> [])"

section \<open>Agent commands\<close>

text \<open>A command returns its output, its error if any, and the state of the other side.\<close>

type_synonym ('s, 'n) outcome = "string \<times> 'n ctl_error option \<times> 's"

definition nl :: string where
  "nl = [newline]"

definition agent_register ::
    "('s, 'n) connection \<Rightarrow> (json \<Rightarrow> string) \<Rightarrow> string \<Rightarrow> string \<Rightarrow> string \<Rightarrow> 's \<Rightarrow> ('s, 'n) outcome" where
  "agent_register conn other i profile exec s =
     (case api_call conn ''POST'' ''/v1/agents'' (Some [(''id'', i), (''profile'', profile), (''exec'', exec)])
             dec_value_map [] s of
        (Inl e, s1) \<Rightarrow> ([], Some e, s1)
      | (Inr result, s1) \<Rightarrow>
          (''Agent registered:'' @ nl @
           ''  ID:        '' @ show_value other (map_of result ''id'') @ nl @
           ''  Profile:   '' @ show_value other (map_of result ''profile'') @ nl @
           ''  Workspace: '' @ show_value other (map_of result ''workspace'') @ nl, None, s1))"

text \<open>The four commands that print the status an operation replies.\<close>

definition status_command ::
    "('s, 'n) connection \<Rightarrow> string \<Rightarrow> string \<Rightarrow> string \<Rightarrow> 's \<Rightarrow> ('s, 'n) outcome" where
  "status_command conn meth path i s =
     (case api_call conn meth path None dec_string_map [] s of
        (Inl e, s1) \<Rightarrow> ([], Some e, s1)
      | (Inr result, s1) \<Rightarrow> (''Agent '' @ i @ '': '' @ string_value result ''status'' @ nl, None, s1))"

definition agent_unregister :: "('s, 'n) connection \<Rightarrow> bool \<Rightarrow> string \<Rightarrow> 's \<Rightarrow> ('s, 'n) outcome" where
  "agent_unregister conn purge i s =
     status_command conn ''POST''
       (''/v1/agents/'' @ i @ ''/unregister'' @ (if purge then ''?purge=true'' else [])) i s"

definition agent_start :: "('s, 'n) connection \<Rightarrow> string \<Rightarrow> 's \<Rightarrow> ('s, 'n) outcome" where
  "agent_start conn i s = status_command conn ''POST'' (''/v1/agents/'' @ i @ ''/start'') i s"

definition agent_stop :: "('s, 'n) connection \<Rightarrow> string \<Rightarrow> 's \<Rightarrow> ('s, 'n) outcome" where
  "agent_stop conn i s = status_command conn ''POST'' (''/v1/agents/'' @ i @ ''/stop'') i s"

definition agent_kill :: "('s, 'n) connection \<Rightarrow> string \<Rightarrow> 's \<Rightarrow> ('s, 'n) outcome" where
  "agent_kill conn i s = status_command conn ''DELETE'' (''/v1/agents/'' @ i) i s"

definition agent_show :: "('s, 'n) connection \<Rightarrow> (json \<Rightarrow> string) \<Rightarrow> string \<Rightarrow> 's \<Rightarrow> ('s, 'n) outcome" where
  "agent_show conn other i s =
     (case api_call conn ''GET'' (''/v1/agents/'' @ i) None dec_value_map [] s of
        (Inl e, s1) \<Rightarrow> ([], Some e, s1)
      | (Inr result, s1) \<Rightarrow>
          (''Agent '' @ i @ '':'' @ nl @
           ''  State:     '' @ show_value other (map_of result ''state'') @ nl @
           ''  Profile:   '' @ show_value other (map_of result ''profile'') @ nl @
           ''  Workspace: '' @ show_value other (map_of result ''workspace'') @ nl, None, s1))"

definition tab :: string where
  "tab = [CHR 0x09]"

definition list_row :: "(json \<Rightarrow> string) \<Rightarrow> (string \<times> json) list \<Rightarrow> string" where
  "list_row other a =
     show_value other (map_of a ''id'') @ tab @ show_value other (map_of a ''state'') @ tab @
     show_value other (map_of a ''profile'') @ tab @ show_value other (map_of a ''workspace'') @ nl"

definition agent_list :: "('s, 'n) connection \<Rightarrow> (json \<Rightarrow> string) \<Rightarrow> 's \<Rightarrow> ('s, 'n) outcome" where
  "agent_list conn other s =
     (case api_call conn ''GET'' ''/v1/agents'' None (dec_slice [] dec_value_map) [] s of
        (Inl e, s1) \<Rightarrow> ([], Some e, s1)
      | (Inr result, s1) \<Rightarrow>
          (''ID'' @ tab @ ''STATE'' @ tab @ ''PROFILE'' @ tab @ ''WORKSPACE'' @ nl
             @ concat (map (list_row other) result), None, s1))"

section \<open>Policy commands\<close>

text \<open>The assertion that \<open>allow\<close> is a boolean panics when it is not.\<close>

definition policy_eval ::
    "('s, 'n) connection \<Rightarrow> (json \<Rightarrow> string) \<Rightarrow> string \<Rightarrow> string \<Rightarrow> string \<Rightarrow> 's \<Rightarrow> ('s, 'n) outcome" where
  "policy_eval conn other i actionType resource s =
     (case api_call conn ''POST'' ''/v1/policy/evaluate''
             (Some [(''agent_id'', i), (''action_type'', actionType), (''resource'', resource)]) dec_value_map [] s of
        (Inl e, s1) \<Rightarrow> ([], Some e, s1)
      | (Inr result, s1) \<Rightarrow>
          (case map_of result ''allow'' of
             Some (JBool allowed) \<Rightarrow>
               (''['' @ (if allowed then ''ALLOW'' else ''DENY'') @ ''] agent='' @ i @ '' action='' @ actionType
                  @ '' resource='' @ resource @ '' profile='' @ show_value other (map_of result ''profile'') @ nl
                  @ (case map_of result ''reasons'' of
                       Some (JArr rs) \<Rightarrow>
                         (if rs = [] then []
                          else ''  Reasons:'' @ nl
                            @ concat (map (\<lambda>r. ''    - '' @ show_value other (Some r) @ nl) rs))
                     | _ \<Rightarrow> []), None, s1)
           | _ \<Rightarrow> ([], Some Panic, s1)))"

definition policy_reload :: "('s, 'n) connection \<Rightarrow> 's \<Rightarrow> ('s, 'n) outcome" where
  "policy_reload conn s =
     (case api_call conn ''POST'' ''/v1/policy/reload'' None dec_string_map [] s of
        (Inl e, s1) \<Rightarrow> ([], Some e, s1)
      | (Inr result, s1) \<Rightarrow> (''Policy '' @ string_value result ''status'' @ nl, None, s1))"

definition policy_validate :: "string \<Rightarrow> bool \<Rightarrow> os \<Rightarrow> (os, 'n) outcome" where
  "policy_validate dir allowMissing s =
     (case os_stat dir s of
        (Inl ENOENT, s1) \<Rightarrow>
          (if allowMissing then (''Policy directory '' @ dir @ '' not found, skipping'' @ nl, None, s1)
           else ([], Some (DirectoryNotFound dir), s1))
      | (_, s1) \<Rightarrow> (''Validating policies in '' @ dir @ ''... OK'' @ nl, None, s1))"

section \<open>Audit and system commands\<close>

definition audit_tail_stderr :: "string \<Rightarrow> string" where
  "audit_tail_stderr agentID =
     (if agentID \<noteq> [] then
        ''Filtering by agent: '' @ agentID @ nl @
        ''Run: journalctl -t atomic-audit -f -o json | jq '' @ [CHR 39] @ ''select(.agent_id == '' @ [dquote] @ agentID
          @ [dquote] @ '')'' @ [CHR 39] @ nl
      else ''Run: '' @ show_strings [''journalctl'', ''-t'', ''atomic-audit'', ''-f'', ''-o'', ''json-pretty''] @ nl)
     @ ''Note: journalctl must be run directly for live streaming'' @ nl"

definition audit_export_stderr :: "string \<Rightarrow> string" where
  "audit_export_stderr since =
     ''Run: journalctl -t atomic-audit --since '' @ [CHR 39] @ since @ [CHR 39] @ '' -o json'' @ nl"

definition system_status :: "('s, 'n) connection \<Rightarrow> string \<Rightarrow> 's \<Rightarrow> ('s, 'n) outcome" where
  "system_status conn socketPath s =
     (case api_call conn ''GET'' ''/v1/health'' None dec_string_map [] s of
        (Inl e, s1) \<Rightarrow> (''atomicagentd: UNREACHABLE ('' @ socketPath @ '')'' @ nl, Some e, s1)
      | (Inr health, s1) \<Rightarrow>
          (let out1 = ''atomicagentd: '' @ string_value health ''status'' @ nl in
           case api_call conn ''GET'' ''/v1/agents'' None (dec_slice [] dec_value_map) [] s1 of
             (Inl e, s2) \<Rightarrow> (out1, None, s2)
           | (Inr agents, s2) \<Rightarrow>
               (out1 @ ''Agents: '' @ nat_lit (length agents) @ '' total, ''
                  @ nat_lit (length (filter (\<lambda>a. map_of a ''state'' = Some (JStr ''running'')) agents)) @ '' running'' @ nl,
                None, s2)))"

section \<open>The program\<close>

datatype ctl_command =
    AgentRegister string string string
  | AgentUnregister bool string
  | AgentStart string
  | AgentStop string
  | AgentKill string
  | AgentStatus string
  | AgentList
  | PolicyEval string string string
  | PolicyReload
  | SystemStatus

text \<open>The commands that talk to the daemon, and the exit status.\<close>

fun run_command ::
    "('s, 'n) connection \<Rightarrow> (json \<Rightarrow> string) \<Rightarrow> string \<Rightarrow> ctl_command \<Rightarrow> 's \<Rightarrow> ('s, 'n) outcome" where
  "run_command conn other sock (AgentRegister i p x) s = agent_register conn other i p x s"
| "run_command conn other sock (AgentUnregister purge i) s = agent_unregister conn purge i s"
| "run_command conn other sock (AgentStart i) s = agent_start conn i s"
| "run_command conn other sock (AgentStop i) s = agent_stop conn i s"
| "run_command conn other sock (AgentKill i) s = agent_kill conn i s"
| "run_command conn other sock (AgentStatus i) s = agent_show conn other i s"
| "run_command conn other sock AgentList s = agent_list conn other s"
| "run_command conn other sock (PolicyEval i a r) s = policy_eval conn other i a r s"
| "run_command conn other sock PolicyReload s = policy_reload conn s"
| "run_command conn other sock SystemStatus s = system_status conn sock s"

definition exit_status :: "('s, 'n) outcome \<Rightarrow> nat" where
  "exit_status oc = (case fst (snd oc) of None \<Rightarrow> 0 | Some Panic \<Rightarrow> 2 | Some _ \<Rightarrow> 1)"

end
