(* ===== verification/CtlProps.thy ===== *)
theory CtlProps
  imports Ctl ApiProps "HOL-Library.Multiset"
begin

text \<open>
  The client against the daemon: what its commands print is what the manager did, what an identifier that is
  no identifier makes it do, and what its offline commands check.
\<close>

section \<open>The connection to the daemon\<close>

text \<open>
  A running daemon. A space in the query ends the request line early, which the server answers with 400; how
  long an answer takes may depend on the request and on the daemon's state.
\<close>

type_synonym ('s, 'q) delay = "string \<Rightarrow> string \<Rightarrow> ('s, 'q) world \<Rightarrow> nat"

definition daemon_connection ::
    "('s, 'e, 'q, 'r) env \<Rightarrow> ('e, 'r) texts \<Rightarrow> ('s, 'q) delay \<Rightarrow> (('s, 'q) world, string) connection" where
  "daemon_connection env tx delay r w =
     (let d = delay (rq_method r) (rq_path r) w in
      if CHR '' '' \<in> set (rq_query r) then (Answer d (LibraryReply 400), w)
      else (case serve env tx r w of
          (Returned rep, w') \<Rightarrow> (Answer d rep, w')
        | (Blocked, w') \<Rightarrow> (NoAnswer, w')))"

definition late :: "('s, 'q) delay \<Rightarrow> string \<Rightarrow> string \<Rightarrow> ('s, 'q) world \<Rightarrow> bool" where
  "late delay meth path w \<longleftrightarrow> client_timeout \<le> delay meth path w"

lemma client_do_once:
  "conn r s = (Answer d rep, s1) \<Longrightarrow> (\<And>st loc. rep \<noteq> RedirectReply st loc) \<Longrightarrow>
     client_do 10 conn 0 r s = (if client_timeout \<le> d then Inl TimedOut else Inr rep, s1)"
  "conn r s = (NoAnswer, s1) \<Longrightarrow> client_do 10 conn 0 r s = (Inl TimedOut, s1)"
  by (simp_all add: eval_nat_numeral split: http_reply.split)

section \<open>Targets\<close>

lemma path_safe_not:
  "path_safe c \<Longrightarrow> c \<noteq> CHR ''#'' \<and> c \<noteq> CHR ''?'' \<and> c \<noteq> CHR ''%'' \<and> 0x20 \<le> byte_of c \<and> byte_of c \<noteq> 0x7F"
  by (auto simp: path_safe_def is_unreserved_def is_lower_def is_upper_def is_digit_def byte_of_def)

lemma cut_at_none: "c \<notin> set s \<Longrightarrow> cut_at c s = (s, [])"
proof -
  assume "c \<notin> set s"
  then have "takeWhile (\<lambda>x. x \<noteq> c) s = s" "dropWhile (\<lambda>x. x \<noteq> c) s = []" by (induction s) auto
  then show ?thesis unfolding cut_at_def by (simp only: drop_Nil)
qed

lemma cut_at_append: "c \<notin> set s \<Longrightarrow> cut_at c (s @ c # t) = (s, t)"
proof -
  assume "c \<notin> set s"
  then have "takeWhile (\<lambda>x. x \<noteq> c) (s @ c # t) = s" "dropWhile (\<lambda>x. x \<noteq> c) (s @ c # t) = c # t"
    by (induction s) auto
  then show ?thesis by (simp add: cut_at_def)
qed

lemma target_plain:
  assumes "list_all path_safe s"
  shows "request_target s = Some (s, [])"
proof -
  have s: "c \<noteq> CHR ''#'' \<and> c \<noteq> CHR ''?'' \<and> c \<noteq> CHR ''%'' \<and> 0x20 \<le> byte_of c \<and> byte_of c \<noteq> 0x7F" if "c \<in> set s" for c
    using assms that path_safe_not by (auto simp: list_all_iff)
  then have "cut_at (CHR ''#'') s = (s, [])" "cut_at (CHR ''?'') s = (s, [])" by (auto intro!: cut_at_none)
  moreover have "percent_decode False s = Some s" using s by (intro no_percent) auto
  moreover have "\<not> has_control s" using s by (force simp: has_control_def list_ex_iff)
  moreover have "valid_encoded_path s" using assms by (auto simp: valid_encoded_path_def list_all_iff)
  ultimately show ?thesis by (simp add: request_target_def)
qed

lemma valid_id_safe: "valid_id i \<Longrightarrow> list_all path_safe i"
  using valid_id_chars by (auto simp: list_all_iff path_safe_def is_unreserved_def id_char_def)

lemma safe_lits: "list_all path_safe ''/v1/agents/''" "list_all path_safe ''/start''" "list_all path_safe ''/stop''"
  "list_all path_safe ''/unregister''" "list_all path_safe ''/v1/agents''" "list_all path_safe ''/v1/health''"
  by code_simp+

lemma agent_targets:
  assumes "valid_id i"
  shows "request_target (''/v1/agents/'' @ i) = Some (''/v1/agents/'' @ i, [])"
    and "request_target (''/v1/agents/'' @ i @ ''/start'') = Some (''/v1/agents/'' @ i @ ''/start'', [])"
    and "request_target (''/v1/agents/'' @ i @ ''/stop'') = Some (''/v1/agents/'' @ i @ ''/stop'', [])"
    and "request_target (''/v1/agents/'' @ i @ ''/unregister'') = Some (''/v1/agents/'' @ i @ ''/unregister'', [])"
  using valid_id_safe [OF assms] safe_lits by (auto intro!: target_plain)

lemma target_query:
  assumes "list_all path_safe p" and "CHR ''#'' \<notin> set q" and "\<not> has_control q"
  shows "request_target (p @ CHR ''?'' # q) = Some (p, q)"
proof -
  have s: "c \<noteq> CHR ''#'' \<and> c \<noteq> CHR ''?'' \<and> c \<noteq> CHR ''%'' \<and> 0x20 \<le> byte_of c \<and> byte_of c \<noteq> 0x7F" if "c \<in> set p" for c
    using assms(1) that path_safe_not by (auto simp: list_all_iff)
  have "cut_at (CHR ''#'') (p @ CHR ''?'' # q) = (p @ CHR ''?'' # q, [])"
    using s assms(2) by (intro cut_at_none) auto
  moreover have "cut_at (CHR ''?'') (p @ CHR ''?'' # q) = (p, q)" using s by (intro cut_at_append) auto
  moreover have "percent_decode False p = Some p" using s by (intro no_percent) auto
  moreover have "\<not> has_control (p @ CHR ''?'' # q)"
    using s assms(3) by (force simp: has_control_def list_ex_iff byte_of_def)
  moreover have "valid_encoded_path p" using assms(1) by (auto simp: valid_encoded_path_def list_all_iff)
  ultimately show ?thesis by (simp add: request_target_def)
qed

section \<open>Status commands\<close>

lemma repair_lits: "utf8_repair ''status'' = ''status''" "utf8_repair ''error'' = ''error''"
  by (rule utf8_repair_ascii, simp add: ascii_lits)+

lemma status_decoded:
  "decoded dec_string_map [] (json_decode_first (json_marshal (status_json st) @ [newline])) = Some [(''status'', utf8_repair st)]"
  using decode_marshal [of "status_json st"]
  by (simp add: status_json_def newline_def decoded_def dec_string_map_def repair_lits del: utf8_repair.simps)

lemma error_decoded: "error_member (json_marshal (JObj [(''error'', JStr m)]) @ [newline]) = utf8_repair m"
  using decode_marshal [of "JObj [(''error'', JStr m)]"]
  by (simp add: error_member_def newline_def dec_string_map_def repair_lits del: utf8_repair.simps)

text \<open>What the user sees of the result of an operation, which may be there too late.\<close>

fun shown ::
    "string \<Rightarrow> string \<Rightarrow> nat \<Rightarrow> bool \<Rightarrow> ('e, 'r) texts \<Rightarrow> ('e manager_error + unit) call \<times> 'w \<Rightarrow> ('w, string) outcome" where
  "shown i st code too_late tx (Blocked, w) = ([], Some TimedOut, w)"
| "shown i st code too_late tx (Returned x, w) =
     (if too_late then ([], Some TimedOut, w)
      else case x of
        Inl e \<Rightarrow> ([], Some (ApiError code (utf8_repair (error_text tx e))), w)
      | Inr _ \<Rightarrow> (''Agent '' @ i @ '': '' @ st @ nl, None, w))"

definition reply_of :: "string \<Rightarrow> nat \<Rightarrow> ('e, 'r) texts \<Rightarrow> 'e manager_error + unit \<Rightarrow> http_reply" where
  "reply_of st code tx x = (case x of Inl e \<Rightarrow> write_error code (error_text tx e) | Inr _ \<Rightarrow> write_json 200 (status_json st))"

lemma status_command_shown:
  assumes "request_target path = Some (p, q)" and "CHR '' '' \<notin> set q" and "400 \<le> code" and "ascii st"
    and "serve env tx \<lparr>rq_method = meth, rq_path = p, rq_query = q, rq_body = [], rq_broken = False\<rparr> w
      = (case x of Blocked \<Rightarrow> Blocked | Returned y \<Rightarrow> Returned (reply_of st code tx y), w')"
  shows "status_command (daemon_connection env tx delay) meth path i w
    = shown i st code (late delay meth p w) tx (x, w')"
proof -
  let ?r = "\<lparr>rq_method = meth, rq_path = p, rq_query = q, rq_body = [], rq_broken = False\<rparr>"
  let ?c = "daemon_connection env tx delay"
  have st: "utf8_repair st = st" using assms(4) by (rule utf8_repair_ascii)
  show ?thesis
  proof (cases x)
    case Blocked
    then have "?c ?r w = (NoAnswer, w')" using assms(2,5) by (simp add: daemon_connection_def)
    from client_do_once(2) [of ?c, OF this] show ?thesis
      using Blocked assms(1) by (simp add: status_command_def api_call_def)
  next
    case (Returned y)
    then have c: "?c ?r w = (Answer (delay meth p w) (reply_of st code tx y), w')"
      using assms(2,5) by (simp add: daemon_connection_def)
    have "client_do 10 ?c 0 ?r w = (if late delay meth p w then Inl TimedOut else Inr (reply_of st code tx y), w')"
      unfolding late_def
      by (rule client_do_once(1) [of ?c, OF c]) (simp add: reply_of_def write_error_def write_json_def split: sum.split)
    with Returned assms(1,3) show ?thesis
      by (cases y)
        (simp_all add: status_command_def api_call_def reply_of_def write_error_def write_json_def reply_body_def
          error_decoded status_decoded st string_value_def)
  qed
qed

lemma ascii_status: "ascii ''started''" "ascii ''stopped''" "ascii ''killed''" "ascii ''unregistered''"
  by (simp_all add: ascii_lits)

text \<open>The handlers behind the paths the client uses.\<close>

lemma agent_serve:
  assumes "valid_id i"
  shows "serve env tx \<lparr>rq_method = ''POST'', rq_path = ''/v1/agents/'' @ i @ ''/start'', rq_query = q, rq_body = b, rq_broken = k\<rparr> w
      = handle_start_agent env tx i w"
    and "serve env tx \<lparr>rq_method = ''POST'', rq_path = ''/v1/agents/'' @ i @ ''/stop'', rq_query = q, rq_body = b, rq_broken = k\<rparr> w
      = handle_stop_agent env tx i w"
    and "serve env tx \<lparr>rq_method = ''DELETE'', rq_path = ''/v1/agents/'' @ i, rq_query = q, rq_body = b, rq_broken = k\<rparr> w
      = replying (handle_kill_agent env tx i w)"
    and "serve env tx \<lparr>rq_method = ''POST'', rq_path = ''/v1/agents/'' @ i @ ''/unregister'', rq_query = q, rq_body = b, rq_broken = k\<rparr> w
      = replying (handle_unregister_agent env tx i
          \<lparr>rq_method = ''POST'', rq_path = ''/v1/agents/'' @ i @ ''/unregister'', rq_query = q, rq_body = b, rq_broken = k\<rparr> w)"
  by (simp_all only: serve_def serve_mux_def http_request.select_convs agent_routes [OF assms] routed.case
      path_value_def list.case handle.simps)

lemma unregister_shown:
  assumes "valid_id i" and "request_target path = Some (''/v1/agents/'' @ i @ ''/unregister'', q)"
    and "(query_get ''purge'' q = ''true'') = purge" and "CHR '' '' \<notin> set q"
  shows "status_command (daemon_connection env tx delay) ''POST'' path j w
    = shown j ''unregistered'' 400 (late delay ''POST'' (''/v1/agents/'' @ i @ ''/unregister'') w) tx (map_prod Returned id (unregister env i purge w))"
proof -
  obtain x w' where s: "unregister env i purge w = (x, w')" by fastforce
  show ?thesis
    unfolding s map_prod_simp id_apply
    by (rule status_command_shown [OF assms(2,4)], simp, rule ascii_status, unfold agent_serve(4) [OF assms(1)])
      (simp add: handle_unregister_agent_def replying_def assms(3) s reply_of_def split: sum.split)
qed

section \<open>Properties\<close>

text \<open>
  C8. The client tells the truth about an agent with a valid identifier: starting, stopping, killing and
  unregistering do with the manager exactly what the operation does. The new status is printed exactly
  when the operation succeeded and the answer came within the client's thirty seconds; when it failed, and the
  answer came in time, the command ends with the manager's own message (bytes that are not UTF-8 replaced), and
  otherwise with the time limit, whatever the operation did.
\<close>

theorem commands_tell_the_truth:
  assumes "valid_id i"
  shows "agent_start (daemon_connection env tx delay) i w =
        shown i ''started'' 500 (late delay ''POST'' (''/v1/agents/'' @ i @ ''/start'') w) tx (start env i w)
    \<and> agent_stop (daemon_connection env tx delay) i w =
        shown i ''stopped'' 500 (late delay ''POST'' (''/v1/agents/'' @ i @ ''/stop'') w) tx (stop env i w)
    \<and> agent_kill (daemon_connection env tx delay) i w =
        shown i ''killed'' 500 (late delay ''DELETE'' (''/v1/agents/'' @ i) w) tx
          (map_prod Returned id (kill env i ''operator requested kill'' w))
    \<and> agent_unregister (daemon_connection env tx delay) purge i w =
        shown i ''unregistered'' 400 (late delay ''POST'' (''/v1/agents/'' @ i @ ''/unregister'') w) tx
          (map_prod Returned id (unregister env i purge w))"
proof (intro conjI)
  note t = agent_targets [OF assms(1)] and v = agent_serve [OF assms(1)]
  obtain x w' where s: "start env i w = (x, w')" by fastforce
  show "agent_start (daemon_connection env tx delay) i w =
      shown i ''started'' 500 (late delay ''POST'' (''/v1/agents/'' @ i @ ''/start'') w) tx (start env i w)"
    unfolding agent_start_def s
    by (rule status_command_shown [OF t(2)], simp, simp, rule ascii_status, unfold v(1))
      (simp add: handle_start_agent_def s reply_of_def split: call.split sum.split)
  obtain x w' where s: "stop env i w = (x, w')" by fastforce
  show "agent_stop (daemon_connection env tx delay) i w =
      shown i ''stopped'' 500 (late delay ''POST'' (''/v1/agents/'' @ i @ ''/stop'') w) tx (stop env i w)"
    unfolding agent_stop_def s
    by (rule status_command_shown [OF t(3)], simp, simp, rule ascii_status, unfold v(2))
      (simp add: handle_stop_agent_def s reply_of_def split: call.split sum.split)
  obtain x w' where s: "kill env i ''operator requested kill'' w = (x, w')" by fastforce
  show "agent_kill (daemon_connection env tx delay) i w = shown i ''killed'' 500 (late delay ''DELETE'' (''/v1/agents/'' @ i) w) tx
      (map_prod Returned id (kill env i ''operator requested kill'' w))"
    unfolding agent_kill_def s map_prod_simp id_apply
    by (rule status_command_shown [OF t(1)], simp, simp, rule ascii_status, unfold v(3))
      (simp add: handle_kill_agent_def replying_def s reply_of_def split: sum.split)
  show "agent_unregister (daemon_connection env tx delay) purge i w =
      shown i ''unregistered'' 400 (late delay ''POST'' (''/v1/agents/'' @ i @ ''/unregister'') w) tx
        (map_prod Returned id (unregister env i purge w))"
    unfolding agent_unregister_def
  proof (rule unregister_shown [OF assms(1)])
    have "list_all path_safe (''/v1/agents/'' @ i @ ''/unregister'')" using valid_id_safe [OF assms(1)] safe_lits by simp
    from target_query [OF this, of "''purge=true''"]
    show "request_target (''/v1/agents/'' @ i @ ''/unregister'' @ (if purge then ''?purge=true'' else []))
        = Some (''/v1/agents/'' @ i @ ''/unregister'', if purge then ''purge=true'' else [])"
      using t(4) by (cases purge) (simp_all add: has_control_def byte_of_def)
    have "query_get ''purge'' ''purge=true'' = ''true''" "query_get ''purge'' [] = []" by code_simp+
    then show "(query_get ''purge'' (if purge then ''purge=true'' else []) = ''true'') = purge" by simp
  qed simp
qed

text \<open>A daemon that answers at once.\<close>

definition at_once :: "('s, 'q) delay" where
  "at_once meth path w = 0"

lemma never_late [simp]: "\<not> late at_once meth path w"
  by (simp add: late_def at_once_def client_timeout_def)

lemma commands_tell_the_truth_witness:
  "agent_start (daemon_connection sample_env sample_texts at_once) ''zz'' sample_world
     = ([], Some (ApiError 500 (''agent '' @ [dquote] @ ''zz'' @ [dquote] @ '' not registered'')), sample_world)"
proof -
  have v: "valid_id ''zz''" by code_simp
  have "start sample_env ''zz'' sample_world = (Returned (Inl (NotRegistered ''zz'')), sample_world)"
    by (simp add: start_def start_enter_def sample_world_def new_manager_def)
  moreover have "utf8_repair (error_text sample_texts (NotRegistered ''zz'')) = ''agent '' @ [dquote] @ ''zz'' @ [dquote] @ '' not registered''"
    unfolding error_text.simps quote_valid_id [OF v] by (rule utf8_repair_ascii [THEN trans]) (simp_all add: ascii_lits dquote_def)
  ultimately show ?thesis using commands_tell_the_truth [OF v, of sample_env sample_texts at_once sample_world] by simp
qed

text \<open>
  C18. The client puts its argument into the path as it is: given an agent's identifier followed by a path and
  a query, \<open>agent start\<close> unregisters the agent and deletes its workspace, and reports that as a
  success (or runs into the time limit, if the answer comes late).
\<close>

theorem start_can_purge:
  assumes "valid_id i"
  shows "agent_start (daemon_connection env tx delay) (i @ ''/unregister?purge=true&'') w =
    shown (i @ ''/unregister?purge=true&'') ''unregistered'' 400
      (late delay ''POST'' (''/v1/agents/'' @ i @ ''/unregister'') w) tx
      (map_prod Returned id (unregister env i True w))"
  unfolding agent_start_def
proof (rule unregister_shown [OF assms])
  have "list_all path_safe (''/v1/agents/'' @ i @ ''/unregister'')" using valid_id_safe [OF assms] safe_lits by simp
  from target_query [OF this, of "''purge=true&/start''"]
  show "request_target (''/v1/agents/'' @ (i @ ''/unregister?purge=true&'') @ ''/start'')
      = Some (''/v1/agents/'' @ i @ ''/unregister'', ''purge=true&/start'')"
    by (simp add: has_control_def byte_of_def)
  show "(query_get ''purge'' ''purge=true&/start'' = ''true'') = True" by code_simp
qed simp

lemma start_can_purge_witness:
  "fst (agent_start (daemon_connection sample_env sample_texts at_once) (''a1'' @ ''/unregister?purge=true&'') (world_with StateStopped))
     = ''Agent a1/unregister?purge=true&: unregistered'' @ nl"
proof -
  have v: "valid_id ''a1''" by code_simp
  have "fst (unregister sample_env ''a1'' True (world_with StateStopped) :: (string manager_error + unit) \<times> _) = Inr ()"
    by (simp add: unregister_def world_with_at)
  then obtain w' where "unregister sample_env ''a1'' True (world_with StateStopped) = (Inr () :: string manager_error + unit, w')"
    by (metis prod.exhaust_sel)
  then show ?thesis using start_can_purge [OF v, of sample_env sample_texts at_once "world_with StateStopped"] by simp
qed

text \<open>
  \<open>policy validate\<close> looks at no policy: its answer depends only on whether the directory exists, not
  on what any file in it contains.
\<close>

lemma validate_checks_nothing:
  "fst (policy_validate dir allowMissing s) =
     (if fst (os_stat dir s) \<noteq> Inl ENOENT then ''Validating policies in '' @ dir @ ''... OK'' @ nl
      else if allowMissing then ''Policy directory '' @ dir @ '' not found, skipping'' @ nl else []) \<and>
   (fst (snd (policy_validate dir allowMissing s)) =
     (if fst (os_stat dir s) = Inl ENOENT \<and> \<not> allowMissing then Some (DirectoryNotFound dir) else None))"
  by (cases "os_stat dir s"; cases "fst (os_stat dir s)")
    (auto simp: policy_validate_def split: io_error.splits)

section \<open>Counting agents\<close>

lemma map_filter_all: "(\<And>x. x \<in> set xs \<Longrightarrow> f x \<noteq> None) \<Longrightarrow> List.map_filter f xs = map (\<lambda>x. the (f x)) xs"
  by (induction xs) (auto simp: map_filter_simps split: option.split)

lemma iterate_mset:
  assumes "mgr_inv w" and "\<forall>n ids. mset (env_order env n ids) = mset ids"
  shows "mset (fst (iterate env w)) = image_mset (\<lambda>i. the (agent_at w i)) (mset (map fst (w_agents w)))"
proof -
  let ?ids = "env_order env (w_iters w) (map fst (w_agents w))"
  have ids: "mset ?ids = mset (map fst (w_agents w))" using assms(2) by blast
  have "agent_at w i \<noteq> None" if "i \<in> set ?ids" for i
  proof -
    have "i \<in> set (map fst (w_agents w))" using that ids mset_eq_setD by blast
    then show ?thesis using mgr_inv_known [OF assms(1), of i] by (simp add: map_of_eq_None_iff)
  qed
  then have "fst (iterate env w) = map (\<lambda>i. the (agent_at w i)) ?ids" by (simp add: iterate_def map_filter_all)
  then show ?thesis using ids by simp
qed

lemma iterate_counts:
  assumes "mgr_inv w" and "\<forall>n ids. mset (env_order env n ids) = mset ids"
  shows "length (fst (iterate env w)) = length (w_agents w)"
    and "length (filter (\<lambda>ra. ra_state ra = st) (fst (iterate env w)))
      = length (filter (\<lambda>i. state_of w i = Some st) (map fst (w_agents w)))"
proof -
  note m = iterate_mset [OF assms]
  from arg_cong [OF m, of size] show "length (fst (iterate env w)) = length (w_agents w)" by simp
  have "size (filter_mset (\<lambda>ra. ra_state ra = st) (mset (fst (iterate env w))))
      = size (filter_mset (\<lambda>i. ra_state (the (agent_at w i)) = st) (mset (map fst (w_agents w))))"
    unfolding m by (simp add: filter_mset_image_mset)
  also have "filter_mset (\<lambda>i. ra_state (the (agent_at w i)) = st) (mset (map fst (w_agents w)))
      = filter_mset (\<lambda>i. state_of w i = Some st) (mset (map fst (w_agents w)))"
  proof (rule filter_mset_cong [OF refl])
    fix i assume "i \<in># mset (map fst (w_agents w))"
    then have "agent_at w i \<noteq> None" using mgr_inv_known [OF assms(1), of i] by (simp add: map_of_eq_None_iff)
    then show "(ra_state (the (agent_at w i)) = st) = (state_of w i = Some st)" by (auto simp: state_of_def)
  qed
  finally show "length (filter (\<lambda>ra. ra_state ra = st) (fst (iterate env w)))
      = length (filter (\<lambda>i. state_of w i = Some st) (map fst (w_agents w)))"
    by (simp only: size_mset flip: mset_filter)
qed

text \<open>The document of an agent, after it went over the connection.\<close>

definition shown_agent :: "runtime_agent \<Rightarrow> (string \<times> json) list" where
  "shown_agent ra = [(''id'', JStr (utf8_repair (ar_id ra))), (''profile'', JStr (utf8_repair (ar_profile ra))),
     (''state'', JStr (state_name (ra_state ra))), (''workspace'', JStr (utf8_repair (ar_workspace_path ra)))]"

lemma repair_response: "json_repair (agent_response ra) = JObj (shown_agent ra)"
proof -
  have "utf8_repair ''id'' = ''id''" "utf8_repair ''profile'' = ''profile''" "utf8_repair ''state'' = ''state''"
    "utf8_repair ''workspace'' = ''workspace''" by (rule utf8_repair_ascii, simp add: ascii_lits)+
  moreover have "utf8_repair (state_name st) = state_name st" for st
    by (cases st) (rule utf8_repair_ascii, simp add: ascii_lits)+
  ultimately show ?thesis by (simp add: agent_response_def shown_agent_def del: utf8_repair.simps)
qed

lemma shown_agents_decoded:
  "decoded (dec_slice [] dec_value_map) [] (json_decode_first (json_marshal (JArr (map agent_response ras)) @ [newline]))
     = Some (map shown_agent ras)"
proof -
  have "json_decode_first (json_marshal (JArr (map agent_response ras)) @ [newline])
      = Some (JArr (map (\<lambda>ra. JObj (shown_agent ra)) ras))"
    using decode_marshal [of "JArr (map agent_response ras)"]
    by (simp add: newline_def list_all_iff repair_response comp_def)
  moreover have "dec_value_map (JObj (shown_agent ra)) [] = (shown_agent ra, False)" for ra
    by (simp add: dec_value_map_def shown_agent_def)
  then have "list_all2 (\<lambda>x d. dec_value_map d [] = (x, False)) (map shown_agent ras) (map (\<lambda>ra. JObj (shown_agent ra)) ras)"
    by (simp add: list_all2_map1 list_all2_map2 list_all2_same)
  from dec_slice_fresh [where dec = dec_value_map and zero = "[]", OF this] have "dec_slice [] dec_value_map (JArr (map (\<lambda>ra. JObj (shown_agent ra)) ras)) [] = (map shown_agent ras, False)" .
  ultimately show ?thesis by (simp add: decoded_Some)
qed

lemma state_name_inject: "state_name a = state_name b \<Longrightarrow> a = b"
  by (cases a; cases b) simp_all

lemma shown_running: "map_of (shown_agent ra) ''state'' = Some (JStr ''running'') \<longleftrightarrow> ra_state ra = StateRunning"
  using state_name_inject [of "ra_state ra" StateRunning] by (auto simp: shown_agent_def)

text \<open>One exchange with a handler that answers a JSON document with status 200.\<close>

lemma api_call_json:
  assumes "list_all path_safe path" and "mux_route api_routes meth path = RouteTo h vs"
    and "handle env tx h (path_value vs) \<lparr>rq_method = meth, rq_path = path, rq_query = [], rq_body = [], rq_broken = False\<rparr> w
      = (Returned (write_json 200 d), w')"
    and "\<not> late delay meth path w"
    and "decoded dec zero (json_decode_first (json_marshal d @ [newline])) = Some a"
  shows "api_call (daemon_connection env tx delay) meth path None dec zero w = (Inr a, w')"
proof -
  let ?r = "\<lparr>rq_method = meth, rq_path = path, rq_query = [], rq_body = [], rq_broken = False\<rparr>"
  have "daemon_connection env tx delay ?r w = (Answer (delay meth path w) (write_json 200 d), w')"
    using assms(2,3) by (simp add: daemon_connection_def serve_def serve_mux_def)
  from client_do_once(1) [of "daemon_connection env tx delay", OF this]
  have "client_do 10 (daemon_connection env tx delay) 0 ?r w = (Inr (write_json 200 d), w')"
    using assms(4) by (simp add: write_json_def late_def)
  then show ?thesis using assms(5)
    by (simp add: api_call_def target_plain [OF assms(1)] write_json_def reply_body_def)
qed

text \<open>
  C31. \<open>system status\<close> counts right: it prints the number of registered agents and the number of those in
  state running, whatever their identifiers, profiles and paths are, if the daemon answers within the client's
  time limit.
\<close>

theorem status_counts:
  assumes "mgr_inv w" and "\<forall>n ids. mset (env_order env n ids) = mset ids"
    and "\<not> late delay ''GET'' ''/v1/health'' w" and "\<not> late delay ''GET'' ''/v1/agents'' w"
  shows "fst (system_status (daemon_connection env tx delay) sock w) =
    ''atomicagentd: ok'' @ nl @ ''Agents: '' @ nat_lit (length (w_agents w)) @ '' total, '' @
    nat_lit (length (filter (\<lambda>i. state_of w i = Some StateRunning) (map fst (w_agents w)))) @ '' running'' @ nl"
proof -
  let ?c = "daemon_connection env tx delay"
  have "utf8_repair ''ok'' = ''ok''" by (rule utf8_repair_ascii) (simp add: ascii_lits)
  then have "decoded dec_string_map [] (json_decode_first (json_marshal (status_json ''ok'') @ [newline])) = Some [(''status'', ''ok'')]"
    using status_decoded [of "''ok''"] by simp
  then have h: "api_call ?c ''GET'' ''/v1/health'' None dec_string_map [] w = (Inr [(''status'', ''ok'')], w)"
    using assms(3) by (intro api_call_json [OF safe_lits(6) fixed_routes(5)]) (simp_all add: handle_health_def)
  let ?ras = "fst (iterate env w)"
  have "handle env tx EpList (path_value []) r w = (Returned (write_json 200 (JArr (map agent_response ?ras))), snd (iterate env w))" for r
    by (simp add: replying_def handle_list_agents_def list_agents_def case_prod_unfold Let_def)
  then have l: "api_call ?c ''GET'' ''/v1/agents'' None (dec_slice [] dec_value_map) [] w = (Inr (map shown_agent ?ras), snd (iterate env w))"
    using assms(4) by (intro api_call_json [OF safe_lits(5) fixed_routes(2) _ _ shown_agents_decoded])
  have "filter (\<lambda>a. map_of a ''state'' = Some (JStr ''running'')) (map shown_agent ?ras)
      = map shown_agent (filter (\<lambda>ra. ra_state ra = StateRunning) ?ras)"
    by (simp add: filter_map comp_def shown_running)
  then have "length (filter (\<lambda>a. map_of a ''state'' = Some (JStr ''running'')) (map shown_agent ?ras))
      = length (filter (\<lambda>i. state_of w i = Some StateRunning) (map fst (w_agents w)))"
    using iterate_counts(2) [OF assms(1,2)] by simp
  then show ?thesis
    using iterate_counts(1) [OF assms(1,2)]
    by (simp only: system_status_def h prod.case sum.case Let_def l) (simp add: string_value_def)
qed

lemma status_counts_witness:
  "fst (system_status (daemon_connection sample_env sample_texts at_once) ''/s'' (world_with StateRunning))
     = ''atomicagentd: ok'' @ nl @ ''Agents: 1 total, 1 running'' @ nl"
proof -
  have "map fst (w_agents (world_with StateRunning)) = [''a1'']" "length (w_agents (world_with StateRunning)) = 1"
    by (simp_all add: world_with_def set_state_def modify_agent_def install_def register_record_def sample_world_def new_manager_def)
  moreover have "nat_lit 1 = ''1''" by code_simp
  moreover have "\<forall>n ids. mset (env_order sample_env n ids) = mset ids" by (simp add: sample_env_def)
  ultimately show ?thesis
    using status_counts [OF world_with_inv [of StateRunning] _ never_late never_late,
        where env = sample_env and tx = sample_texts and sock = "''/s''"]
    by (simp add: world_with_at del: length_filter_map)
qed

end
